theory Spec2Isabelle
  imports Complex_Main "HOL-Library.Product_Lexorder"
begin

section \<open>Data model\<close>

text \<open>
  A row of the node table, with the columns of the CSV file in their order. The node
  generator writes all of them; the link generator reads \<open>NodeId\<close>, \<open>RouteId\<close>,
  \<open>StopId\<close>, \<open>Timestamp\<close> and \<open>TripId\<close> as integers and compares \<open>Event\<close> with the
  strings \<open>'ARRIVAL'\<close> and \<open>'DEPARTURE'\<close>.

  The link generator reads the integer columns with \<open>dtype int32\<close>. A subtraction on
  the column \<open>Timestamp\<close>, or between two scalars taken from it with \<open>.iloc\<close>, is a
  32-bit subtraction and wraps (\<open>int32\<close> below); a row that \<open>iterrows\<close> yields holds
  Python integers, whose arithmetic is exact. The distances of the link generator, which
  go through \<open>sin\<close>, \<open>cos\<close>, \<open>asin\<close> and \<open>sqrt\<close>, are read as real numbers, and so
  are the walking time and the earliest departure time computed from them; the node
  generator, whose trip loop only divides and adds, is modelled with the rounding of
  floats (\<open>double\<close> below).
\<close>

record node =
  NodeId :: int
  RouteId :: int
  RouteNo :: string
  RouteVarId :: int
  TripId :: int
  StopId :: int
  Timestamp :: int
  Event :: string
  Time :: string
  StopName :: string
  Attributes :: string

text \<open>A row of the link table: \<open>link_id,from_node,to_node,duration,mode\<close>.\<close>

record link =
  link_id :: int
  from_node :: int
  to_node :: int
  duration :: int
  mode :: string

text \<open>A stop of a variant in the bus JSON: \<open>StopId\<close>, \<open>Lat\<close>, \<open>Lng\<close>, \<open>Name\<close>.\<close>

record stop =
  stop_StopId :: int
  stop_Lat :: real
  stop_Lng :: real
  stop_Name :: string

text \<open>A trip of a timetable; \<open>trip.get('StartTime')\<close> is \<open>None\<close> when the key is missing.\<close>

record trip =
  trip_TripId :: int
  trip_StartTime :: "string option"
  trip_EndTime :: "string option"

text \<open>
  What \<open>load_stop_info\<close> reads of one route of the bus JSON: \<open>getroutebyid.RouteId\<close>
  when present, the \<open>RouteVarId\<close> of every variant of \<open>getvarsbyroute\<close>, and
  \<open>getstopsbyvar\<close>, keyed by the variant id.
\<close>

record route_data =
  getroutebyid_RouteId :: "int option"
  getvarsbyroute :: "int list"
  getstopsbyvar :: "int \<rightharpoonup> stop list"

text \<open>An entry of \<open>stop_info\<close>, and an entry of the list \<open>find_stops_within_radius\<close> returns.\<close>

record stop_entry =
  Lat :: real
  Lng :: real
  Name :: string
  Routes :: "(int + string) set"

record nearby_stop =
  nearby_StopId :: int
  nearby_Distance :: real
  nearby_Name :: string

text \<open>
  The value a 32-bit signed integer takes for the exact result \<open>x\<close> of an operation, and
  the node tables whose timestamps are seconds since midnight that fit the column: no
  difference of two such timestamps wraps.
\<close>

definition int32 :: "int \<Rightarrow> int" where
  "int32 x = (x + 2147483648) mod 4294967296 - 2147483648"

definition timestamps_in_range :: "node list \<Rightarrow> bool" where
  "timestamps_in_range node_df =
     (\<forall>r \<in> set node_df. 0 \<le> Timestamp r \<and> Timestamp r < 2147483648)"

text \<open>The exceptions the modelled code raises.\<close>

datatype error = KeyError int | ZeroDivisionError | IndexError | ValueError

section \<open>Link generator\<close>

subsection \<open>Configuration\<close>

record config =
  WALKING_RADIUS :: real
  MAX_WALK_WAIT_TIME :: int
  WALKING_SPEED :: real
  MAX_TRANSFER_TIME :: int
  MIN_TRANSFER_TIME :: int

definition CONFIG :: config where
  "CONFIG = \<lparr>WALKING_RADIUS = 400, MAX_WALK_WAIT_TIME = 3600, WALKING_SPEED = 12 / 10,
     MAX_TRANSFER_TIME = 1800, MIN_TRANSFER_TIME = 120\<rparr>"

text \<open>
  The optional argument \<open>config\<close> of the main function, a dictionary that may hold any
  of the keys, and \<open>CONFIG.update(config)\<close>.
\<close>

record config_arg =
  arg_WALKING_RADIUS :: "real option"
  arg_MAX_WALK_WAIT_TIME :: "int option"
  arg_WALKING_SPEED :: "real option"
  arg_MAX_TRANSFER_TIME :: "int option"
  arg_MIN_TRANSFER_TIME :: "int option"

definition CONFIG_update :: "config \<Rightarrow> config_arg \<Rightarrow> config" where
  "CONFIG_update c a =
     \<lparr>WALKING_RADIUS = (case arg_WALKING_RADIUS a of Some v \<Rightarrow> v | None \<Rightarrow> WALKING_RADIUS c),
      MAX_WALK_WAIT_TIME =
        (case arg_MAX_WALK_WAIT_TIME a of Some v \<Rightarrow> v | None \<Rightarrow> MAX_WALK_WAIT_TIME c),
      WALKING_SPEED = (case arg_WALKING_SPEED a of Some v \<Rightarrow> v | None \<Rightarrow> WALKING_SPEED c),
      MAX_TRANSFER_TIME =
        (case arg_MAX_TRANSFER_TIME a of Some v \<Rightarrow> v | None \<Rightarrow> MAX_TRANSFER_TIME c),
      MIN_TRANSFER_TIME =
        (case arg_MIN_TRANSFER_TIME a of Some v \<Rightarrow> v | None \<Rightarrow> MIN_TRANSFER_TIME c)\<rparr>"

subsection \<open>Geodesy and stop table\<close>

definition radians :: "real \<Rightarrow> real" where
  "radians x = x * pi / 180"

definition haversine_distance :: "real \<Rightarrow> real \<Rightarrow> real \<Rightarrow> real \<Rightarrow> real" where
  "haversine_distance lat1 lon1 lat2 lon2 =
     (let lat1 = radians lat1; lon1 = radians lon1; lat2 = radians lat2; lon2 = radians lon2;
          dlat = lat2 - lat1;
          dlon = lon2 - lon1;
          a = (sin (dlat / 2))\<^sup>2 + cos lat1 * cos lat2 * (sin (dlon / 2))\<^sup>2;
          c = 2 * arcsin (sqrt a);
          r = 6371000
      in c * r)"

text \<open>
  \<open>stop_info\<close> is a dictionary in insertion order: an association list the loader keeps
  free of repeated keys. \<open>stop_routes\<close> is a \<open>defaultdict(set)\<close>: a function whose value
  is the empty set for a stop never added. A route is named by \<open>getroutebyid.RouteId\<close>,
  or by the key of the route in the JSON when that is missing.
\<close>

definition add_stop ::
  "(int + string) \<Rightarrow> stop \<Rightarrow> (int \<times> stop_entry) list \<times> (int \<Rightarrow> (int + string) set)
     \<Rightarrow> (int \<times> stop_entry) list \<times> (int \<Rightarrow> (int + string) set)" where
  "add_stop route_id st acc =
     (let stop_info = fst acc; stop_routes = snd acc;
          stop_id = stop_StopId st;
          stop_info1 =
            (if stop_id \<notin> fst ` set stop_info
             then stop_info @ [(stop_id, \<lparr>Lat = stop_Lat st, Lng = stop_Lng st,
                                           Name = stop_Name st, Routes = {}\<rparr>)]
             else stop_info);
          stop_info2 =
            map (\<lambda>(k, e). if k = stop_id then (k, e\<lparr>Routes := insert route_id (Routes e)\<rparr>)
                           else (k, e)) stop_info1
      in (stop_info2, stop_routes(stop_id := insert route_id (stop_routes stop_id))))"

definition load_stop_info ::
  "(string \<times> route_data) list \<Rightarrow> (int \<times> stop_entry) list \<times> (int \<Rightarrow> (int + string) set)" where
  "load_stop_info data =
     fold (\<lambda>(route_key, route_data) acc.
        let route_id = (case getroutebyid_RouteId route_data of
                          Some i \<Rightarrow> Inl i | None \<Rightarrow> Inr route_key)
        in fold (\<lambda>variant_id acc.
             let stops = (case getstopsbyvar route_data variant_id of
                            Some ss \<Rightarrow> ss | None \<Rightarrow> [])
             in fold (add_stop route_id) stops acc)
           (getvarsbyroute route_data) acc)
       data ([], \<lambda>_. {})"

definition find_stops_within_radius ::
  "int \<Rightarrow> (int \<times> stop_entry) list \<Rightarrow> real \<Rightarrow> error + nearby_stop list" where
  "find_stops_within_radius center_stop_id stop_info radius =
     (case map_of stop_info center_stop_id of
        None \<Rightarrow> Inl (KeyError center_stop_id)
      | Some center \<Rightarrow>
          Inr (fold (\<lambda>(stop_id, st) nearby_stops.
                 if stop_id \<noteq> center_stop_id then
                   (let distance = haversine_distance (Lat center) (Lng center) (Lat st) (Lng st)
                    in if distance \<le> radius
                       then nearby_stops @ [\<lparr>nearby_StopId = stop_id, nearby_Distance = distance,
                                               nearby_Name = Name st\<rparr>]
                       else nearby_stops)
                 else nearby_stops)
               stop_info []))"

subsection \<open>Writing links in chunks\<close>

text \<open>
  The state a builder threads through its loops: the rows already in the output file,
  the buffer \<open>chunk_links\<close> and the counter \<open>link_id\<close> of the next link.
\<close>

record out_state =
  written :: "link list"
  chunk_links :: "link list"
  next_link_id :: int

text \<open>
  The body shared by the four builders: append a row to the buffer, count it, and write
  the buffer to the file once it holds \<open>chunk_size\<close> rows.
\<close>

definition append_link :: "nat \<Rightarrow> string \<Rightarrow> int \<Rightarrow> int \<Rightarrow> int \<Rightarrow> out_state \<Rightarrow> out_state" where
  "append_link chunk_size m f t d s =
     (let chunk = chunk_links s @
            [\<lparr>link_id = next_link_id s, from_node = f, to_node = t, duration = d, mode = m\<rparr>];
          lid = next_link_id s + 1
      in if length chunk \<ge> chunk_size
         then \<lparr>written = written s @ chunk, chunk_links = [], next_link_id = lid\<rparr>
         else \<lparr>written = written s, chunk_links = chunk, next_link_id = lid\<rparr>)"

text \<open>
  The tail of every builder: \<open>if chunk_links: ... to_csv(mode='a')\<close>, then
  \<open>return link_id\<close>. A builder returns the file as it leaves it and that counter.
\<close>

definition write_remaining :: "out_state \<Rightarrow> link list \<times> int" where
  "write_remaining s =
     (if chunk_links s \<noteq> [] then (written s @ chunk_links s, next_link_id s)
      else (written s, next_link_id s))"

text \<open>
  \<open>df.groupby(key)\<close>: one group per distinct key, in ascending key order, each with the
  rows of that key in the order of the frame. \<open>df.sort_values('Timestamp')\<close> orders the
  rows by timestamp; rows with the same timestamp are kept here in the order of the
  frame, which the default sort of pandas does not promise. None of the properties
  proved below for all node tables depends on the order of such rows: they are about
  the set of links a builder appends and about the least timestamp after a departure.
\<close>

definition groupby :: "('r \<Rightarrow> 'k::linorder) \<Rightarrow> 'r list \<Rightarrow> ('k \<times> 'r list) list" where
  "groupby key df =
     map (\<lambda>k. (k, filter (\<lambda>r. key r = k) df)) (sort (remdups (map key df)))"

definition sort_values_Timestamp :: "node list \<Rightarrow> node list" where
  "sort_values_Timestamp df = sort_key Timestamp df"

subsection \<open>The four builders\<close>

text \<open>The file is opened with mode \<open>'w'\<close> for the header: earlier rows are gone.\<close>

definition create_bus_links_to_file :: "node list \<Rightarrow> int \<Rightarrow> link list \<times> int" where
  "create_bus_links_to_file node_df start_link_id =
     (let chunk_size = 10000;
          grouped = groupby (\<lambda>r. (RouteId r, TripId r)) node_df
      in write_remaining
        (fold (\<lambda>(key, trip_nodes0) s.
           let trip_nodes = sort_values_Timestamp trip_nodes0;
               departures = filter (\<lambda>r. Event r = ''DEPARTURE'') trip_nodes;
               arrivals = filter (\<lambda>r. Event r = ''ARRIVAL'') trip_nodes
           in fold (\<lambda>dep s.
                let dep_time = Timestamp dep;
                    dep_node = NodeId dep;
                    next_arrivals = filter (\<lambda>r. Timestamp r > dep_time) arrivals
                in if next_arrivals \<noteq> [] then
                     (let next_arrival = hd next_arrivals;
                          time_diff = int32 (Timestamp next_arrival - dep_time)
                      in if time_diff < 1800
                         then append_link chunk_size ''bus'' dep_node (NodeId next_arrival) time_diff s
                         else s)
                   else s)
              departures s)
         grouped
         \<lparr>written = [], chunk_links = [], next_link_id = start_link_id\<rparr>))"

definition append_wait_links_to_file :: "node list \<Rightarrow> link list \<Rightarrow> int \<Rightarrow> link list \<times> int" where
  "append_wait_links_to_file node_df output_file start_link_id =
     (let chunk_size = 50000;
          grouped = groupby (\<lambda>r. (StopId r, RouteId r)) node_df
      in write_remaining
        (fold (\<lambda>(key, stop_nodes) s.
           let arrivals = sort_values_Timestamp (filter (\<lambda>r. Event r = ''ARRIVAL'') stop_nodes);
               departures = sort_values_Timestamp (filter (\<lambda>r. Event r = ''DEPARTURE'') stop_nodes)
           in fold (\<lambda>arrival s.
                let arr_time = Timestamp arrival;
                    arr_node = NodeId arrival;
                    future_deps = filter (\<lambda>r. Timestamp r > arr_time) departures
                in fold (\<lambda>departure s.
                     let dep_time = Timestamp departure;
                         wait_time = dep_time - arr_time
                     in append_link chunk_size ''wait'' arr_node (NodeId departure) wait_time s)
                   future_deps s)
              arrivals s)
         grouped
         \<lparr>written = output_file, chunk_links = [], next_link_id = start_link_id\<rparr>))"

definition append_transfer_links_to_file ::
  "config \<Rightarrow> node list \<Rightarrow> link list \<Rightarrow> int \<Rightarrow> int \<Rightarrow> link list \<times> int" where
  "append_transfer_links_to_file cfg node_df output_file start_link_id max_transfer_time =
     (let chunk_size = 50000;
          grouped = groupby StopId node_df
      in write_remaining
        (fold (\<lambda>(stop_id, stop_nodes) s.
           let arrivals = sort_values_Timestamp (filter (\<lambda>r. Event r = ''ARRIVAL'') stop_nodes);
               departures = sort_values_Timestamp (filter (\<lambda>r. Event r = ''DEPARTURE'') stop_nodes)
           in fold (\<lambda>arrival s.
                let arr_time = Timestamp arrival;
                    arr_node = NodeId arrival;
                    arr_route = RouteId arrival;
                    other_route_deps =
                      filter (\<lambda>r. RouteId r \<noteq> arr_route \<and> Timestamp r > arr_time \<and>
                                   int32 (Timestamp r - arr_time) \<le> max_transfer_time)
                        departures
                in fold (\<lambda>departure s.
                     let transfer_time = Timestamp departure - arr_time
                     in if transfer_time \<ge> MIN_TRANSFER_TIME cfg
                        then append_link chunk_size ''transfer'' arr_node (NodeId departure)
                               transfer_time s
                        else s)
                   other_route_deps s)
              arrivals s)
         grouped
         \<lparr>written = output_file, chunk_links = [], next_link_id = start_link_id\<rparr>))"

text \<open>
  The walk builder can raise: \<open>stop_info[center_stop_id]\<close> on a stop the JSON does not
  have, and the division by \<open>WALKING_SPEED\<close>. An exception leaves the file with the rows
  written so far; the rows still in the buffer are lost. \<open>Inl\<close> carries the exception
  and that file.
\<close>

fun walk_nearby ::
  "config \<Rightarrow> (int \<Rightarrow> (int + string) set) \<Rightarrow> (int \<rightharpoonup> node list) \<Rightarrow> int \<Rightarrow> node
     \<Rightarrow> nearby_stop list \<Rightarrow> out_state \<Rightarrow> (error \<times> link list) + out_state" where
  "walk_nearby cfg stop_routes departures_by_stop max_walk_wait_time arrival [] s = Inr s"
| "walk_nearby cfg stop_routes departures_by_stop max_walk_wait_time arrival (nearby # rest) s =
     (let arr_stop = StopId arrival;
          arr_time = Timestamp arrival;
          arr_node = NodeId arrival;
          nearby_stop_id = nearby_StopId nearby;
          walk_distance = nearby_Distance nearby
      in if WALKING_SPEED cfg = 0 then Inl (ZeroDivisionError, written s)
         else
           (let walk_time = walk_distance / WALKING_SPEED cfg;
                arr_routes = stop_routes arr_stop;
                nearby_routes = stop_routes nearby_stop_id
            in if arr_routes \<inter> nearby_routes \<noteq> {}
               then walk_nearby cfg stop_routes departures_by_stop max_walk_wait_time arrival rest s
               else
                 (case departures_by_stop nearby_stop_id of
                    None \<Rightarrow>
                      walk_nearby cfg stop_routes departures_by_stop max_walk_wait_time arrival rest s
                  | Some nearby_deps \<Rightarrow>
                      (let earliest_dep_time = real_of_int arr_time + walk_time;
                           valid_deps =
                             filter (\<lambda>r. real_of_int (Timestamp r) \<ge> earliest_dep_time \<and>
                                          int32 (Timestamp r - arr_time) \<le> max_walk_wait_time)
                               nearby_deps
                       in walk_nearby cfg stop_routes departures_by_stop max_walk_wait_time arrival
                            rest
                            (fold (\<lambda>departure s.
                                let total_time = Timestamp departure - arr_time
                                in append_link 50000 ''walk'' arr_node (NodeId departure)
                                     total_time s)
                              valid_deps s)))))"

fun walk_arrivals ::
  "config \<Rightarrow> (int \<times> stop_entry) list \<Rightarrow> (int \<Rightarrow> (int + string) set) \<Rightarrow> (int \<rightharpoonup> node list)
     \<Rightarrow> real \<Rightarrow> int \<Rightarrow> node list \<Rightarrow> out_state \<Rightarrow> (error \<times> link list) + out_state" where
  "walk_arrivals cfg stop_info stop_routes departures_by_stop walking_radius max_walk_wait_time
     [] s = Inr s"
| "walk_arrivals cfg stop_info stop_routes departures_by_stop walking_radius max_walk_wait_time
     (arrival # rest) s =
     (case find_stops_within_radius (StopId arrival) stop_info walking_radius of
        Inl e \<Rightarrow> Inl (e, written s)
      | Inr nearby_stops \<Rightarrow>
          (case walk_nearby cfg stop_routes departures_by_stop max_walk_wait_time arrival
                  nearby_stops s of
             Inl e \<Rightarrow> Inl e
           | Inr s' \<Rightarrow>
               walk_arrivals cfg stop_info stop_routes departures_by_stop walking_radius
                 max_walk_wait_time rest s'))"

definition append_walk_links_to_file ::
  "config \<Rightarrow> node list \<Rightarrow> (int \<times> stop_entry) list \<Rightarrow> (int \<Rightarrow> (int + string) set) \<Rightarrow> link list
     \<Rightarrow> int \<Rightarrow> real \<Rightarrow> int \<Rightarrow> (error \<times> link list) + (link list \<times> int)" where
  "append_walk_links_to_file cfg node_df stop_info stop_routes output_file start_link_id
     walking_radius max_walk_wait_time =
     (let arrivals = filter (\<lambda>r. Event r = ''ARRIVAL'') node_df;
          all_departures = filter (\<lambda>r. Event r = ''DEPARTURE'') node_df;
          departures_by_stop =
            map_of (map (\<lambda>stop_id.
                      (stop_id, sort_values_Timestamp
                                  (filter (\<lambda>r. StopId r = stop_id) all_departures)))
                    (remdups (map StopId all_departures)))
      in case walk_arrivals cfg stop_info stop_routes departures_by_stop walking_radius
                max_walk_wait_time arrivals
                \<lparr>written = output_file, chunk_links = [], next_link_id = start_link_id\<rparr> of
           Inl e \<Rightarrow> Inl e
         | Inr s \<Rightarrow> Inr (write_remaining s))"

subsection \<open>Main function\<close>

text \<open>
  \<open>create_link_table_memory_optimized\<close>: the node table and the bus JSON as read, the
  optional \<open>config\<close>. It returns the output file and \<open>total_links\<close>, or the exception
  with the file as it was left; \<open>main\<close> catches that exception, prints it and exits with
  status 1. Nothing here reads \<open>config.py\<close> or calls its \<open>validate_config\<close>.
\<close>

definition create_link_table_memory_optimized ::
  "node list \<Rightarrow> (string \<times> route_data) list \<Rightarrow> config_arg option
     \<Rightarrow> (error \<times> link list) + (link list \<times> int)" where
  "create_link_table_memory_optimized node_df bus_json config =
     (let cfg = (case config of Some c \<Rightarrow> CONFIG_update CONFIG c | None \<Rightarrow> CONFIG);
          info = load_stop_info bus_json;
          stop_info = fst info;
          stop_routes = snd info;
          bus = create_bus_links_to_file node_df 1;
          wait = append_wait_links_to_file node_df (fst bus) (snd bus);
          transfer = append_transfer_links_to_file cfg node_df (fst wait) (snd wait)
                       (MAX_TRANSFER_TIME cfg)
      in case append_walk_links_to_file cfg node_df stop_info stop_routes (fst transfer)
                (snd transfer) (WALKING_RADIUS cfg) (MAX_WALK_WAIT_TIME cfg) of
           Inl e \<Rightarrow> Inl e
         | Inr (output_file, final_link_id) \<Rightarrow> Inr (output_file, final_link_id - 1))"

section \<open>Node generator\<close>

subsection \<open>Parameters\<close>

definition WAITING_TIME :: int where
  "WAITING_TIME = 30"

text \<open>The table of dwell times by bus type is empty in the source: every entry is commented out.\<close>

definition WAITING_TIME_BY_TYPE :: "string \<rightharpoonup> int" where
  "WAITING_TIME_BY_TYPE = Map.empty"

definition SKIP_INVALID_TRIPS :: bool where
  "SKIP_INVALID_TRIPS = True"

definition MIN_AVG_SPEED :: real where
  "MIN_AVG_SPEED = 1"

text \<open>
  The first lines of \<open>process_route_variant\<close>: the bus type is \<open>getroutebyid.Type\<close>, or
  \<open>'Unknown'\<close>, and the dwell is \<open>WAITING_TIME_BY_TYPE.get(bus_type, WAITING_TIME)\<close>.
\<close>

definition bus_type_of :: "string option \<Rightarrow> string" where
  "bus_type_of route_type = (case route_type of Some t \<Rightarrow> t | None \<Rightarrow> ''Unknown'')"

definition waiting_time_of :: "string \<Rightarrow> int" where
  "waiting_time_of bus_type =
     (case WAITING_TIME_BY_TYPE bus_type of Some w \<Rightarrow> w | None \<Rightarrow> WAITING_TIME)"

subsection \<open>Reading and writing times\<close>

text \<open>
  \<open>str.strip()\<close> and \<open>int()\<close> on text of code points below 256: the white space of
  Python (the ASCII white space, the separators \<open>0x1C\<close> to \<open>0x1F\<close>, \<open>0x85\<close> and
  \<open>0xA0\<close>), an optional sign, digits that single underscores may separate.
\<close>

definition is_space :: "char \<Rightarrow> bool" where
  "is_space c =
     (let n = (of_char c :: nat)
      in (9 \<le> n \<and> n \<le> 13) \<or> (28 \<le> n \<and> n \<le> 32) \<or> n = 133 \<or> n = 160)"

definition strip :: "string \<Rightarrow> string" where
  "strip s = rev (dropWhile is_space (rev (dropWhile is_space s)))"

fun split_on :: "char \<Rightarrow> string \<Rightarrow> string list" where
  "split_on c [] = [[]]"
| "split_on c (x # xs) =
     (if x = c then [] # split_on c xs
      else (case split_on c xs of p # ps \<Rightarrow> (x # p) # ps | [] \<Rightarrow> [[x]]))"

definition digit_val :: "char \<Rightarrow> nat option" where
  "digit_val c = (let n = (of_char c :: nat) in if 48 \<le> n \<and> n \<le> 57 then Some (n - 48) else None)"

fun parse_digits :: "nat \<Rightarrow> string \<Rightarrow> nat option" where
  "parse_digits acc [] = Some acc"
| "parse_digits acc [c] = (case digit_val c of Some v \<Rightarrow> Some (10 * acc + v) | None \<Rightarrow> None)"
| "parse_digits acc (c # d # ds) =
     (if c = CHR ''_'' then
        (case digit_val d of Some v \<Rightarrow> parse_digits (10 * acc + v) ds | None \<Rightarrow> None)
      else (case digit_val c of Some v \<Rightarrow> parse_digits (10 * acc + v) (d # ds) | None \<Rightarrow> None))"

definition parse_unsigned :: "string \<Rightarrow> nat option" where
  "parse_unsigned s =
     (case s of [] \<Rightarrow> None
      | c # cs \<Rightarrow> (case digit_val c of Some v \<Rightarrow> parse_digits v cs | None \<Rightarrow> None))"

definition py_int :: "string \<Rightarrow> int option" where
  "py_int s =
     (case strip s of
        [] \<Rightarrow> None
      | c # cs \<Rightarrow>
          if c = CHR ''-'' then map_option (\<lambda>n. - int n) (parse_unsigned cs)
          else if c = CHR ''+'' then map_option int (parse_unsigned cs)
          else map_option int (parse_unsigned (c # cs)))"

text \<open>
  \<open>parse_time_to_seconds\<close>: \<open>None\<close> for a missing or empty string, for anything but two
  parts around one colon, for a part \<open>int()\<close> refuses (the \<open>except\<close> clause) and for
  hours or minutes out of range.
\<close>

definition parse_time_to_seconds :: "string option \<Rightarrow> bool \<Rightarrow> int option" where
  "parse_time_to_seconds time_str is_next_day =
     (case time_str of
        None \<Rightarrow> None
      | Some str \<Rightarrow>
          if str = [] then None
          else
            (let parts = split_on CHR '':'' (strip str)
             in if length parts \<noteq> 2 then None
                else
                  (case py_int (parts ! 0) of
                     None \<Rightarrow> None
                   | Some hours \<Rightarrow>
                       (case py_int (parts ! 1) of
                          None \<Rightarrow> None
                        | Some minutes \<Rightarrow>
                            if hours < 0 \<or> hours > 23 \<or> minutes < 0 \<or> minutes > 59 then None
                            else
                              (let seconds = hours * 3600 + minutes * 60
                               in Some (if is_next_day then seconds + 24 * 3600 else seconds))))))"

text \<open>Decimal digits of a number, and the format \<open>02d\<close> of a number that is not negative.\<close>

fun show_nat :: "nat \<Rightarrow> string" where
  "show_nat n =
     (if n < 10 then [''0123456789'' ! n]
      else show_nat (n div 10) @ [''0123456789'' ! (n mod 10)])"

declare show_nat.simps [simp del]

definition show_int :: "int \<Rightarrow> string" where
  "show_int i = (if i < 0 then ''-'' @ show_nat (nat (- i)) else show_nat (nat i))"

definition format_02d :: "int \<Rightarrow> string" where
  "format_02d i = (if 0 \<le> i \<and> i < 10 then ''0'' @ show_int i else show_int i)"

definition seconds_to_time :: "int \<Rightarrow> string" where
  "seconds_to_time seconds =
     (if seconds < 0 then ''00:00:00''
      else
        (let days = seconds div (24 * 3600);
             remaining_seconds = seconds mod (24 * 3600);
             hours = remaining_seconds div 3600;
             minutes = (remaining_seconds mod 3600) div 60;
             secs = remaining_seconds mod 60
         in if days > 0
            then format_02d hours @ '':'' @ format_02d minutes @ '':'' @ format_02d secs @
                 ''+'' @ show_int days @ ''d''
            else format_02d hours @ '':'' @ format_02d minutes @ '':'' @ format_02d secs))"

text \<open>\<open>round(x)\<close> of Python 3: to the nearest integer, a tie to the even one.\<close>

definition py_round :: "real \<Rightarrow> int" where
  "py_round x =
     (let f = \<lfloor>x\<rfloor>; r = x - of_int f
      in if r < 1 / 2 then f else if r > 1 / 2 then f + 1 else if even f then f else f + 1)"

subsection \<open>Floating-point arithmetic\<close>

text \<open>
  A Python float is an IEEE 754 binary64 number, and \<open>+\<close>, \<open>-\<close>, \<open>*\<close> and \<open>/\<close> on floats
  give the exact result rounded to the nearest such number, a tie to the one with the
  even significand: \<open>double\<close>. A number \<open>x\<close> with \<open>2^k \<le> |x| < 2^(k+1)\<close> (\<open>k\<close> is
  \<open>binade x\<close>, computed with the bit length of an integer) is rounded to a multiple of
  \<open>2^(k-52)\<close>, and to a multiple of \<open>2^(-1074)\<close> below the normal range. Results beyond
  the largest float are not modelled: the times of a trip are far below it. An integer
  operand is converted first, exactly so below \<open>2^53\<close>.
\<close>

fun bit_length :: "nat \<Rightarrow> nat" where
  "bit_length n = (if n = 0 then 0 else Suc (bit_length (n div 2)))"

declare bit_length.simps [simp del]

definition binade :: "real \<Rightarrow> int" where
  "binade x =
     (if 1 \<le> \<bar>x\<bar> then int (bit_length (nat \<lfloor>\<bar>x\<bar>\<rfloor>)) - 1
      else - int (bit_length (nat (\<lceil>1 / \<bar>x\<bar>\<rceil> - 1))))"

definition double :: "real \<Rightarrow> real" where
  "double x =
     (if x = 0 then 0
      else
        (let e = max (binade x - 52) (- 1074)
         in real_of_int (py_round (x / 2 powi e)) * 2 powi e))"

subsection \<open>Expanding a trip\<close>

text \<open>
  The dictionary appended to \<open>nodes\<close> for one event; \<open>Attributes\<close> is
  \<open>json.dumps([route_id, stop_id, timestamp, event])\<close>.
\<close>

definition make_node :: "int \<Rightarrow> int \<Rightarrow> string \<Rightarrow> int \<Rightarrow> int \<Rightarrow> stop \<Rightarrow> real \<Rightarrow> string \<Rightarrow> node" where
  "make_node global_node_id route_id route_no variant_id trip_id st current_time event =
     \<lparr>NodeId = global_node_id,
      RouteId = route_id,
      RouteNo = route_no,
      RouteVarId = variant_id,
      TripId = trip_id,
      StopId = stop_StopId st,
      Timestamp = py_round current_time,
      Event = event,
      Time = seconds_to_time (py_round current_time),
      StopName = stop_Name st,
      Attributes = ''['' @ show_int route_id @ '', '' @ show_int (stop_StopId st) @ '', '' @
                   show_int (py_round current_time) @ '', '' @
                   [CHR 0x22] @ event @ [CHR 0x22] @ '']''\<rparr>"

text \<open>
  The loop \<open>for i, stop in enumerate(stops)\<close> of a variant that is no loop, from index
  \<open>i\<close> on: \<open>n\<close> is \<open>len(stops)\<close>. It returns the nodes appended and the next node id.
  The time \<open>current_time\<close> is a float from the first addition on; every division and
  addition rounds.
\<close>

fun emit_stops ::
  "int \<Rightarrow> real list \<Rightarrow> real \<Rightarrow> int \<Rightarrow> string \<Rightarrow> int \<Rightarrow> int \<Rightarrow> nat \<Rightarrow> nat \<Rightarrow> stop list \<Rightarrow> real \<Rightarrow> int
     \<Rightarrow> node list \<times> int" where
  "emit_stops waiting_time stop_distances avg_speed route_id route_no variant_id trip_id n i []
     current_time global_node_id = ([], global_node_id)"
| "emit_stops waiting_time stop_distances avg_speed route_id route_no variant_id trip_id n i
     (st # rest) current_time global_node_id =
     (if i = 0 then
        (let departure = make_node global_node_id route_id route_no variant_id trip_id st
                           current_time ''DEPARTURE'';
             more = emit_stops waiting_time stop_distances avg_speed route_id route_no variant_id
                      trip_id n (i + 1) rest current_time (global_node_id + 1)
         in (departure # fst more, snd more))
      else
        (let distance_from_previous = stop_distances ! (i - 1);
             travel_time = double (distance_from_previous / avg_speed);
             current_time = double (current_time + travel_time);
             arrival = make_node global_node_id route_id route_no variant_id trip_id st
                         current_time ''ARRIVAL'';
             global_node_id = global_node_id + 1
         in if int i < int n - 1 then
              (let current_time = double (current_time + real_of_int waiting_time);
                   departure = make_node global_node_id route_id route_no variant_id trip_id st
                                 current_time ''DEPARTURE'';
                   more = emit_stops waiting_time stop_distances avg_speed route_id route_no
                            variant_id trip_id n (i + 1) rest current_time (global_node_id + 1)
               in (arrival # departure # fst more, snd more))
            else
              (let more = emit_stops waiting_time stop_distances avg_speed route_id route_no
                            variant_id trip_id n (i + 1) rest current_time global_node_id
               in (arrival # fst more, snd more))))"

text \<open>
  A variant is a loop when it has exactly two stops with the same coordinates
  (\<open>is_loop_route\<close>, computed once per variant).
\<close>

definition detect_loop_route :: "stop list \<Rightarrow> bool" where
  "detect_loop_route stops =
     (length stops = 2 \<and> stop_Lat (stops ! 0) = stop_Lat (stops ! 1) \<and>
      stop_Lng (stops ! 0) = stop_Lng (stops ! 1))"

text \<open>
  The body of the loop over the trips of a timetable, from the computation of the
  travelling time on: \<open>stops\<close>, \<open>is_loop_route\<close>, \<open>stop_distances\<close> and \<open>total_distance\<close>
  are what \<open>process_route_variant\<close> computed for the variant before the loop. The result
  says whether the trip counted as valid, and gives the nodes appended and the next
  node id; a skipped trip appends nothing. The average speed is the float quotient, and
  the literal \<open>22.2\<close> is the float nearest to \<open>222 / 10\<close>.
\<close>

definition expand_trip ::
  "int \<Rightarrow> stop list \<Rightarrow> bool \<Rightarrow> real list \<Rightarrow> real \<Rightarrow> int \<Rightarrow> string \<Rightarrow> int \<Rightarrow> int \<Rightarrow> int \<Rightarrow> int \<Rightarrow> int
     \<Rightarrow> error + (bool \<times> node list \<times> int)" where
  "expand_trip waiting_time stops is_loop_route stop_distances total_distance route_id route_no
     variant_id trip_id global_node_id start_seconds end_seconds =
     (let total_waiting_time = (int (length stops) - 1) * waiting_time;
          traveling_time = end_seconds - start_seconds - total_waiting_time
      in if traveling_time \<le> 0 then
           (if \<not> SKIP_INVALID_TRIPS then Inl ValueError else Inr (False, [], global_node_id))
         else
           (let avg_speed = double (total_distance / real_of_int traveling_time)
            in if avg_speed < MIN_AVG_SPEED then Inr (False, [], global_node_id)
               else if avg_speed > double (222 / 10) then Inr (False, [], global_node_id)
               else
                 (let current_time = real_of_int start_seconds
                  in if is_loop_route then
                       (case stops of
                          s0 # s1 # _ \<Rightarrow>
                            Inr (True,
                                 [make_node global_node_id route_id route_no variant_id trip_id s0
                                    current_time ''DEPARTURE'',
                                  make_node (global_node_id + 1) route_id route_no variant_id
                                    trip_id s1 (real_of_int end_seconds) ''ARRIVAL''],
                                 global_node_id + 2)
                        | _ \<Rightarrow> Inl IndexError)
                     else
                       (let emitted = emit_stops waiting_time stop_distances avg_speed route_id
                                        route_no variant_id trip_id (length stops) 0 stops
                                        current_time global_node_id
                        in Inr (True, fst emitted, snd emitted)))))"

text \<open>
  The overnight check: \<open>end_seconds\<close> is replaced by the next-day reading of the end time
  when that reading is truthy (neither \<open>None\<close> nor 0).
\<close>

definition overnight_end_seconds :: "trip \<Rightarrow> int \<Rightarrow> int \<Rightarrow> int" where
  "overnight_end_seconds tr start_seconds end_seconds =
     (if end_seconds \<le> start_seconds then
        (case parse_time_to_seconds (trip_EndTime tr) True of
           Some end_seconds_next_day \<Rightarrow>
             if end_seconds_next_day \<noteq> 0 then end_seconds_next_day else end_seconds
         | None \<Rightarrow> end_seconds)
      else end_seconds)"

definition process_trip ::
  "int \<Rightarrow> stop list \<Rightarrow> bool \<Rightarrow> real list \<Rightarrow> real \<Rightarrow> int \<Rightarrow> string \<Rightarrow> int \<Rightarrow> trip \<Rightarrow> int
     \<Rightarrow> error + (bool \<times> node list \<times> int)" where
  "process_trip waiting_time stops is_loop_route stop_distances total_distance route_id route_no
     variant_id tr global_node_id =
     (case parse_time_to_seconds (trip_StartTime tr) False of
        None \<Rightarrow> (if \<not> SKIP_INVALID_TRIPS then Inl ValueError else Inr (False, [], global_node_id))
      | Some start_seconds \<Rightarrow>
          (case parse_time_to_seconds (trip_EndTime tr) False of
             None \<Rightarrow>
               (if \<not> SKIP_INVALID_TRIPS then Inl ValueError else Inr (False, [], global_node_id))
           | Some end_seconds \<Rightarrow>
               expand_trip waiting_time stops is_loop_route stop_distances total_distance route_id
                 route_no variant_id (trip_TripId tr) global_node_id start_seconds
                 (overnight_end_seconds tr start_seconds end_seconds)))"

section \<open>Scenarios\<close>

text \<open>
  The single-trip line of the specification: one route, one variant with the stops A, B
  and C, a dwell of 30 s and one trip from 07:00 to 07:10. With two segments of equal
  length the trip expander gives the four events below (lemma
  \<open>single_trip_nodes_generated\<close>).
\<close>

definition stop_A :: stop where
  "stop_A = \<lparr>stop_StopId = 1, stop_Lat = 10, stop_Lng = 106, stop_Name = ''A''\<rparr>"

definition stop_B :: stop where
  "stop_B = \<lparr>stop_StopId = 2, stop_Lat = 10, stop_Lng = 10601 / 100, stop_Name = ''B''\<rparr>"

definition stop_C :: stop where
  "stop_C = \<lparr>stop_StopId = 3, stop_Lat = 10, stop_Lng = 10602 / 100, stop_Name = ''C''\<rparr>"

definition single_trip :: trip where
  "single_trip = \<lparr>trip_TripId = 1, trip_StartTime = Some ''07:00'', trip_EndTime = Some ''07:10''\<rparr>"

definition single_trip_nodes :: "node list" where
  "single_trip_nodes =
     [make_node 1 1 ''01'' 1 1 stop_A 25200 ''DEPARTURE'',
      make_node 2 1 ''01'' 1 1 stop_B 25470 ''ARRIVAL'',
      make_node 3 1 ''01'' 1 1 stop_B 25500 ''DEPARTURE'',
      make_node 4 1 ''01'' 1 1 stop_C 25770 ''ARRIVAL'']"

text \<open>
  The same trip on a variant whose first segment has length zero (A and B at the same
  place): the arrival at B shares its timestamp with the departure from A.
\<close>

definition zero_segment_nodes :: "node list" where
  "zero_segment_nodes =
     [make_node 1 1 ''01'' 1 1 stop_A 25200 ''DEPARTURE'',
      make_node 2 1 ''01'' 1 1 stop_B 25200 ''ARRIVAL'',
      make_node 3 1 ''01'' 1 1 stop_B 25230 ''DEPARTURE'',
      make_node 4 1 ''01'' 1 1 stop_C 25770 ''ARRIVAL'']"

text \<open>
  A trip from 00:00 to 00:08 on the same stops, with segments of 4.5 m and 535.5 m: a
  travelling time of 420 s for 540 m. In exact arithmetic the bus is at B after 3.5 s;
  the float quotient \<open>4.5 / (540 / 420)\<close> is \<open>3.4999999999999996\<close>, which is rounded to
  3, and the float sum of it and the dwell is \<open>33.5\<close>, which is rounded to 34 (lemma
  \<open>midnight_trip_nodes_generated\<close>).
\<close>

definition midnight_trip :: trip where
  "midnight_trip = \<lparr>trip_TripId = 2, trip_StartTime = Some ''00:00'', trip_EndTime = Some ''00:08''\<rparr>"

definition midnight_trip_nodes :: "node list" where
  "midnight_trip_nodes =
     [make_node 1 1 ''01'' 1 2 stop_A 0 ''DEPARTURE'',
      make_node 2 1 ''01'' 1 2 stop_B 3 ''ARRIVAL'',
      make_node 3 1 ''01'' 1 2 stop_B 34 ''DEPARTURE'',
      make_node 4 1 ''01'' 1 2 stop_C 450 ''ARRIVAL'']"

text \<open>
  A transfer pair: at stop 5 a bus of route 3 arrives at 28000 and a bus of route 4
  leaves at 28120, that is \<open>MIN_TRANSFER_TIME\<close> later.
\<close>

definition stop_S :: stop where
  "stop_S = \<lparr>stop_StopId = 5, stop_Lat = 10, stop_Lng = 106, stop_Name = ''S''\<rparr>"

definition transfer_pair_nodes :: "node list" where
  "transfer_pair_nodes =
     [make_node 5 3 ''03'' 3 7 stop_S 28000 ''ARRIVAL'',
      make_node 6 4 ''04'' 4 8 stop_S 28120 ''DEPARTURE'']"

text \<open>
  Two stops with different ids at the same coordinates (A and S above), served by
  different routes: a bus of route 1 arrives at A at 1000 and a bus of route 3 leaves S
  at 1000.
\<close>

definition colocated_nodes :: "node list" where
  "colocated_nodes =
     [make_node 1 1 ''01'' 1 1 stop_A 1000 ''ARRIVAL'',
      make_node 2 3 ''03'' 3 7 stop_S 1000 ''DEPARTURE'']"

definition colocated_json :: "(string \<times> route_data) list" where
  "colocated_json =
     [(''1'', \<lparr>getroutebyid_RouteId = Some 1, getvarsbyroute = [1],
               getstopsbyvar = [1 \<mapsto> [stop_A]]\<rparr>),
      (''3'', \<lparr>getroutebyid_RouteId = Some 3, getvarsbyroute = [3],
               getstopsbyvar = [3 \<mapsto> [stop_S]]\<rparr>)]"

text \<open>
  The single trip and the transfer pair in one node table, with a bus JSON in which
  route 1 has lost stop B.
\<close>

definition two_line_nodes :: "node list" where
  "two_line_nodes = single_trip_nodes @ transfer_pair_nodes"

definition json_without_B :: "(string \<times> route_data) list" where
  "json_without_B =
     [(''1'', \<lparr>getroutebyid_RouteId = Some 1, getvarsbyroute = [1],
               getstopsbyvar = [1 \<mapsto> [stop_A, stop_C]]\<rparr>),
      (''3'', \<lparr>getroutebyid_RouteId = Some 3, getvarsbyroute = [3],
               getstopsbyvar = [3 \<mapsto> [stop_S]]\<rparr>),
      (''4'', \<lparr>getroutebyid_RouteId = Some 4, getvarsbyroute = [4],
               getstopsbyvar = [4 \<mapsto> [stop_S]]\<rparr>)]"

text \<open>
  Node tables with two timestamps \<open>2147484000\<close> s apart, more than a 32-bit difference
  holds: a trip that leaves A at \<open>-2147483000\<close> and arrives at B at 1000; the transfer
  pair and the two stops at the same coordinates with the arrival at \<open>-2147483000\<close> and
  the departure at 1000.
\<close>

definition far_apart_trip_nodes :: "node list" where
  "far_apart_trip_nodes =
     [make_node 1 1 ''01'' 1 1 stop_A (- 2147483000) ''DEPARTURE'',
      make_node 2 1 ''01'' 1 1 stop_B 1000 ''ARRIVAL'']"

definition far_apart_transfer_nodes :: "node list" where
  "far_apart_transfer_nodes =
     [make_node 5 3 ''03'' 3 7 stop_S (- 2147483000) ''ARRIVAL'',
      make_node 6 4 ''04'' 4 8 stop_S 1000 ''DEPARTURE'']"

definition far_apart_walk_nodes :: "node list" where
  "far_apart_walk_nodes =
     [make_node 1 1 ''01'' 1 1 stop_A (- 2147483000) ''ARRIVAL'',
      make_node 2 3 ''03'' 3 7 stop_S 1000 ''DEPARTURE'']"

text \<open>
  The bus JSON of the transfer pair alone, and three configurations that
  \<open>validate_config\<close> of \<open>config.py\<close> refuses.
\<close>

definition transfer_pair_json :: "(string \<times> route_data) list" where
  "transfer_pair_json =
     [(''3'', \<lparr>getroutebyid_RouteId = Some 3, getvarsbyroute = [3],
               getstopsbyvar = [3 \<mapsto> [stop_S]]\<rparr>),
      (''4'', \<lparr>getroutebyid_RouteId = Some 4, getvarsbyroute = [4],
               getstopsbyvar = [4 \<mapsto> [stop_S]]\<rparr>)]"

definition no_override :: config_arg where
  "no_override = \<lparr>arg_WALKING_RADIUS = None, arg_MAX_WALK_WAIT_TIME = None,
     arg_WALKING_SPEED = None, arg_MAX_TRANSFER_TIME = None, arg_MIN_TRANSFER_TIME = None\<rparr>"

definition config_max_below_min :: config_arg where
  "config_max_below_min = no_override\<lparr>arg_MAX_TRANSFER_TIME := Some 60\<rparr>"

definition config_radius_not_positive :: config_arg where
  "config_radius_not_positive = no_override\<lparr>arg_WALKING_RADIUS := Some 0\<rparr>"

definition config_speed_not_positive :: config_arg where
  "config_speed_not_positive = no_override\<lparr>arg_WALKING_SPEED := Some (- 1)\<rparr>"

text \<open>
  An overnight trip, from 22:30 to 01:30, on a loop variant (two stops at the same
  coordinates) of length 21540 m.
\<close>

definition overnight_trip :: trip where
  "overnight_trip = \<lparr>trip_TripId = 9, trip_StartTime = Some ''22:30'', trip_EndTime = Some ''01:30''\<rparr>"

text \<open>
  The events of a trip in the order of the node table (the order in which the trip
  expander emits them), and the arrival that follows an event in such a sequence: the
  reading of "the next ARRIVAL of that trip" by position.
\<close>

definition trip_event_sequence :: "node list \<Rightarrow> int \<Rightarrow> int \<Rightarrow> node list" where
  "trip_event_sequence node_df route_id trip_id =
     filter (\<lambda>r. RouteId r = route_id \<and> TripId r = trip_id) node_df"

definition next_arrival_in_sequence :: "node list \<Rightarrow> node \<Rightarrow> node option" where
  "next_arrival_in_sequence events dep =
     find (\<lambda>r. Event r = ''ARRIVAL'') (tl (dropWhile (\<lambda>r. r \<noteq> dep) events))"

section \<open>The builders as lists of links\<close>

text \<open>
  What a builder appends, without the numbering and the buffering: a list of triples
  (from node, to node, duration). The lemmas below show that each builder leaves the
  file with the earlier rows followed by these triples, numbered from \<open>start_link_id\<close>.
\<close>

definition emit_all :: "nat \<Rightarrow> string \<Rightarrow> (int \<times> int \<times> int) list \<Rightarrow> out_state \<Rightarrow> out_state" where
  "emit_all cs m ps s = fold (\<lambda>(f, t, d). append_link cs m f t d) ps s"

fun number_links :: "string \<Rightarrow> int \<Rightarrow> (int \<times> int \<times> int) list \<Rightarrow> link list" where
  "number_links m i [] = []"
| "number_links m i ((f, t, d) # ps) =
     \<lparr>link_id = i, from_node = f, to_node = t, duration = d, mode = m\<rparr> # number_links m (i + 1) ps"

definition all_rows :: "out_state \<Rightarrow> link list" where
  "all_rows s = written s @ chunk_links s"

definition payload :: "link \<Rightarrow> int \<times> int \<times> int" where
  "payload l = (from_node l, to_node l, duration l)"

definition bus_dep_links :: "node list \<Rightarrow> node \<Rightarrow> (int \<times> int \<times> int) list" where
  "bus_dep_links arrivals dep =
     (let next_arrivals = filter (\<lambda>r. Timestamp r > Timestamp dep) arrivals
      in if next_arrivals \<noteq> [] \<and> int32 (Timestamp (hd next_arrivals) - Timestamp dep) < 1800
         then [(NodeId dep, NodeId (hd next_arrivals),
                int32 (Timestamp (hd next_arrivals) - Timestamp dep))]
         else [])"

definition bus_trip_links :: "node list \<Rightarrow> (int \<times> int \<times> int) list" where
  "bus_trip_links trip_nodes0 =
     (let trip_nodes = sort_values_Timestamp trip_nodes0;
          departures = filter (\<lambda>r. Event r = ''DEPARTURE'') trip_nodes;
          arrivals = filter (\<lambda>r. Event r = ''ARRIVAL'') trip_nodes
      in concat (map (bus_dep_links arrivals) departures))"

definition bus_links :: "node list \<Rightarrow> (int \<times> int \<times> int) list" where
  "bus_links node_df =
     concat (map (\<lambda>(key, trip_nodes). bus_trip_links trip_nodes)
       (groupby (\<lambda>r. (RouteId r, TripId r)) node_df))"

definition wait_group_links :: "node list \<Rightarrow> (int \<times> int \<times> int) list" where
  "wait_group_links stop_nodes =
     (let arrivals = sort_values_Timestamp (filter (\<lambda>r. Event r = ''ARRIVAL'') stop_nodes);
          departures = sort_values_Timestamp (filter (\<lambda>r. Event r = ''DEPARTURE'') stop_nodes)
      in concat (map (\<lambda>arrival.
           map (\<lambda>departure. (NodeId arrival, NodeId departure, Timestamp departure - Timestamp arrival))
             (filter (\<lambda>r. Timestamp r > Timestamp arrival) departures)) arrivals))"

definition wait_links :: "node list \<Rightarrow> (int \<times> int \<times> int) list" where
  "wait_links node_df =
     concat (map (\<lambda>(key, stop_nodes). wait_group_links stop_nodes)
       (groupby (\<lambda>r. (StopId r, RouteId r)) node_df))"

definition transfer_arrival_links :: "config \<Rightarrow> int \<Rightarrow> node list \<Rightarrow> node \<Rightarrow> (int \<times> int \<times> int) list" where
  "transfer_arrival_links cfg max_transfer_time departures arrival =
     map (\<lambda>departure. (NodeId arrival, NodeId departure, Timestamp departure - Timestamp arrival))
       (filter (\<lambda>r. Timestamp r - Timestamp arrival \<ge> MIN_TRANSFER_TIME cfg)
          (filter (\<lambda>r. RouteId r \<noteq> RouteId arrival \<and> Timestamp r > Timestamp arrival \<and>
                       int32 (Timestamp r - Timestamp arrival) \<le> max_transfer_time)
             departures))"

definition transfer_group_links :: "config \<Rightarrow> int \<Rightarrow> node list \<Rightarrow> (int \<times> int \<times> int) list" where
  "transfer_group_links cfg max_transfer_time stop_nodes =
     (let arrivals = sort_values_Timestamp (filter (\<lambda>r. Event r = ''ARRIVAL'') stop_nodes);
          departures = sort_values_Timestamp (filter (\<lambda>r. Event r = ''DEPARTURE'') stop_nodes)
      in concat (map (transfer_arrival_links cfg max_transfer_time departures) arrivals))"

definition transfer_links :: "config \<Rightarrow> int \<Rightarrow> node list \<Rightarrow> (int \<times> int \<times> int) list" where
  "transfer_links cfg max_transfer_time node_df =
     concat (map (\<lambda>(stop_id, stop_nodes). transfer_group_links cfg max_transfer_time stop_nodes)
       (groupby StopId node_df))"

text \<open>The same for the walk builder, whose loops can stop at an exception.\<close>

definition departures_by_stop_of :: "node list \<Rightarrow> int \<rightharpoonup> node list" where
  "departures_by_stop_of node_df =
     map_of (map (\<lambda>stop_id.
               (stop_id, sort_values_Timestamp
                           (filter (\<lambda>r. StopId r = stop_id)
                              (filter (\<lambda>r. Event r = ''DEPARTURE'') node_df))))
             (remdups (map StopId (filter (\<lambda>r. Event r = ''DEPARTURE'') node_df))))"

definition nearby_of :: "(int \<times> stop_entry) list \<Rightarrow> stop_entry \<Rightarrow> int \<Rightarrow> real \<Rightarrow> nearby_stop list" where
  "nearby_of stop_info center center_stop_id radius =
     map (\<lambda>(stop_id, st).
            \<lparr>nearby_StopId = stop_id,
             nearby_Distance = haversine_distance (Lat center) (Lng center) (Lat st) (Lng st),
             nearby_Name = Name st\<rparr>)
       (filter (\<lambda>(stop_id, st). stop_id \<noteq> center_stop_id \<and>
                  haversine_distance (Lat center) (Lng center) (Lat st) (Lng st) \<le> radius)
          stop_info)"

definition walk_nearby_links ::
  "config \<Rightarrow> (int \<Rightarrow> (int + string) set) \<Rightarrow> (int \<rightharpoonup> node list) \<Rightarrow> int \<Rightarrow> node \<Rightarrow> nearby_stop
     \<Rightarrow> (int \<times> int \<times> int) list" where
  "walk_nearby_links cfg stop_routes departures_by_stop max_walk_wait_time arrival nearby =
     (if stop_routes (StopId arrival) \<inter> stop_routes (nearby_StopId nearby) \<noteq> {} then []
      else
        (case departures_by_stop (nearby_StopId nearby) of
           None \<Rightarrow> []
         | Some nearby_deps \<Rightarrow>
             map (\<lambda>departure.
                    (NodeId arrival, NodeId departure, Timestamp departure - Timestamp arrival))
               (filter (\<lambda>r. real_of_int (Timestamp r) \<ge>
                              real_of_int (Timestamp arrival) +
                                nearby_Distance nearby / WALKING_SPEED cfg \<and>
                            int32 (Timestamp r - Timestamp arrival) \<le> max_walk_wait_time)
                  nearby_deps)))"

definition walk_arrival_links ::
  "config \<Rightarrow> (int \<times> stop_entry) list \<Rightarrow> (int \<Rightarrow> (int + string) set) \<Rightarrow> (int \<rightharpoonup> node list) \<Rightarrow> real
     \<Rightarrow> int \<Rightarrow> node \<Rightarrow> (int \<times> int \<times> int) list" where
  "walk_arrival_links cfg stop_info stop_routes departures_by_stop walking_radius
     max_walk_wait_time arrival =
     (case map_of stop_info (StopId arrival) of
        None \<Rightarrow> []
      | Some center \<Rightarrow>
          concat (map (walk_nearby_links cfg stop_routes departures_by_stop max_walk_wait_time
                         arrival)
                    (nearby_of stop_info center (StopId arrival) walking_radius)))"

definition walk_links ::
  "config \<Rightarrow> (int \<times> stop_entry) list \<Rightarrow> (int \<Rightarrow> (int + string) set) \<Rightarrow> real \<Rightarrow> int \<Rightarrow> node list
     \<Rightarrow> (int \<times> int \<times> int) list" where
  "walk_links cfg stop_info stop_routes walking_radius max_walk_wait_time node_df =
     concat (map (walk_arrival_links cfg stop_info stop_routes (departures_by_stop_of node_df)
                    walking_radius max_walk_wait_time)
               (filter (\<lambda>r. Event r = ''ARRIVAL'') node_df))"

text \<open>
  The stops of the bus JSON that \<open>load_stop_info\<close> visits, the configuration in force
  after \<open>CONFIG.update(config)\<close>, and the file as the first three builders leave it.
\<close>

definition json_stop_ids :: "(string \<times> route_data) list \<Rightarrow> int set" where
  "json_stop_ids bus_json =
     {stop_StopId st | route_key rd variant_id stops st.
        (route_key, rd) \<in> set bus_json \<and> variant_id \<in> set (getvarsbyroute rd) \<and>
        getstopsbyvar rd variant_id = Some stops \<and> st \<in> set stops}"

definition effective_config :: "config_arg option \<Rightarrow> config" where
  "effective_config config = (case config of Some c \<Rightarrow> CONFIG_update CONFIG c | None \<Rightarrow> CONFIG)"

definition file_before_walk :: "config \<Rightarrow> node list \<Rightarrow> link list \<times> int" where
  "file_before_walk cfg node_df =
     (let bus = create_bus_links_to_file node_df 1;
          wait = append_wait_links_to_file node_df (fst bus) (snd bus)
      in append_transfer_links_to_file cfg node_df (fst wait) (snd wait) (MAX_TRANSFER_TIME cfg))"

definition output_file_of :: "(error \<times> link list) + (link list \<times> int) \<Rightarrow> link list" where
  "output_file_of r = (case r of Inl (e, f) \<Rightarrow> f | Inr (f, n) \<Rightarrow> f)"

text \<open>The two inner loops of \<open>load_stop_info\<close>, named.\<close>

definition add_variant ::
  "(int + string) \<Rightarrow> route_data \<Rightarrow> int \<Rightarrow> (int \<times> stop_entry) list \<times> (int \<Rightarrow> (int + string) set)
     \<Rightarrow> (int \<times> stop_entry) list \<times> (int \<Rightarrow> (int + string) set)" where
  "add_variant route_id rd =
     (\<lambda>variant_id acc.
        let stops = (case getstopsbyvar rd variant_id of Some ss \<Rightarrow> ss | None \<Rightarrow> [])
        in fold (add_stop route_id) stops acc)"

definition add_route ::
  "string \<times> route_data \<Rightarrow> (int \<times> stop_entry) list \<times> (int \<Rightarrow> (int + string) set)
     \<Rightarrow> (int \<times> stop_entry) list \<times> (int \<Rightarrow> (int + string) set)" where
  "add_route =
     (\<lambda>(route_key, route_data) acc.
        let route_id = (case getroutebyid_RouteId route_data of
                          Some i \<Rightarrow> Inl i | None \<Rightarrow> Inr route_key)
        in fold (add_variant route_id route_data) (getvarsbyroute route_data) acc)"

text \<open>
  The events of a trip after the departure from the first stop, against the stops after
  the first: every stop but the last gives an ARRIVAL and then a DEPARTURE, whose
  timestamps are within one second of \<open>w\<close> seconds apart (for an arrival before
  \<open>2^52\<close> s), and the last stop gives an ARRIVAL only.
\<close>

fun interior_stream :: "int \<Rightarrow> stop list \<Rightarrow> node list \<Rightarrow> bool" where
  "interior_stream w [st] [a] = (Event a = ''ARRIVAL'' \<and> StopId a = stop_StopId st)"
| "interior_stream w (st # st' # rest) (a # d # ns) =
     (Event a = ''ARRIVAL'' \<and> StopId a = stop_StopId st \<and>
      Event d = ''DEPARTURE'' \<and> StopId d = stop_StopId st \<and>
      (\<bar>Timestamp a\<bar> \<le> 2 ^ 52 \<longrightarrow> \<bar>Timestamp d - Timestamp a - w\<bar> \<le> 1) \<and>
      interior_stream w (st' # rest) ns)"
| "interior_stream w _ _ = False"

section \<open>Properties of the link builders\<close>

subsection \<open>The writer\<close>

lemma emit_all_Nil [simp]: "emit_all cs m [] s = s"
  by (simp add: emit_all_def)

lemma emit_all_Cons [simp]:
  "emit_all cs m ((f, t, d) # ps) s = emit_all cs m ps (append_link cs m f t d s)"
  by (simp add: emit_all_def)

lemma emit_all_append: "emit_all cs m (ps @ qs) s = emit_all cs m qs (emit_all cs m ps s)"
  by (simp add: emit_all_def)

lemma append_link_rows:
  "all_rows (append_link cs m f t d s) =
     all_rows s @ [\<lparr>link_id = next_link_id s, from_node = f, to_node = t, duration = d, mode = m\<rparr>]"
  "next_link_id (append_link cs m f t d s) = next_link_id s + 1"
  by (simp_all add: append_link_def all_rows_def Let_def)

lemma append_link_written: "\<exists>extra. written (append_link cs m f t d s) = written s @ extra"
  by (simp add: append_link_def Let_def)

lemma emit_all_rows:
  "all_rows (emit_all cs m ps s) = all_rows s @ number_links m (next_link_id s) ps"
  "next_link_id (emit_all cs m ps s) = next_link_id s + int (length ps)"
proof (induction ps arbitrary: s)
  case Nil
  {
    case 1
    show ?case by simp
  next
    case 2
    show ?case by simp
  }
next
  case (Cons p ps)
  obtain f t d where p: "p = (f, t, d)"
    by (cases p) auto
  {
    case 1
    show ?case
      by (simp add: p Cons.IH(1) append_link_rows)
  next
    case 2
    show ?case
      by (simp add: p Cons.IH(2) append_link_rows)
  }
qed

lemma emit_all_written: "\<exists>extra. written (emit_all cs m ps s) = written s @ extra"
proof (induction ps arbitrary: s)
  case Nil
  show ?case by simp
next
  case (Cons p ps)
  obtain f t d where p: "p = (f, t, d)"
    by (cases p) auto
  obtain e1 where e1: "written (append_link cs m f t d s) = written s @ e1"
    using append_link_written by blast
  obtain e2 where "written (emit_all cs m ps (append_link cs m f t d s)) =
      written (append_link cs m f t d s) @ e2"
    using Cons.IH by blast
  then show ?case
    by (simp add: p e1)
qed

lemma write_remaining_rows: "write_remaining s = (all_rows s, next_link_id s)"
  by (simp add: write_remaining_def all_rows_def)

lemma all_rows_start [simp]:
  "all_rows \<lparr>written = output_file, chunk_links = [], next_link_id = i\<rparr> = output_file"
  by (simp add: all_rows_def)

lemma fold_emit_concat:
  "fold (\<lambda>x s. emit_all cs m (g x) s) xs s = emit_all cs m (concat (map g xs)) s"
  by (induction xs arbitrary: s) (simp_all add: emit_all_append)

lemma fold_append_link_map:
  "fold (\<lambda>x s. append_link cs m (f x) (t x) (d x) s) xs s =
     emit_all cs m (map (\<lambda>x. (f x, t x, d x)) xs) s"
  by (induction xs arbitrary: s) simp_all

lemma fold_append_link_filter:
  "fold (\<lambda>x s. if P x then append_link cs m (f x) (t x) (d x) s else s) xs s =
     emit_all cs m (map (\<lambda>x. (f x, t x, d x)) (filter P xs)) s"
  by (induction xs arbitrary: s) simp_all

lemma payload_number_links [simp]: "map payload (number_links m i ps) = ps"
  by (induction m i ps rule: number_links.induct) (simp_all add: payload_def)

lemma mode_number_links: "l \<in> set (number_links m i ps) \<Longrightarrow> mode l = m"
  by (induction m i ps rule: number_links.induct) auto

lemma link_id_number_links: "map link_id (number_links m i ps) = map (\<lambda>k. i + int k) [0..<length ps]"
proof (induction m i ps rule: number_links.induct)
  case (1 m i)
  show ?case by simp
next
  case (2 m i f t d ps)
  have "map (\<lambda>k. i + int k) [0..<Suc (length ps)] =
      i # map (\<lambda>k. i + 1 + int k) [0..<length ps]"
    by (simp add: upt_conv_Cons map_Suc_upt [symmetric] del: upt_Suc)
  then show ?case
    using 2 by simp
qed

subsection \<open>Each builder appends its list\<close>

lemma fold_bus_dep:
  "fold (\<lambda>dep s.
      if filter (\<lambda>r. Timestamp dep < Timestamp r) arrivals \<noteq> [] then
        if int32 (Timestamp (hd (filter (\<lambda>r. Timestamp dep < Timestamp r) arrivals)) -
                    Timestamp dep) < 1800
        then append_link cs m (NodeId dep)
               (NodeId (hd (filter (\<lambda>r. Timestamp dep < Timestamp r) arrivals)))
               (int32 (Timestamp (hd (filter (\<lambda>r. Timestamp dep < Timestamp r) arrivals)) -
                         Timestamp dep)) s
        else s
      else s) departures s =
   emit_all cs m (concat (map (bus_dep_links arrivals) departures)) s"
  by (induction departures arbitrary: s) (simp_all add: bus_dep_links_def emit_all_append Let_def)

lemma create_bus_links_to_file_eq:
  "create_bus_links_to_file node_df start_link_id =
     (number_links ''bus'' start_link_id (bus_links node_df),
      start_link_id + int (length (bus_links node_df)))"
proof -
  have "create_bus_links_to_file node_df start_link_id =
     write_remaining (emit_all 10000 ''bus'' (bus_links node_df)
        \<lparr>written = [], chunk_links = [], next_link_id = start_link_id\<rparr>)"
    unfolding create_bus_links_to_file_def bus_links_def bus_trip_links_def Let_def
      fold_bus_dep fold_emit_concat case_prod_beta ..
  then show ?thesis
    by (simp add: write_remaining_rows emit_all_rows)
qed

lemma append_wait_links_to_file_eq:
  "append_wait_links_to_file node_df output_file start_link_id =
     (output_file @ number_links ''wait'' start_link_id (wait_links node_df),
      start_link_id + int (length (wait_links node_df)))"
proof -
  have "append_wait_links_to_file node_df output_file start_link_id =
     write_remaining (emit_all 50000 ''wait'' (wait_links node_df)
        \<lparr>written = output_file, chunk_links = [], next_link_id = start_link_id\<rparr>)"
    unfolding append_wait_links_to_file_def wait_links_def wait_group_links_def Let_def
      fold_append_link_map fold_emit_concat case_prod_beta ..
  then show ?thesis
    by (simp add: write_remaining_rows emit_all_rows)
qed

lemma append_transfer_links_to_file_eq:
  "append_transfer_links_to_file cfg node_df output_file start_link_id max_transfer_time =
     (output_file @
        number_links ''transfer'' start_link_id (transfer_links cfg max_transfer_time node_df),
      start_link_id + int (length (transfer_links cfg max_transfer_time node_df)))"
proof -
  have "append_transfer_links_to_file cfg node_df output_file start_link_id max_transfer_time =
     write_remaining (emit_all 50000 ''transfer'' (transfer_links cfg max_transfer_time node_df)
        \<lparr>written = output_file, chunk_links = [], next_link_id = start_link_id\<rparr>)"
    unfolding append_transfer_links_to_file_def transfer_links_def transfer_group_links_def
      transfer_arrival_links_def Let_def fold_append_link_filter fold_emit_concat case_prod_beta ..
  then show ?thesis
    by (simp add: write_remaining_rows emit_all_rows)
qed

subsection \<open>Which links a builder appends\<close>

lemma set_sort_values_Timestamp [simp]: "set (sort_values_Timestamp df) = set df"
  by (simp add: sort_values_Timestamp_def)

lemma sorted_sort_values_Timestamp: "sorted (map Timestamp (sort_values_Timestamp df))"
  by (simp add: sort_values_Timestamp_def)

lemma groupby_set:
  "set (groupby key df) = (\<lambda>k. (k, filter (\<lambda>r. key r = k) df)) ` key ` set df"
  by (simp add: groupby_def image_image)

lemma int32_in_range: "- 2147483648 \<le> x \<Longrightarrow> x < 2147483648 \<Longrightarrow> int32 x = x"
  by (simp add: int32_def)

lemma int32_difference:
  assumes "timestamps_in_range node_df" and "a \<in> set node_df" and "d \<in> set node_df"
  shows "int32 (Timestamp d - Timestamp a) = Timestamp d - Timestamp a"
proof -
  from assms have "0 \<le> Timestamp a" "Timestamp a < 2147483648" "0 \<le> Timestamp d"
    "Timestamp d < 2147483648"
    by (auto simp: timestamps_in_range_def)
  then show ?thesis
    by (intro int32_in_range) linarith+
qed

lemma set_wait_links:
  "set (wait_links node_df) =
     {(NodeId a, NodeId d, Timestamp d - Timestamp a) | a d.
        a \<in> set node_df \<and> d \<in> set node_df \<and> Event a = ''ARRIVAL'' \<and> Event d = ''DEPARTURE'' \<and>
        StopId d = StopId a \<and> RouteId d = RouteId a \<and> Timestamp a < Timestamp d}"
  unfolding wait_links_def wait_group_links_def Let_def
  apply (auto simp: groupby_set)
  subgoal for x a d
    by (rule exI [of _ a], simp, rule exI [of _ d], simp)
  done

lemma set_transfer_links:
  "set (transfer_links cfg max_transfer_time node_df) =
     {(NodeId a, NodeId d, Timestamp d - Timestamp a) | a d.
        a \<in> set node_df \<and> d \<in> set node_df \<and> Event a = ''ARRIVAL'' \<and> Event d = ''DEPARTURE'' \<and>
        StopId d = StopId a \<and> RouteId d \<noteq> RouteId a \<and> Timestamp a < Timestamp d \<and>
        int32 (Timestamp d - Timestamp a) \<le> max_transfer_time \<and>
        MIN_TRANSFER_TIME cfg \<le> Timestamp d - Timestamp a}"
  unfolding transfer_links_def transfer_group_links_def transfer_arrival_links_def Let_def
  apply (auto simp: groupby_set)
  subgoal for x a d
    by (rule exI [of _ a], simp, rule exI [of _ d], simp)
  done

lemma set_transfer_links_in_range:
  assumes "timestamps_in_range node_df"
  shows "set (transfer_links cfg max_transfer_time node_df) =
     {(NodeId a, NodeId d, Timestamp d - Timestamp a) | a d.
        a \<in> set node_df \<and> d \<in> set node_df \<and> Event a = ''ARRIVAL'' \<and> Event d = ''DEPARTURE'' \<and>
        StopId d = StopId a \<and> RouteId d \<noteq> RouteId a \<and> Timestamp a < Timestamp d \<and>
        Timestamp a + MIN_TRANSFER_TIME cfg \<le> Timestamp d \<and>
        Timestamp d \<le> Timestamp a + max_transfer_time}"
  unfolding set_transfer_links
  apply (intro Collect_cong ex_cong1)
  subgoal for p a d
    using int32_difference [OF assms, of a d]
    by (cases "a \<in> set node_df"; cases "d \<in> set node_df"; auto)
  done

lemma hd_filter_sorted_least:
  assumes "sorted (map f xs)" and "filter P xs \<noteq> []" and "y \<in> set xs" and "P y"
  shows "f (hd (filter P xs)) \<le> f y"
proof -
  have s: "sorted (map f (filter P xs))"
    using assms(1) by (rule sorted_filter)
  have y: "y \<in> set (filter P xs)"
    using assms(3,4) by simp
  obtain z zs where zs: "filter P xs = z # zs"
    using assms(2) by (cases "filter P xs") auto
  show ?thesis
    using s y unfolding zs by auto
qed

lemma bus_dep_links_sound:
  assumes "(f, t, d) \<in> set (bus_dep_links arrivals dep)" and "sorted (map Timestamp arrivals)"
  shows "\<exists>arr \<in> set arrivals. f = NodeId dep \<and> t = NodeId arr \<and>
           d = int32 (Timestamp arr - Timestamp dep) \<and> d < 1800 \<and> Timestamp dep < Timestamp arr \<and>
           (\<forall>a' \<in> set arrivals. Timestamp dep < Timestamp a' \<longrightarrow> Timestamp arr \<le> Timestamp a')"
proof -
  let ?next = "filter (\<lambda>r. Timestamp dep < Timestamp r) arrivals"
  from assms(1) have ne: "?next \<noteq> []" and lt: "int32 (Timestamp (hd ?next) - Timestamp dep) < 1800"
    and eq: "f = NodeId dep" "t = NodeId (hd ?next)"
      "d = int32 (Timestamp (hd ?next) - Timestamp dep)"
    by (auto simp: bus_dep_links_def Let_def split: if_splits)
  have mem: "hd ?next \<in> set ?next"
    using ne by (rule hd_in_set)
  then have m1: "hd ?next \<in> set arrivals" and m2: "Timestamp dep < Timestamp (hd ?next)"
    by auto
  have least: "\<forall>a' \<in> set arrivals. Timestamp dep < Timestamp a' \<longrightarrow> Timestamp (hd ?next) \<le> Timestamp a'"
    using hd_filter_sorted_least [OF assms(2) ne] by blast
  show ?thesis
    using m1 m2 least lt eq by blast
qed

lemma bus_links_sound:
  assumes "(f, t, d) \<in> set (bus_links node_df)"
  shows "\<exists>dep \<in> set node_df. \<exists>arr \<in> set node_df.
           f = NodeId dep \<and> t = NodeId arr \<and> Event dep = ''DEPARTURE'' \<and> Event arr = ''ARRIVAL'' \<and>
           RouteId arr = RouteId dep \<and> TripId arr = TripId dep \<and>
           d = int32 (Timestamp arr - Timestamp dep) \<and> d < 1800 \<and> Timestamp dep < Timestamp arr \<and>
           (\<forall>a' \<in> set node_df. Event a' = ''ARRIVAL'' \<and> RouteId a' = RouteId dep \<and>
               TripId a' = TripId dep \<and> Timestamp dep < Timestamp a' \<longrightarrow> Timestamp arr \<le> Timestamp a')"
proof -
  from assms obtain x dep where x: "x \<in> set node_df"
    and dep: "dep \<in> set node_df" "RouteId dep = RouteId x" "TripId dep = TripId x"
       "Event dep = ''DEPARTURE''"
    and l: "(f, t, d) \<in> set (bus_dep_links
        (filter (\<lambda>r. Event r = ''ARRIVAL'')
           (sort_values_Timestamp
              (filter (\<lambda>r. RouteId r = RouteId x \<and> TripId r = TripId x) node_df))) dep)"
    unfolding bus_links_def bus_trip_links_def Let_def
    by (auto simp: groupby_set)
  let ?arrivals = "filter (\<lambda>r. Event r = ''ARRIVAL'')
           (sort_values_Timestamp
              (filter (\<lambda>r. RouteId r = RouteId x \<and> TripId r = TripId x) node_df))"
  have "sorted (map Timestamp ?arrivals)"
    by (rule sorted_filter) (rule sorted_sort_values_Timestamp)
  from bus_dep_links_sound [OF l this] obtain arr where arr: "arr \<in> set ?arrivals"
    and props: "f = NodeId dep" "t = NodeId arr" "d = int32 (Timestamp arr - Timestamp dep)"
      "d < 1800"
      "Timestamp dep < Timestamp arr"
    and least: "\<forall>a' \<in> set ?arrivals. Timestamp dep < Timestamp a' \<longrightarrow> Timestamp arr \<le> Timestamp a'"
    by blast
  from arr have a1: "arr \<in> set node_df" "Event arr = ''ARRIVAL''" "RouteId arr = RouteId dep"
    "TripId arr = TripId dep"
    using dep(2,3) by auto
  have "\<forall>a' \<in> set node_df. Event a' = ''ARRIVAL'' \<and> RouteId a' = RouteId dep \<and>
               TripId a' = TripId dep \<and> Timestamp dep < Timestamp a' \<longrightarrow> Timestamp arr \<le> Timestamp a'"
    using least dep(2,3) by auto
  then show ?thesis
    using dep(1,4) a1 props by blast
qed


lemma bus_links_sound_in_range:
  assumes "(f, t, d) \<in> set (bus_links node_df)" and "timestamps_in_range node_df"
  shows "\<exists>dep \<in> set node_df. \<exists>arr \<in> set node_df.
           f = NodeId dep \<and> t = NodeId arr \<and> Event dep = ''DEPARTURE'' \<and> Event arr = ''ARRIVAL'' \<and>
           RouteId arr = RouteId dep \<and> TripId arr = TripId dep \<and>
           d = Timestamp arr - Timestamp dep \<and> d < 1800 \<and> Timestamp dep < Timestamp arr \<and>
           (\<forall>a' \<in> set node_df. Event a' = ''ARRIVAL'' \<and> RouteId a' = RouteId dep \<and>
               TripId a' = TripId dep \<and> Timestamp dep < Timestamp a' \<longrightarrow> Timestamp arr \<le> Timestamp a')"
proof -
  from bus_links_sound [OF assms(1)] obtain dep arr where m: "dep \<in> set node_df" "arr \<in> set node_df"
    and p: "f = NodeId dep" "t = NodeId arr" "Event dep = ''DEPARTURE''" "Event arr = ''ARRIVAL''"
      "RouteId arr = RouteId dep" "TripId arr = TripId dep"
      "d = int32 (Timestamp arr - Timestamp dep)" "d < 1800" "Timestamp dep < Timestamp arr"
    and least: "\<forall>a' \<in> set node_df. Event a' = ''ARRIVAL'' \<and> RouteId a' = RouteId dep \<and>
               TripId a' = TripId dep \<and> Timestamp dep < Timestamp a' \<longrightarrow> Timestamp arr \<le> Timestamp a'"
    by blast
  from int32_difference [OF assms(2) m] p(7) have "d = Timestamp arr - Timestamp dep"
    by simp
  with m p least show ?thesis
    by blast
qed
subsection \<open>The walk builder\<close>

lemma find_stops_fold:
  "fold (\<lambda>(stop_id, st) nearby_stops.
           if stop_id \<noteq> center_stop_id then
             (let distance = haversine_distance (Lat center) (Lng center) (Lat st) (Lng st)
              in if distance \<le> radius
                 then nearby_stops @ [\<lparr>nearby_StopId = stop_id, nearby_Distance = distance,
                                         nearby_Name = Name st\<rparr>]
                 else nearby_stops)
           else nearby_stops)
     stop_info acc = acc @ nearby_of stop_info center center_stop_id radius"
  by (induction stop_info arbitrary: acc) (simp_all add: nearby_of_def Let_def case_prod_beta)

lemma find_stops_within_radius_eq:
  "find_stops_within_radius center_stop_id stop_info radius =
     (case map_of stop_info center_stop_id of
        None \<Rightarrow> Inl (KeyError center_stop_id)
      | Some center \<Rightarrow> Inr (nearby_of stop_info center center_stop_id radius))"
  by (simp add: find_stops_within_radius_def find_stops_fold split: option.splits)

lemma walk_nearby_eq:
  "walk_nearby cfg stop_routes dbs mw arrival ns s =
     (if WALKING_SPEED cfg = 0 \<and> ns \<noteq> [] then Inl (ZeroDivisionError, written s)
      else Inr (emit_all 50000 ''walk''
                  (concat (map (walk_nearby_links cfg stop_routes dbs mw arrival) ns)) s))"
proof (induction ns arbitrary: s)
  case Nil
  show ?case by simp
next
  case (Cons n ns)
  show ?case
  proof (cases "WALKING_SPEED cfg = 0")
    case True
    then show ?thesis by simp
  next
    case False
    then show ?thesis
      by (simp add: Cons.IH Let_def walk_nearby_links_def emit_all_append fold_append_link_map
          split: option.splits)
  qed
qed

lemma walk_arrivals_Inr:
  assumes "walk_arrivals cfg stop_info stop_routes dbs radius mw arrivals s = Inr s'"
  shows "s' = emit_all 50000 ''walk''
                (concat (map (walk_arrival_links cfg stop_info stop_routes dbs radius mw) arrivals)) s
         \<and> (\<forall>a \<in> set arrivals. StopId a \<in> dom (map_of stop_info))"
  using assms
proof (induction arrivals arbitrary: s)
  case Nil
  then show ?case by simp
next
  case (Cons a arrivals)
  from Cons.prems obtain center where c: "map_of stop_info (StopId a) = Some center"
    by (auto simp: find_stops_within_radius_eq split: option.splits)
  let ?ns = "nearby_of stop_info center (StopId a) radius"
  let ?s1 = "emit_all 50000 ''walk'' (concat (map (walk_nearby_links cfg stop_routes dbs mw a) ?ns)) s"
  from Cons.prems c have ok: "\<not> (WALKING_SPEED cfg = 0 \<and> ?ns \<noteq> [])"
    and rest: "walk_arrivals cfg stop_info stop_routes dbs radius mw arrivals ?s1 = Inr s'"
    by (auto simp: find_stops_within_radius_eq walk_nearby_eq split: if_splits)
  from Cons.IH [OF rest] show ?case
    using c by (auto simp: walk_arrival_links_def emit_all_append)
qed

lemma walk_arrivals_Inl:
  assumes "walk_arrivals cfg stop_info stop_routes dbs radius mw arrivals s = Inl (e, f)"
  shows "(\<exists>extra. f = written s @ extra) \<and>
         ((e = ZeroDivisionError \<and> WALKING_SPEED cfg = 0) \<or>
          (\<exists>a \<in> set arrivals. e = KeyError (StopId a) \<and> StopId a \<notin> dom (map_of stop_info)))"
  using assms
proof (induction arrivals arbitrary: s)
  case Nil
  then show ?case by simp
next
  case (Cons a arrivals)
  show ?case
  proof (cases "map_of stop_info (StopId a)")
    case None
    with Cons.prems show ?thesis
      by (auto simp: find_stops_within_radius_eq)
  next
    case (Some center)
    let ?ns = "nearby_of stop_info center (StopId a) radius"
    let ?s1 = "emit_all 50000 ''walk'' (concat (map (walk_nearby_links cfg stop_routes dbs mw a) ?ns)) s"
    show ?thesis
    proof (cases "WALKING_SPEED cfg = 0 \<and> ?ns \<noteq> []")
      case True
      with Cons.prems Some show ?thesis
        by (auto simp: find_stops_within_radius_eq walk_nearby_eq)
    next
      case False
      with Cons.prems Some
      have rest: "walk_arrivals cfg stop_info stop_routes dbs radius mw arrivals ?s1 = Inl (e, f)"
        by (auto simp: find_stops_within_radius_eq walk_nearby_eq split: if_splits)
      obtain x where x: "written ?s1 = written s @ x"
        using emit_all_written by blast
      from Cons.IH [OF rest] show ?thesis
        using x by auto
    qed
  qed
qed

lemma walk_arrivals_missing_stop:
  assumes "a \<in> set arrivals" and "StopId a \<notin> dom (map_of stop_info)"
  shows "\<exists>e f. walk_arrivals cfg stop_info stop_routes dbs radius mw arrivals s = Inl (e, f)"
proof (cases "walk_arrivals cfg stop_info stop_routes dbs radius mw arrivals s")
  case (Inl p)
  then show ?thesis by (cases p) auto
next
  case (Inr s')
  from walk_arrivals_Inr [OF Inr] assms show ?thesis
    by blast
qed

lemma walk_arrivals_total:
  assumes "\<forall>a \<in> set arrivals. StopId a \<in> dom (map_of stop_info)" and "WALKING_SPEED cfg \<noteq> 0"
  shows "\<exists>s'. walk_arrivals cfg stop_info stop_routes dbs radius mw arrivals s = Inr s'"
proof (cases "walk_arrivals cfg stop_info stop_routes dbs radius mw arrivals s")
  case (Inl p)
  obtain e f where "p = (e, f)" by (cases p) auto
  with Inl walk_arrivals_Inl [of cfg stop_info stop_routes dbs radius mw arrivals s e f] assms
  show ?thesis by auto
next
  case (Inr s')
  then show ?thesis by blast
qed

lemma append_walk_links_to_file_eq:
  "append_walk_links_to_file cfg node_df stop_info stop_routes output_file start_link_id
     walking_radius max_walk_wait_time =
     (case walk_arrivals cfg stop_info stop_routes (departures_by_stop_of node_df) walking_radius
             max_walk_wait_time (filter (\<lambda>r. Event r = ''ARRIVAL'') node_df)
             \<lparr>written = output_file, chunk_links = [], next_link_id = start_link_id\<rparr> of
        Inl e \<Rightarrow> Inl e
      | Inr s \<Rightarrow> Inr (write_remaining s))"
  by (simp add: append_walk_links_to_file_def departures_by_stop_of_def Let_def)

lemma append_walk_links_to_file_Inr:
  assumes "append_walk_links_to_file cfg node_df stop_info stop_routes output_file start_link_id
     walking_radius max_walk_wait_time = Inr (output_file', link_id')"
  shows "output_file' = output_file @ number_links ''walk'' start_link_id
           (walk_links cfg stop_info stop_routes walking_radius max_walk_wait_time node_df)"
    and "link_id' = start_link_id + int (length
           (walk_links cfg stop_info stop_routes walking_radius max_walk_wait_time node_df))"
    and "\<forall>a \<in> set node_df. Event a = ''ARRIVAL'' \<longrightarrow> StopId a \<in> dom (map_of stop_info)"
proof -
  from assms obtain s where s: "walk_arrivals cfg stop_info stop_routes
      (departures_by_stop_of node_df) walking_radius max_walk_wait_time
      (filter (\<lambda>r. Event r = ''ARRIVAL'') node_df)
      \<lparr>written = output_file, chunk_links = [], next_link_id = start_link_id\<rparr> = Inr s"
    and w: "write_remaining s = (output_file', link_id')"
    by (auto simp: append_walk_links_to_file_eq split: sum.splits)
  note r = walk_arrivals_Inr [OF s]
  from r have s_eq: "s = emit_all 50000 ''walk''
      (walk_links cfg stop_info stop_routes walking_radius max_walk_wait_time node_df)
      \<lparr>written = output_file, chunk_links = [], next_link_id = start_link_id\<rparr>"
    by (simp add: walk_links_def)
  from w show "output_file' = output_file @ number_links ''walk'' start_link_id
           (walk_links cfg stop_info stop_routes walking_radius max_walk_wait_time node_df)"
    by (simp add: s_eq write_remaining_rows emit_all_rows)
  from w show "link_id' = start_link_id + int (length
           (walk_links cfg stop_info stop_routes walking_radius max_walk_wait_time node_df))"
    by (simp add: s_eq write_remaining_rows emit_all_rows)
  from r show "\<forall>a \<in> set node_df. Event a = ''ARRIVAL'' \<longrightarrow> StopId a \<in> dom (map_of stop_info)"
    by auto
qed

lemma append_walk_links_to_file_Inl:
  assumes "append_walk_links_to_file cfg node_df stop_info stop_routes output_file start_link_id
     walking_radius max_walk_wait_time = Inl (e, f)"
  shows "(\<exists>extra. f = output_file @ extra) \<and>
         ((e = ZeroDivisionError \<and> WALKING_SPEED cfg = 0) \<or>
          (\<exists>a \<in> set node_df. Event a = ''ARRIVAL'' \<and> e = KeyError (StopId a) \<and>
              StopId a \<notin> dom (map_of stop_info)))"
proof -
  from assms have "walk_arrivals cfg stop_info stop_routes
      (departures_by_stop_of node_df) walking_radius max_walk_wait_time
      (filter (\<lambda>r. Event r = ''ARRIVAL'') node_df)
      \<lparr>written = output_file, chunk_links = [], next_link_id = start_link_id\<rparr> = Inl (e, f)"
    by (auto simp: append_walk_links_to_file_eq split: sum.splits)
  from walk_arrivals_Inl [OF this] show ?thesis
    by auto
qed

lemma append_walk_links_to_file_missing_stop:
  assumes "a \<in> set node_df" and "Event a = ''ARRIVAL''" and "StopId a \<notin> dom (map_of stop_info)"
  shows "\<exists>e f. append_walk_links_to_file cfg node_df stop_info stop_routes output_file
           start_link_id walking_radius max_walk_wait_time = Inl (e, f)"
proof -
  from assms have "a \<in> set (filter (\<lambda>r. Event r = ''ARRIVAL'') node_df)"
    by simp
  from walk_arrivals_missing_stop [OF this assms(3)]
  obtain e f where "walk_arrivals cfg stop_info stop_routes
      (departures_by_stop_of node_df) walking_radius max_walk_wait_time
      (filter (\<lambda>r. Event r = ''ARRIVAL'') node_df)
      \<lparr>written = output_file, chunk_links = [], next_link_id = start_link_id\<rparr> = Inl (e, f)"
    by blast
  then show ?thesis
    by (simp add: append_walk_links_to_file_eq)
qed

lemma append_walk_links_to_file_total:
  assumes "\<forall>a \<in> set node_df. Event a = ''ARRIVAL'' \<longrightarrow> StopId a \<in> dom (map_of stop_info)"
    and "WALKING_SPEED cfg \<noteq> 0"
  shows "\<exists>r. append_walk_links_to_file cfg node_df stop_info stop_routes output_file
           start_link_id walking_radius max_walk_wait_time = Inr r"
proof -
  from assms(1) have "\<forall>a \<in> set (filter (\<lambda>r. Event r = ''ARRIVAL'') node_df).
      StopId a \<in> dom (map_of stop_info)"
    by simp
  from walk_arrivals_total [OF this assms(2)]
  obtain s' where "walk_arrivals cfg stop_info stop_routes
      (departures_by_stop_of node_df) walking_radius max_walk_wait_time
      (filter (\<lambda>r. Event r = ''ARRIVAL'') node_df)
      \<lparr>written = output_file, chunk_links = [], next_link_id = start_link_id\<rparr> = Inr s'"
    by blast
  then show ?thesis
    by (simp add: append_walk_links_to_file_eq)
qed

lemma departures_by_stop_of_eq:
  "departures_by_stop_of node_df b =
     (if \<exists>d \<in> set node_df. Event d = ''DEPARTURE'' \<and> StopId d = b
      then Some (sort_values_Timestamp
                   (filter (\<lambda>r. StopId r = b) (filter (\<lambda>r. Event r = ''DEPARTURE'') node_df)))
      else None)"
  unfolding departures_by_stop_of_def map_of_map_restrict
  by (auto simp: restrict_map_def image_iff)

lemma set_walk_nearby_links:
  "set (walk_nearby_links cfg stop_routes (departures_by_stop_of node_df) mw arrival nearby) =
     {(NodeId arrival, NodeId d, Timestamp d - Timestamp arrival) | d.
        stop_routes (StopId arrival) \<inter> stop_routes (nearby_StopId nearby) = {} \<and>
        d \<in> set node_df \<and> Event d = ''DEPARTURE'' \<and> StopId d = nearby_StopId nearby \<and>
        real_of_int (Timestamp arrival) + nearby_Distance nearby / WALKING_SPEED cfg
          \<le> real_of_int (Timestamp d) \<and>
        int32 (Timestamp d - Timestamp arrival) \<le> mw}"
  by (auto simp: walk_nearby_links_def departures_by_stop_of_eq)

lemma set_walk_links:
  "set (walk_links cfg stop_info stop_routes walking_radius mw node_df) =
     {(NodeId a, NodeId d, Timestamp d - Timestamp a) | a d center b st.
        a \<in> set node_df \<and> Event a = ''ARRIVAL'' \<and>
        map_of stop_info (StopId a) = Some center \<and>
        (b, st) \<in> set stop_info \<and> b \<noteq> StopId a \<and>
        haversine_distance (Lat center) (Lng center) (Lat st) (Lng st) \<le> walking_radius \<and>
        stop_routes (StopId a) \<inter> stop_routes b = {} \<and>
        d \<in> set node_df \<and> Event d = ''DEPARTURE'' \<and> StopId d = b \<and>
        real_of_int (Timestamp a) +
          haversine_distance (Lat center) (Lng center) (Lat st) (Lng st) / WALKING_SPEED cfg
          \<le> real_of_int (Timestamp d) \<and>
        int32 (Timestamp d - Timestamp a) \<le> mw}"
  (is "?L = ?R")
proof (intro set_eqI iffI)
  fix p
  assume "p \<in> ?L"
  then obtain a where a: "a \<in> set node_df" "Event a = ''ARRIVAL''"
    and pa: "p \<in> set (walk_arrival_links cfg stop_info stop_routes (departures_by_stop_of node_df)
               walking_radius mw a)"
    by (auto simp: walk_links_def)
  from pa obtain center where c: "map_of stop_info (StopId a) = Some center"
    by (cases "map_of stop_info (StopId a)") (auto simp: walk_arrival_links_def)
  from pa c obtain n where n: "n \<in> set (nearby_of stop_info center (StopId a) walking_radius)"
    and p: "p \<in> set (walk_nearby_links cfg stop_routes (departures_by_stop_of node_df) mw a n)"
    by (auto simp: walk_arrival_links_def)
  from n obtain b st where b: "(b, st) \<in> set stop_info" "b \<noteq> StopId a"
    "haversine_distance (Lat center) (Lng center) (Lat st) (Lng st) \<le> walking_radius"
    and n_eq: "nearby_StopId n = b"
      "nearby_Distance n = haversine_distance (Lat center) (Lng center) (Lat st) (Lng st)"
    by (auto simp: nearby_of_def)
  from p obtain d where d: "p = (NodeId a, NodeId d, Timestamp d - Timestamp a)"
    "stop_routes (StopId a) \<inter> stop_routes b = {}"
    "d \<in> set node_df" "Event d = ''DEPARTURE''" "StopId d = b"
    "real_of_int (Timestamp a) +
       haversine_distance (Lat center) (Lng center) (Lat st) (Lng st) / WALKING_SPEED cfg
       \<le> real_of_int (Timestamp d)"
    "int32 (Timestamp d - Timestamp a) \<le> mw"
    unfolding set_walk_nearby_links n_eq by blast
  show "p \<in> ?R"
    using a c b d by blast
next
  fix p
  assume "p \<in> ?R"
  then obtain a d center b st where a: "a \<in> set node_df" "Event a = ''ARRIVAL''"
    and c: "map_of stop_info (StopId a) = Some center"
    and b: "(b, st) \<in> set stop_info" "b \<noteq> StopId a"
      "haversine_distance (Lat center) (Lng center) (Lat st) (Lng st) \<le> walking_radius"
    and d: "p = (NodeId a, NodeId d, Timestamp d - Timestamp a)"
      "stop_routes (StopId a) \<inter> stop_routes b = {}"
      "d \<in> set node_df" "Event d = ''DEPARTURE''" "StopId d = b"
      "real_of_int (Timestamp a) +
         haversine_distance (Lat center) (Lng center) (Lat st) (Lng st) / WALKING_SPEED cfg
         \<le> real_of_int (Timestamp d)"
      "int32 (Timestamp d - Timestamp a) \<le> mw"
    by blast
  let ?n = "\<lparr>nearby_StopId = b,
             nearby_Distance = haversine_distance (Lat center) (Lng center) (Lat st) (Lng st),
             nearby_Name = Name st\<rparr>"
  have n: "?n \<in> set (nearby_of stop_info center (StopId a) walking_radius)"
    using b by (force simp: nearby_of_def)
  have "p \<in> set (walk_nearby_links cfg stop_routes (departures_by_stop_of node_df) mw a ?n)"
    unfolding set_walk_nearby_links using d by auto
  with n have "p \<in> set (walk_arrival_links cfg stop_info stop_routes
      (departures_by_stop_of node_df) walking_radius mw a)"
    unfolding walk_arrival_links_def c by auto
  then show "p \<in> ?L"
    using a by (auto simp: walk_links_def)
qed


subsection \<open>Distances\<close>

lemma haversine_distance_same [simp]: "haversine_distance lat lon lat lon = 0"
  by (simp add: haversine_distance_def)

lemma haversine_a_bounds:
  fixes p1 :: real and p2 :: real and v :: real
  defines "a \<equiv> (sin ((p2 - p1) / 2))\<^sup>2 + cos p1 * cos p2 * (sin v)\<^sup>2"
  shows "0 \<le> a" and "a \<le> 1"
proof -
  define s where "s = (sin ((p2 - p1) / 2))\<^sup>2"
  define t where "t = (sin v)\<^sup>2"
  define q where "q = cos (p1 + p2)"
  have s: "0 \<le> s" "s \<le> 1" and t: "0 \<le> t" "t \<le> 1" and q: "- 1 \<le> q" "q \<le> 1"
    by (simp_all add: s_def t_def q_def abs_square_le_1 abs_le_iff [symmetric])
  have "cos (p1 - p2) = cos (p2 - p1)"
    using cos_minus [of "p1 - p2"] by simp
  also have "\<dots> = cos (2 * ((p2 - p1) / 2))"
    by (rule arg_cong [where f = cos]) (simp add: field_simps)
  also have "\<dots> = 1 - 2 * s"
    unfolding s_def by (rule cos_double_sin)
  finally have "cos (p1 - p2) = 1 - 2 * s" .
  then have cc: "cos p1 * cos p2 = ((1 - 2 * s) + q) / 2"
    using cos_times_cos [of p1 p2] by (simp add: q_def)
  have a: "a = s * (1 - t) + t * ((1 + q) / 2)"
    unfolding a_def cc s_def [symmetric] t_def [symmetric] by (simp add: field_simps)
  have "0 \<le> s * (1 - t)" "0 \<le> t * ((1 + q) / 2)"
    using s t q by simp_all
  then show "0 \<le> a"
    unfolding a by linarith
  have "s * (1 - t) \<le> 1 * (1 - t)"
    using s t by (intro mult_right_mono) simp_all
  then have u1: "s * (1 - t) \<le> 1 - t"
    by simp
  have "t * ((1 + q) / 2) \<le> t * 1"
    using t q by (intro mult_left_mono) simp_all
  then have u2: "t * ((1 + q) / 2) \<le> t"
    by simp
  show "a \<le> 1"
    unfolding a using u1 u2 by linarith
qed

lemma haversine_distance_nonneg: "0 \<le> haversine_distance lat1 lon1 lat2 lon2"
proof -
  let ?a = "(sin ((radians lat2 - radians lat1) / 2))\<^sup>2 +
            cos (radians lat1) * cos (radians lat2) * (sin ((radians lon2 - radians lon1) / 2))\<^sup>2"
  have "0 \<le> ?a" "?a \<le> 1"
    by (rule haversine_a_bounds)+
  then have "0 \<le> sqrt ?a" "sqrt ?a \<le> 1"
    by (simp_all add: real_le_lsqrt)
  then have "arcsin 0 \<le> arcsin (sqrt ?a)"
    by (intro arcsin_le_arcsin) simp_all
  then show ?thesis
    by (simp add: haversine_distance_def Let_def)
qed

subsection \<open>The stop table and the main function\<close>

lemma add_stop_keys:
  "fst ` set (fst (add_stop route_id st acc)) = insert (stop_StopId st) (fst ` set (fst acc))"
proof -
  have m: "\<And>xs. fst ` set (map (\<lambda>(k, e). if k = stop_StopId st
                then (k, e\<lparr>Routes := insert route_id (Routes e)\<rparr>) else (k, e)) xs) = fst ` set xs"
    by (force simp: image_iff split: prod.splits if_splits)
  show ?thesis
    unfolding add_stop_def Let_def fst_conv m by auto
qed

lemma fold_add_stop_keys:
  "fst ` set (fst (fold (add_stop route_id) stops acc)) =
     fst ` set (fst acc) \<union> stop_StopId ` set stops"
  by (induction stops arbitrary: acc) (auto simp: add_stop_keys)

lemma load_stop_info_fold: "load_stop_info data = fold add_route data ([], \<lambda>_. {})"
  unfolding load_stop_info_def add_route_def add_variant_def ..

lemma add_variant_keys:
  "fst ` set (fst (add_variant route_id rd v acc)) =
     fst ` set (fst acc) \<union>
     {stop_StopId st | stops st. getstopsbyvar rd v = Some stops \<and> st \<in> set stops}"
  by (cases "getstopsbyvar rd v") (auto simp: add_variant_def fold_add_stop_keys)

lemma fold_add_variant_keys:
  "fst ` set (fst (fold (add_variant route_id rd) vs acc)) =
     fst ` set (fst acc) \<union>
     {stop_StopId st | variant_id stops st.
        variant_id \<in> set vs \<and> getstopsbyvar rd variant_id = Some stops \<and> st \<in> set stops}"
proof (induction vs arbitrary: acc)
  case Nil
  show ?case by simp
next
  case (Cons v vs)
  show ?case
    unfolding fold_simps Cons.IH add_variant_keys by auto
qed

lemma add_route_keys:
  "fst ` set (fst (add_route (k, rd) acc)) =
     fst ` set (fst acc) \<union>
     {stop_StopId st | variant_id stops st.
        variant_id \<in> set (getvarsbyroute rd) \<and> getstopsbyvar rd variant_id = Some stops \<and>
        st \<in> set stops}"
  by (simp add: add_route_def fold_add_variant_keys)

lemma json_stop_ids_Cons:
  "json_stop_ids ((k, rd) # data) =
     {stop_StopId st | variant_id stops st.
        variant_id \<in> set (getvarsbyroute rd) \<and> getstopsbyvar rd variant_id = Some stops \<and>
        st \<in> set stops} \<union> json_stop_ids data"
  unfolding json_stop_ids_def
  by (intro set_eqI iffI; clarsimp; blast)

lemma fold_add_route_keys:
  "fst ` set (fst (fold add_route data acc)) = fst ` set (fst acc) \<union> json_stop_ids data"
proof (induction data arbitrary: acc)
  case Nil
  show ?case by (simp add: json_stop_ids_def)
next
  case (Cons r data)
  obtain k rd where r: "r = (k, rd)" by (cases r) auto
  show ?case
    unfolding r fold_simps Cons.IH add_route_keys json_stop_ids_Cons by auto
qed

lemma load_stop_info_keys: "fst ` set (fst (load_stop_info data)) = json_stop_ids data"
  unfolding load_stop_info_fold fold_add_route_keys by simp

lemma dom_stop_info: "dom (map_of (fst (load_stop_info data))) = json_stop_ids data"
  by (simp add: dom_map_of_conv_image_fst load_stop_info_keys)

lemma create_link_table_eq:
  "create_link_table_memory_optimized node_df bus_json config =
     (case append_walk_links_to_file (effective_config config) node_df
             (fst (load_stop_info bus_json)) (snd (load_stop_info bus_json))
             (fst (file_before_walk (effective_config config) node_df))
             (snd (file_before_walk (effective_config config) node_df))
             (WALKING_RADIUS (effective_config config))
             (MAX_WALK_WAIT_TIME (effective_config config)) of
        Inl e \<Rightarrow> Inl e
      | Inr (output_file, final_link_id) \<Rightarrow> Inr (output_file, final_link_id - 1))"
  by (simp add: create_link_table_memory_optimized_def effective_config_def file_before_walk_def
      Let_def)

lemma file_before_walk_eq:
  "file_before_walk cfg node_df =
     (number_links ''bus'' 1 (bus_links node_df) @
      number_links ''wait'' (1 + int (length (bus_links node_df))) (wait_links node_df) @
      number_links ''transfer''
        (1 + int (length (bus_links node_df)) + int (length (wait_links node_df)))
        (transfer_links cfg (MAX_TRANSFER_TIME cfg) node_df),
      1 + int (length (bus_links node_df)) + int (length (wait_links node_df)) +
        int (length (transfer_links cfg (MAX_TRANSFER_TIME cfg) node_df)))"
  by (simp add: file_before_walk_def create_bus_links_to_file_eq append_wait_links_to_file_eq
      append_transfer_links_to_file_eq Let_def)

lemma number_links_member:
  "l \<in> set (number_links m i ps) \<Longrightarrow> mode l = m \<and> payload l \<in> set ps"
  by (induction m i ps rule: number_links.induct) (auto simp: payload_def)

lemma written_subset_all_rows: "set (written s) \<subseteq> set (all_rows s)"
  by (simp add: all_rows_def)

lemma walk_arrivals_Inl_rows:
  assumes "walk_arrivals cfg stop_info stop_routes dbs radius mw arrivals s = Inl (e, f)"
  shows "\<exists>ps. f = written (emit_all 50000 ''walk'' ps s) \<and>
              set ps \<subseteq> set (concat (map (walk_arrival_links cfg stop_info stop_routes dbs
                                              radius mw) arrivals))"
  using assms
proof (induction arrivals arbitrary: s)
  case Nil
  then show ?case by simp
next
  case (Cons a arrivals)
  show ?case
  proof (cases "map_of stop_info (StopId a)")
    case None
    with Cons.prems have "f = written (emit_all 50000 ''walk'' [] s)"
      by (auto simp: find_stops_within_radius_eq)
    then show ?thesis
      by (metis empty_set empty_subsetI)
  next
    case (Some center)
    let ?ns = "nearby_of stop_info center (StopId a) radius"
    let ?qs = "concat (map (walk_nearby_links cfg stop_routes dbs mw a) ?ns)"
    let ?s1 = "emit_all 50000 ''walk'' ?qs s"
    have qs: "walk_arrival_links cfg stop_info stop_routes dbs radius mw a = ?qs"
      by (simp add: walk_arrival_links_def Some)
    show ?thesis
    proof (cases "WALKING_SPEED cfg = 0 \<and> ?ns \<noteq> []")
      case True
      with Cons.prems Some have "f = written (emit_all 50000 ''walk'' [] s)"
        by (auto simp: find_stops_within_radius_eq walk_nearby_eq)
      then show ?thesis
        by (metis empty_set empty_subsetI)
    next
      case False
      with Cons.prems Some
      have rest: "walk_arrivals cfg stop_info stop_routes dbs radius mw arrivals ?s1 = Inl (e, f)"
        by (auto simp: find_stops_within_radius_eq walk_nearby_eq split: if_splits)
      from Cons.IH [OF rest] obtain ps where ps: "f = written (emit_all 50000 ''walk'' ps ?s1)"
        "set ps \<subseteq> set (concat (map (walk_arrival_links cfg stop_info stop_routes dbs
                                              radius mw) arrivals))"
        by blast
      have "f = written (emit_all 50000 ''walk'' (?qs @ ps) s)"
        by (simp add: ps(1) emit_all_append)
      moreover have "set (?qs @ ps) \<subseteq> set (concat (map (walk_arrival_links cfg stop_info
          stop_routes dbs radius mw) (a # arrivals)))"
        using ps(2) by (auto simp: qs)
      ultimately show ?thesis
        by blast
    qed
  qed
qed

lemma append_walk_links_to_file_Inl_rows:
  assumes "append_walk_links_to_file cfg node_df stop_info stop_routes output_file start_link_id
     walking_radius max_walk_wait_time = Inl (e, f)"
  shows "\<exists>ps. set ps \<subseteq> set (walk_links cfg stop_info stop_routes walking_radius
                               max_walk_wait_time node_df) \<and>
              set f \<subseteq> set output_file \<union> set (number_links ''walk'' start_link_id ps)"
proof -
  let ?s0 = "\<lparr>written = output_file, chunk_links = [], next_link_id = start_link_id\<rparr>"
  from assms have "walk_arrivals cfg stop_info stop_routes
      (departures_by_stop_of node_df) walking_radius max_walk_wait_time
      (filter (\<lambda>r. Event r = ''ARRIVAL'') node_df) ?s0 = Inl (e, f)"
    by (auto simp: append_walk_links_to_file_eq split: sum.splits)
  from walk_arrivals_Inl_rows [OF this] obtain ps
    where f: "f = written (emit_all 50000 ''walk'' ps ?s0)"
      and ps: "set ps \<subseteq> set (walk_links cfg stop_info stop_routes walking_radius
                               max_walk_wait_time node_df)"
    unfolding walk_links_def by blast
  have "set f \<subseteq> set (all_rows (emit_all 50000 ''walk'' ps ?s0))"
    unfolding f by (rule written_subset_all_rows)
  also have "\<dots> = set output_file \<union> set (number_links ''walk'' start_link_id ps)"
    by (simp add: emit_all_rows)
  finally show ?thesis
    using ps by blast
qed

lemma append_walk_links_to_file_ok:
  assumes "\<forall>a \<in> set node_df. Event a = ''ARRIVAL'' \<longrightarrow> StopId a \<in> dom (map_of stop_info)"
    and "WALKING_SPEED cfg \<noteq> 0"
  shows "append_walk_links_to_file cfg node_df stop_info stop_routes output_file start_link_id
           walking_radius max_walk_wait_time =
         Inr (output_file @ number_links ''walk'' start_link_id
                (walk_links cfg stop_info stop_routes walking_radius max_walk_wait_time node_df),
              start_link_id + int (length
                (walk_links cfg stop_info stop_routes walking_radius max_walk_wait_time node_df)))"
proof -
  from append_walk_links_to_file_total [OF assms] obtain r
    where r: "append_walk_links_to_file cfg node_df stop_info stop_routes output_file
           start_link_id walking_radius max_walk_wait_time = Inr r"
    by blast
  obtain f' n' where "r = (f', n')"
    by (cases r) auto
  with r append_walk_links_to_file_Inr(1,2) [of cfg node_df stop_info stop_routes output_file
      start_link_id walking_radius max_walk_wait_time f' n']
  show ?thesis
    by simp
qed

lemma walk_links_duration:
  assumes "(f, t, d) \<in> set (walk_links cfg stop_info stop_routes walking_radius mw node_df)"
    and "0 < WALKING_SPEED cfg"
  shows "0 \<le> d"
proof -
  have nn: "0 \<le> haversine_distance (Lat center) (Lng center) (Lat st) (Lng st) / WALKING_SPEED cfg"
    for center st :: stop_entry
    using haversine_distance_nonneg assms(2) by simp
  from assms(1) show ?thesis
    unfolding set_walk_links
    apply clarsimp
    subgoal for a da center st
      using nn [of center st] by linarith
    done
qed

lemma bus_links_duration:
  assumes "(f, t, d) \<in> set (bus_links node_df)" and "timestamps_in_range node_df"
  shows "0 < d"
proof -
  from bus_links_sound [OF assms(1)] obtain dep arr where m: "dep \<in> set node_df" "arr \<in> set node_df"
    and d: "d = int32 (Timestamp arr - Timestamp dep)" and lt: "Timestamp dep < Timestamp arr"
    by blast
  from int32_difference [OF assms(2) m] d lt show ?thesis
    by simp
qed

lemma wait_links_duration: "(f, t, d) \<in> set (wait_links node_df) \<Longrightarrow> 0 < d"
  unfolding set_wait_links by auto

lemma transfer_links_duration: "(f, t, d) \<in> set (transfer_links cfg mx node_df) \<Longrightarrow> 0 < d"
  unfolding set_transfer_links by auto

lemma file_before_walk_rows:
  assumes "l \<in> set (fst (file_before_walk cfg node_df))"
  shows "(mode l = ''bus'' \<or> mode l = ''wait'' \<or> mode l = ''transfer'') \<and>
         (mode l = ''bus'' \<and> timestamps_in_range node_df \<longrightarrow> 0 < duration l) \<and>
         (mode l \<noteq> ''bus'' \<longrightarrow> 0 < duration l)"
proof -
  from assms consider
      (bus) i where "l \<in> set (number_links ''bus'' i (bus_links node_df))"
    | (wait) i where "l \<in> set (number_links ''wait'' i (wait_links node_df))"
    | (transfer) i where "l \<in> set (number_links ''transfer'' i
          (transfer_links cfg (MAX_TRANSFER_TIME cfg) node_df))"
    unfolding file_before_walk_eq by auto
  then show ?thesis
  proof cases
    case bus
    from number_links_member [OF bus] bus_links_duration [of "from_node l" "to_node l" "duration l" node_df]
    show ?thesis by (auto simp: payload_def)
  next
    case wait
    from number_links_member [OF wait] wait_links_duration [of "from_node l" "to_node l" "duration l" node_df]
    show ?thesis by (simp add: payload_def)
  next
    case transfer
    from number_links_member [OF transfer]
      transfer_links_duration [of "from_node l" "to_node l" "duration l" cfg
        "MAX_TRANSFER_TIME cfg" node_df]
    show ?thesis by (simp add: payload_def)
  qed
qed

lemma create_link_table_rows:
  assumes "l \<in> set (output_file_of (create_link_table_memory_optimized node_df bus_json config))"
  shows "l \<in> set (fst (file_before_walk (effective_config config) node_df)) \<or>
         (\<exists>i ps. l \<in> set (number_links ''walk'' i ps) \<and>
            set ps \<subseteq> set (walk_links (effective_config config) (fst (load_stop_info bus_json))
                             (snd (load_stop_info bus_json))
                             (WALKING_RADIUS (effective_config config))
                             (MAX_WALK_WAIT_TIME (effective_config config)) node_df))"
proof -
  let ?cfg = "effective_config config"
  let ?w = "append_walk_links_to_file ?cfg node_df (fst (load_stop_info bus_json))
      (snd (load_stop_info bus_json)) (fst (file_before_walk ?cfg node_df))
      (snd (file_before_walk ?cfg node_df)) (WALKING_RADIUS ?cfg) (MAX_WALK_WAIT_TIME ?cfg)"
  show ?thesis
  proof (cases ?w)
    case (Inl p)
    obtain e f where p: "p = (e, f)" by (cases p) auto
    from assms Inl p have l: "l \<in> set f"
      by (simp add: create_link_table_eq output_file_of_def)
    from append_walk_links_to_file_Inl_rows [OF Inl [unfolded p]] l show ?thesis
      by blast
  next
    case (Inr r)
    obtain f n where r: "r = (f, n)" by (cases r) auto
    from assms Inr r have l: "l \<in> set f"
      by (simp add: create_link_table_eq output_file_of_def)
    from append_walk_links_to_file_Inr(1) [OF Inr [unfolded r]] l show ?thesis
      by auto
  qed
qed

section \<open>Properties of the float arithmetic\<close>

lemma py_round_of_int [simp]: "py_round (of_int i) = i"
  by (simp add: py_round_def)

lemma py_round_zero [simp]: "py_round 0 = 0"
  using py_round_of_int [of 0] by simp

lemma py_round_numeral [simp]: "py_round (numeral n) = numeral n"
  using py_round_of_int [of "numeral n"] by simp

lemma py_round_neg_numeral [simp]: "py_round (- numeral n) = - numeral n"
  using py_round_of_int [of "- numeral n"] by simp

lemma bit_length_bounds:
  "0 < n \<Longrightarrow> 2 ^ (bit_length n - 1) \<le> n \<and> n < 2 ^ bit_length n"
proof (induction n rule: bit_length.induct)
  case (1 n)
  show ?case
  proof (cases "n div 2 = 0")
    case True
    with 1(2) have "n = 1" by (auto simp: div_eq_0_iff)
    then show ?thesis by (simp add: bit_length.simps [of "Suc 0"] bit_length.simps [of 0])
  next
    case False
    with 1 have IH: "2 ^ (bit_length (n div 2) - 1) \<le> n div 2" "n div 2 < 2 ^ bit_length (n div 2)"
      by auto
    have pos: "0 < bit_length (n div 2)"
      using False by (simp add: bit_length.simps [of "n div 2"])
    have b: "bit_length n = Suc (bit_length (n div 2))"
      using 1(2) by (simp add: bit_length.simps [of n])
    have "2 ^ (bit_length n - 1) = 2 * 2 ^ (bit_length (n div 2) - 1)"
      using pos unfolding b by (cases "bit_length (n div 2)") simp_all
    also have "\<dots> \<le> 2 * (n div 2)"
      using IH(1) by simp
    also have "\<dots> \<le> n"
      by simp
    finally have l: "2 ^ (bit_length n - 1) \<le> n" .
    have "n < 2 * (n div 2) + 2"
      by presburger
    also have "\<dots> \<le> 2 * 2 ^ bit_length (n div 2)"
      using IH(2) by simp
    finally have "n < 2 ^ bit_length n"
      unfolding b by simp
    with l show ?thesis ..
  qed
qed

lemma bit_length_pos: "0 < n \<Longrightarrow> 0 < bit_length n"
  by (simp add: bit_length.simps [of n])

lemma py_round_error: "\<bar>real_of_int (py_round x) - x\<bar> \<le> 1 / 2"
  unfolding py_round_def Let_def by (auto simp: abs_le_iff)

lemma real_power_le: "2 ^ k \<le> (n::nat) \<Longrightarrow> (2::real) ^ k \<le> real n"
proof -
  assume "2 ^ k \<le> n"
  then have "real (2 ^ k) \<le> real n"
    by (rule of_nat_mono)
  then show ?thesis
    by simp
qed

lemma real_less_power: "(n::nat) < 2 ^ k \<Longrightarrow> real n + 1 \<le> (2::real) ^ k"
proof -
  assume "n < 2 ^ k"
  then have "Suc n \<le> 2 ^ k"
    by simp
  then have "real (Suc n) \<le> real (2 ^ k)"
    by (rule of_nat_mono)
  then show ?thesis
    by simp
qed

lemma binade_bounds:
  assumes "x \<noteq> 0"
  shows "2 powi (binade x) \<le> \<bar>x\<bar> \<and> \<bar>x\<bar> < 2 powi (binade x + 1)"
proof (cases "1 \<le> \<bar>x\<bar>")
  case True
  define n where "n = nat \<lfloor>\<bar>x\<bar>\<rfloor>"
  have f: "1 \<le> \<lfloor>\<bar>x\<bar>\<rfloor>"
    using True by (simp add: le_floor_iff)
  then have rn: "real n = real_of_int \<lfloor>\<bar>x\<bar>\<rfloor>"
    unfolding n_def by simp
  have n: "0 < n" "real n \<le> \<bar>x\<bar>" "\<bar>x\<bar> < real n + 1"
    using f unfolding rn by (simp_all add: n_def)
  from bit_length_bounds [OF n(1)] have b: "2 ^ (bit_length n - 1) \<le> n" "n < 2 ^ bit_length n"
    by simp_all
  have e: "binade x = int (bit_length n) - 1"
    using True by (simp add: binade_def n_def)
  have p: "0 < bit_length n"
    using n(1) by (rule bit_length_pos)
  have "2 powi (binade x) = (2::real) ^ (bit_length n - 1)"
    unfolding e using p by (simp add: power_int_def nat_diff_distrib)
  also have "\<dots> \<le> real n"
    using b(1) by (rule real_power_le)
  finally have l: "2 powi (binade x) \<le> \<bar>x\<bar>"
    using n(2) by linarith
  have "real n + 1 \<le> 2 ^ bit_length n"
    using b(2) by (rule real_less_power)
  also have "\<dots> = 2 powi (binade x + 1)"
    unfolding e by (simp add: power_int_def)
  finally have "\<bar>x\<bar> < 2 powi (binade x + 1)"
    using n(3) by linarith
  with l show ?thesis ..
next
  case False
  define c where "c = nat (\<lceil>1 / \<bar>x\<bar>\<rceil> - 1)"
  have x: "0 < \<bar>x\<bar>" "\<bar>x\<bar> < 1"
    using assms False by simp_all
  then have r: "1 < 1 / \<bar>x\<bar>"
    by simp
  then have c2: "2 \<le> \<lceil>1 / \<bar>x\<bar>\<rceil>"
    by linarith
  then have nn: "0 \<le> \<lceil>1 / \<bar>x\<bar>\<rceil> - 1"
    by linarith
  have "real c = real_of_int (\<lceil>1 / \<bar>x\<bar>\<rceil> - 1)"
    unfolding c_def using nn by (rule of_nat_nat)
  then have rc: "real c = real_of_int \<lceil>1 / \<bar>x\<bar>\<rceil> - 1"
    by simp
  have c: "0 < c" "real c < 1 / \<bar>x\<bar>" "1 / \<bar>x\<bar> \<le> real c + 1"
  proof -
    show "0 < c"
      using c2 unfolding c_def by linarith
    show "real c < 1 / \<bar>x\<bar>"
      unfolding rc by linarith
    show "1 / \<bar>x\<bar> \<le> real c + 1"
      unfolding rc by linarith
  qed
  from bit_length_bounds [OF c(1)] have b: "2 ^ (bit_length c - 1) \<le> c" "c < 2 ^ bit_length c"
    by simp_all
  have e: "binade x = - int (bit_length c)"
    using False by (simp add: binade_def c_def)
  have p: "0 < bit_length c"
    using c(1) by (rule bit_length_pos)
  have "real c + 1 \<le> 2 ^ bit_length c"
    using b(2) by (rule real_less_power)
  with c(3) have "1 / \<bar>x\<bar> \<le> 2 ^ bit_length c"
    by linarith
  then have "1 \<le> 2 ^ bit_length c * \<bar>x\<bar>"
    using x(1) by (simp add: field_simps)
  then have "1 / 2 ^ bit_length c \<le> \<bar>x\<bar>"
    by (simp add: field_simps)
  moreover have "2 powi (binade x) = 1 / (2::real) ^ bit_length c"
    unfolding e by (simp add: power_int_def field_simps)
  ultimately have l: "2 powi (binade x) \<le> \<bar>x\<bar>"
    by simp
  have "(2::real) ^ (bit_length c - 1) \<le> real c"
    using b(1) by (rule real_power_le)
  with c(2) have "2 ^ (bit_length c - 1) < 1 / \<bar>x\<bar>"
    by linarith
  then have "2 ^ (bit_length c - 1) * \<bar>x\<bar> < 1"
    using x(1) by (simp add: field_simps)
  then have "\<bar>x\<bar> < 1 / 2 ^ (bit_length c - 1)"
    by (simp add: field_simps)
  moreover have "2 powi (binade x + 1) = 1 / (2::real) ^ (bit_length c - 1)"
    unfolding e using p by (cases "bit_length c") (simp_all add: power_int_def field_simps)
  ultimately have "\<bar>x\<bar> < 2 powi (binade x + 1)"
    by simp
  with l show ?thesis ..
qed

lemma binade_le:
  assumes "x \<noteq> 0" and "\<bar>x\<bar> < 2 powi (n + 1)"
  shows "binade x \<le> n"
proof (rule ccontr)
  assume "\<not> binade x \<le> n"
  then have "n + 1 \<le> binade x"
    by simp
  then have "(2::real) powi (n + 1) \<le> 2 powi (binade x)"
    by (intro power_int_increasing) simp_all
  with binade_bounds [OF assms(1)] assms(2) show False
    by linarith
qed

lemma binade_ge:
  assumes "2 powi n \<le> \<bar>x\<bar>"
  shows "n \<le> binade x"
proof (rule ccontr)
  assume "\<not> n \<le> binade x"
  then have "binade x + 1 \<le> n"
    by simp
  then have "(2::real) powi (binade x + 1) \<le> 2 powi n"
    by (intro power_int_increasing) simp_all
  moreover have "(0::real) < 2 powi n"
    by simp
  with assms have "0 < \<bar>x\<bar>"
    by linarith
  then have "x \<noteq> 0"
    by simp
  ultimately show False
    using binade_bounds [of x] assms by linarith
qed

lemma binade_eqI:
  assumes "2 powi k \<le> \<bar>x\<bar>" and "\<bar>x\<bar> < 2 powi (k + 1)"
  shows "binade x = k"
proof -
  have "(0::real) < 2 powi k"
    by simp
  with assms(1) have "0 < \<bar>x\<bar>"
    by linarith
  then have "x \<noteq> 0"
    by simp
  from binade_le [OF this assms(2)] binade_ge [OF assms(1)] show ?thesis
    by simp
qed

lemma double_error:
  assumes "\<bar>x\<bar> < 2 ^ 53"
  shows "\<bar>double x - x\<bar> \<le> 1 / 2"
proof (cases "x = 0")
  case True
  then show ?thesis
    by (simp add: double_def)
next
  case False
  define e where "e = max (binade x - 52) (- 1074)"
  have "\<bar>x\<bar> < 2 powi (52 + 1)"
    using assms by (simp add: power_int_def)
  from binade_le [OF False this] have e: "e \<le> 0"
    by (simp add: e_def)
  have p: "0 < (2::real) powi e"
    by simp
  have p1: "(2::real) powi e \<le> 1"
    using power_int_increasing [OF e, of "2::real"] by simp
  have d: "double x = real_of_int (py_round (x / 2 powi e)) * 2 powi e"
    using False by (simp add: double_def e_def Let_def)
  have "double x - x = (real_of_int (py_round (x / 2 powi e)) - x / 2 powi e) * 2 powi e"
    unfolding d using p by (simp add: field_simps)
  then have "\<bar>double x - x\<bar> = \<bar>real_of_int (py_round (x / 2 powi e)) - x / 2 powi e\<bar> * 2 powi e"
    using p by (simp add: abs_mult)
  also have "\<dots> \<le> 1 / 2 * 2 powi e"
    using py_round_error [of "x / 2 powi e"] p by (intro mult_right_mono) simp_all
  also have "\<dots> \<le> 1 / 2"
    using p1 by simp
  finally show ?thesis .
qed

lemma double_exact:
  assumes "x = real_of_int m * 2 powi k" and "\<bar>m\<bar> < 2 ^ 53" and "- 1074 \<le> k"
  shows "double x = x"
proof (cases "x = 0")
  case True
  then show ?thesis
    by (simp add: double_def)
next
  case False
  define e where "e = max (binade x - 52) (- 1074)"
  have m: "\<bar>real_of_int m\<bar> < 2 ^ 53"
    using assms(2) by (metis of_int_abs of_int_less_iff of_int_numeral of_int_power)
  have "\<bar>x\<bar> = \<bar>real_of_int m\<bar> * 2 powi k"
    unfolding assms(1) by (simp add: abs_mult)
  also have "\<dots> < 2 ^ 53 * 2 powi k"
    using m by (intro mult_strict_right_mono) simp_all
  also have "\<dots> = 2 powi 53 * 2 powi k"
    by (simp add: power_int_def)
  also have "\<dots> = 2 powi (53 + k)"
    by (rule power_int_add [symmetric]) simp
  finally have "\<bar>x\<bar> < 2 powi (52 + k + 1)"
    by (simp add: add.commute add.left_commute)
  from binade_le [OF False this] have "binade x \<le> 52 + k" .
  with assms(3) have e: "e \<le> k"
    by (simp add: e_def)
  have d: "double x = real_of_int (py_round (x / 2 powi e)) * 2 powi e"
    using False by (simp add: double_def e_def Let_def)
  have "x / 2 powi e = real_of_int m * 2 powi (k - e)"
    unfolding assms(1) by (simp add: power_int_diff)
  also have "\<dots> = real_of_int (m * 2 ^ nat (k - e))"
    using e by (simp add: power_int_def)
  finally have "x / 2 powi e = real_of_int (m * 2 ^ nat (k - e))" .
  then have "real_of_int (py_round (x / 2 powi e)) = x / 2 powi e"
    by (simp only: py_round_of_int)
  then show ?thesis
    unfolding d by simp
qed

lemma double_of_int: "\<bar>i\<bar> < 2 ^ 53 \<Longrightarrow> double (real_of_int i) = real_of_int i"
  using double_exact [of "real_of_int i" i 0] by simp

lemma double_zero [simp]: "double 0 = 0"
  by (simp add: double_def)

lemma double_one [simp]: "double 1 = 1"
  using double_of_int [of 1] by simp

lemma double_numeral: "numeral n < (2::int) ^ 53 \<Longrightarrow> double (numeral n) = numeral n"
  using double_of_int [of "numeral n"] by simp

lemma double_eq_small:
  assumes "2 ^ 52 \<le> \<bar>x\<bar> * 2 ^ n" and "\<bar>x\<bar> * 2 ^ n < 2 ^ 53" and "n \<le> 1074"
    and "py_round (x * 2 ^ n) = m"
  shows "double x = real_of_int m / 2 ^ n"
proof -
  have p: "(2::real) powi (- int n) = 1 / 2 ^ n"
    by (simp add: power_int_def field_simps)
  have "(2::real) powi (52 - int n) = 2 powi 52 / 2 powi (int n)"
    by (rule power_int_diff) simp
  then have q: "(2::real) powi (52 - int n) = 2 ^ 52 / 2 ^ n"
    by (simp add: power_int_def)
  have "(2::real) powi (52 - int n + 1) = 2 powi (53 - int n)"
    by simp
  also have "\<dots> = 2 powi 53 / 2 powi (int n)"
    by (rule power_int_diff) simp
  finally have r: "(2::real) powi (52 - int n + 1) = 2 ^ 53 / 2 ^ n"
    by (simp add: power_int_def)
  have l: "2 powi (52 - int n) \<le> \<bar>x\<bar>"
    unfolding q using assms(1) by (simp add: pos_divide_le_eq)
  have u: "\<bar>x\<bar> < 2 powi (52 - int n + 1)"
    unfolding r using assms(2) by (simp add: pos_less_divide_eq)
  from binade_eqI [OF l u] have b: "binade x = 52 - int n" .
  have "x \<noteq> 0"
    using assms(1) by auto
  then have "double x = real_of_int (py_round (x / 2 powi (- int n))) * 2 powi (- int n)"
    using assms(3) by (simp add: double_def b Let_def)
  then show ?thesis
    unfolding p using assms(4) by simp
qed

text \<open>
  Adding the dwell to the float time and rounding again moves the timestamp by the dwell,
  up to one second.
\<close>

lemma dwell_within_one:
  assumes "\<bar>py_round x\<bar> \<le> 2 ^ 52" and "0 \<le> w" and "w \<le> 86400"
  shows "\<bar>py_round (double (x + real_of_int w)) - py_round x - w\<bar> \<le> 1"
proof -
  have "real_of_int \<bar>py_round x\<bar> \<le> real_of_int (2 ^ 52)"
    using assms(1) by (rule of_int_le_iff [THEN iffD2])
  then have a: "\<bar>real_of_int (py_round x)\<bar> \<le> 4503599627370496"
    by simp
  have w: "0 \<le> real_of_int w" "real_of_int w \<le> 86400"
    using assms(2,3) by simp_all
  note rx = py_round_error [of x]
  have "\<bar>x + real_of_int w\<bar> < 9007199254740992"
    using a rx w by linarith
  then have "\<bar>x + real_of_int w\<bar> < 2 ^ 53"
    by simp
  note dz = double_error [OF this]
  note rz = py_round_error [of "double (x + real_of_int w)"]
  have "\<bar>real_of_int (py_round (double (x + real_of_int w))) - real_of_int (py_round x) -
          real_of_int w\<bar> < 2"
    using rx dz rz by linarith
  then have "real_of_int \<bar>py_round (double (x + real_of_int w)) - py_round x - w\<bar> < real_of_int 2"
    by simp
  then have "\<bar>py_round (double (x + real_of_int w)) - py_round x - w\<bar> < 2"
    by (rule of_int_less_iff [THEN iffD1])
  then show ?thesis
    by simp
qed

section \<open>Properties of the trip expander\<close>

lemma waiting_time_of_eq: "waiting_time_of bus_type = 30"
  by (simp add: waiting_time_of_def WAITING_TIME_BY_TYPE_def WAITING_TIME_def)

lemma make_node_simps:
  "Event (make_node g r rn v t st ct ev) = ev"
  "StopId (make_node g r rn v t st ct ev) = stop_StopId st"
  "Timestamp (make_node g r rn v t st ct ev) = py_round ct"
  "NodeId (make_node g r rn v t st ct ev) = g"
  "TripId (make_node g r rn v t st ct ev) = t"
  "RouteId (make_node g r rn v t st ct ev) = r"
  by (simp_all add: make_node_def)

lemma interior_stream_Cons:
  "rest \<noteq> [] \<Longrightarrow>
     interior_stream w (st # rest) (a # d # ns) =
       (Event a = ''ARRIVAL'' \<and> StopId a = stop_StopId st \<and>
        Event d = ''DEPARTURE'' \<and> StopId d = stop_StopId st \<and>
        (\<bar>Timestamp a\<bar> \<le> 2 ^ 52 \<longrightarrow> \<bar>Timestamp d - Timestamp a - w\<bar> \<le> 1) \<and>
        interior_stream w rest ns)"
  by (cases rest) simp_all

lemma emit_stops_interior:
  assumes "0 \<le> w \<and> w \<le> 86400" and "1 \<le> i" and "i + length rest = n" and "rest \<noteq> []"
  shows "interior_stream w rest
           (fst (emit_stops w dists v rid rno vid tid n i rest ct gid))"
  using assms(2-)
proof (induction rest arbitrary: i ct gid)
  case Nil
  then show ?case by simp
next
  case (Cons st rest)
  show ?case
  proof (cases "rest = []")
    case True
    with Cons.prems show ?thesis
      by (simp add: Let_def make_node_simps)
  next
    case False
    with Cons.prems have lt: "int i < int n - 1" and i0: "i \<noteq> 0"
      by (cases rest; simp)+
    have "interior_stream w rest
           (fst (emit_stops w dists v rid rno vid tid n (i + 1) rest
              (double (double (ct + double (dists ! (i - 1) / v)) + real_of_int w))
              (gid + 1 + 1)))"
      using Cons.prems False by (intro Cons.IH) auto
    moreover have "\<bar>py_round (double (ct + double (dists ! (i - 1) / v)))\<bar> \<le> 2 ^ 52 \<longrightarrow>
        \<bar>py_round (double (double (ct + double (dists ! (i - 1) / v)) + real_of_int w)) -
           py_round (double (ct + double (dists ! (i - 1) / v))) - w\<bar> \<le> 1"
      using dwell_within_one [of "double (ct + double (dists ! (i - 1) / v))" w] assms(1)
      by blast
    ultimately show ?thesis
      using lt i0 False
      by (simp add: Let_def interior_stream_Cons make_node_simps)
  qed
qed

lemma interior_stream_map:
  "interior_stream w rest ns \<Longrightarrow>
     map (\<lambda>r. (StopId r, Event r)) ns =
       concat (map (\<lambda>st. [(stop_StopId st, ''ARRIVAL''), (stop_StopId st, ''DEPARTURE'')])
                 (butlast rest)) @ [(stop_StopId (last rest), ''ARRIVAL'')]"
  by (induction w rest ns rule: interior_stream.induct) simp_all

lemma interior_stream_nth:
  "interior_stream w rest ns \<Longrightarrow> k + 1 < length rest \<Longrightarrow>
     Event (ns ! (2 * k)) = ''ARRIVAL'' \<and> StopId (ns ! (2 * k)) = stop_StopId (rest ! k) \<and>
     Event (ns ! (2 * k + 1)) = ''DEPARTURE'' \<and> StopId (ns ! (2 * k + 1)) = stop_StopId (rest ! k) \<and>
     (\<bar>Timestamp (ns ! (2 * k))\<bar> \<le> 2 ^ 52 \<longrightarrow>
        \<bar>Timestamp (ns ! (2 * k + 1)) - Timestamp (ns ! (2 * k)) - w\<bar> \<le> 1)"
proof (induction w rest ns arbitrary: k rule: interior_stream.induct)
  case (2 w st st' rest a d ns)
  show ?case
  proof (cases k)
    case 0
    with "2.prems" show ?thesis by simp
  next
    case (Suc k')
    with "2.prems" have "interior_stream w (st' # rest) ns" "k' + 1 < length (st' # rest)"
      by simp_all
    from "2.IH" [OF this] show ?thesis
      by (simp add: Suc)
  qed
qed simp_all

lemma interior_stream_length: "interior_stream w rest ns \<Longrightarrow> length ns = 2 * length rest - 1"
  by (induction w rest ns rule: interior_stream.induct) auto

lemma parse_time_to_seconds_next_day:
  "parse_time_to_seconds time_str True =
     map_option (\<lambda>seconds. seconds + 86400) (parse_time_to_seconds time_str False)"
  by (simp add: parse_time_to_seconds_def Let_def split: option.splits)

lemma parse_time_to_seconds_range:
  "parse_time_to_seconds time_str False = Some seconds \<Longrightarrow> 0 \<le> seconds \<and> seconds < 86400"
  by (auto simp: parse_time_to_seconds_def Let_def split: option.splits if_splits)

lemma overnight_end_seconds_eq:
  assumes "parse_time_to_seconds (trip_EndTime tr) False = Some end_seconds"
  shows "overnight_end_seconds tr start_seconds end_seconds =
           (if end_seconds \<le> start_seconds then end_seconds + 86400 else end_seconds)"
  using parse_time_to_seconds_range [OF assms]
  by (simp add: overnight_end_seconds_def parse_time_to_seconds_next_day assms)

lemma process_trip_parsed:
  assumes "parse_time_to_seconds (trip_StartTime tr) False = Some start_seconds"
    and "parse_time_to_seconds (trip_EndTime tr) False = Some end_seconds"
  shows "process_trip w stops loop dists total_distance rid rno vid tr gid =
           expand_trip w stops loop dists total_distance rid rno vid (trip_TripId tr) gid start_seconds
             (overnight_end_seconds tr start_seconds end_seconds)"
  by (simp add: process_trip_def assms)

lemma process_trip_valid:
  assumes "process_trip w stops False dists total_distance rid rno vid tr gid = Inr (True, nodes, next_id)"
  shows "\<exists>v start_seconds.
           emit_stops w dists v rid rno vid (trip_TripId tr) (length stops) 0 stops
             (real_of_int start_seconds) gid = (nodes, next_id)"
  using assms
  by (auto simp: process_trip_def expand_trip_def Let_def split: option.splits if_splits)

section \<open>Evaluating the scenarios\<close>

lemmas time_defs = parse_time_to_seconds_def strip_def is_space_def py_int_def parse_unsigned_def
  digit_val_def Let_def

lemmas scenario_defs = single_trip_nodes_def zero_segment_nodes_def transfer_pair_nodes_def
  colocated_nodes_def two_line_nodes_def far_apart_trip_nodes_def far_apart_transfer_nodes_def
  far_apart_walk_nodes_def midnight_trip_nodes_def make_node_def stop_A_def stop_B_def
  stop_C_def stop_S_def int32_def

lemma parse_0700: "parse_time_to_seconds (Some ''07:00'') False = Some 25200"
  by (simp add: time_defs)

lemma parse_0710: "parse_time_to_seconds (Some ''07:10'') False = Some 25800"
  by (simp add: time_defs)

text \<open>
  The roundings of the three trips of the scenarios: each is checked against the
  definition of \<open>double\<close> with the significand and the exponent of the result.
\<close>

lemma single_trip_avg: "double (110 / 27) = 2293499810234975 / 562949953421312"
  using double_eq_small [of "110 / 27" 50 4586999620469950] by (simp add: py_round_def)

lemma single_trip_travel1: "double (24769797950537728 / 91739992409399) = 270"
  using double_eq_small [of "24769797950537728 / 91739992409399" 44 4749890231992320]
  by (simp add: py_round_def)

lemma zero_segment_avg: "double (55 / 27) = 2293499810234975 / 1125899906842624"
  using double_eq_small [of "55 / 27" 51 4586999620469950] by (simp add: py_round_def)

lemma zero_segment_travel2: "double (49539595901075456 / 91739992409399) = 540"
  using double_eq_small [of "49539595901075456 / 91739992409399" 43 4749890231992320]
  by (simp add: py_round_def)

lemma midnight_trip_avg: "double (9 / 7) = 5790342378047781 / 4503599627370496"
  using double_eq_small [of "9 / 7" 52 5790342378047781] by (simp add: py_round_def)

lemma midnight_trip_travel1:
  "double (6755399441055744 / 1930114126015927) =
     7881299347898367 / 2251799813685248"
  using double_eq_small [of "6755399441055744 / 1930114126015927" 51 7881299347898367]
  by (simp add: py_round_def)

lemma midnight_trip_arrive1:
  "double (7881299347898367 / 2251799813685248) =
     7881299347898367 / 2251799813685248"
  using double_eq_small [of "7881299347898367 / 2251799813685248" 51 7881299347898367]
  by (simp add: py_round_def)

lemma midnight_trip_leave1: "double (75435293758455807 / 2251799813685248) = 67 / 2"
  using double_eq_small [of "75435293758455807 / 2251799813685248" 47 4714705859903488]
  by (simp add: py_round_def)

lemma midnight_trip_travel2:
  "double (803892533485633536 / 1930114126015927) =
     7327145487499263 / 17592186044416"
  using double_eq_small [of "803892533485633536 / 1930114126015927" 44 7327145487499263]
  by (simp add: py_round_def)

lemma midnight_trip_arrive2:
  "double (7916483719987199 / 17592186044416) =
     7916483719987199 / 17592186044416"
  using double_eq_small [of "7916483719987199 / 17592186044416" 44 7916483719987199]
  by (simp add: py_round_def)

lemma double_22_2: "double (111 / 5) = 6248744482976563 / 281474976710656"
  using double_eq_small [of "111 / 5" 48 6248744482976563] by (simp add: py_round_def)

lemmas trip_defs = process_trip_def overnight_end_seconds_def expand_trip_def MIN_AVG_SPEED_def
  Let_def waiting_time_of_def WAITING_TIME_BY_TYPE_def WAITING_TIME_def double_22_2
  double_numeral

lemma parse_0000: "parse_time_to_seconds (Some ''00:00'') False = Some 0"
  by (simp add: time_defs)

lemma parse_0008: "parse_time_to_seconds (Some ''00:08'') False = Some 480"
  by (simp add: time_defs)

lemma single_trip_nodes_generated:
  "process_trip (waiting_time_of (bus_type_of None)) [stop_A, stop_B, stop_C]
     (detect_loop_route [stop_A, stop_B, stop_C]) [1100, 1100] 2200 1 ''01'' 1 single_trip 1 =
   Inr (True, single_trip_nodes, 5)"
  by (simp add: trip_defs single_trip_def parse_0700 parse_0710 single_trip_nodes_def
      detect_loop_route_def stop_A_def stop_B_def single_trip_avg single_trip_travel1)

lemma zero_segment_nodes_generated:
  "process_trip (waiting_time_of (bus_type_of None)) [stop_A, stop_B, stop_C] False [0, 1100] 1100
     1 ''01'' 1 single_trip 1 =
   Inr (True, zero_segment_nodes, 5)"
  by (simp add: trip_defs single_trip_def parse_0700 parse_0710 zero_segment_nodes_def
      zero_segment_avg zero_segment_travel2)

lemma midnight_trip_nodes_generated:
  "process_trip (waiting_time_of (bus_type_of None)) [stop_A, stop_B, stop_C] False
     [9 / 2, 1071 / 2] 540 1 ''01'' 1 midnight_trip 1 =
   Inr (True, midnight_trip_nodes, 5)"
  by (simp add: trip_defs midnight_trip_def parse_0000 parse_0008 midnight_trip_nodes_def
      midnight_trip_avg midnight_trip_travel1 midnight_trip_arrive1 midnight_trip_leave1
      midnight_trip_travel2 midnight_trip_arrive2 make_node_def py_round_def)

lemmas json_defs = colocated_json_def json_without_B_def transfer_pair_json_def
  load_stop_info_fold add_route_def add_variant_def add_stop_def Let_def
  stop_A_def stop_B_def stop_C_def stop_S_def

lemma colocated_stop_info:
  "fst (load_stop_info colocated_json) =
     [(1, \<lparr>Lat = 10, Lng = 106, Name = ''A'', Routes = {Inl 1}\<rparr>),
      (5, \<lparr>Lat = 10, Lng = 106, Name = ''S'', Routes = {Inl 3}\<rparr>)]"
  "snd (load_stop_info colocated_json) 1 = {Inl 1}"
  "snd (load_stop_info colocated_json) 5 = {Inl 3}"
  by (simp_all add: json_defs)

lemma colocated_walk_links:
  "walk_links CONFIG (fst (load_stop_info colocated_json)) (snd (load_stop_info colocated_json))
     400 3600 colocated_nodes = [(1, 2, 0)]"
  unfolding colocated_stop_info(1)
  by (simp add: walk_links_def walk_arrival_links_def nearby_of_def walk_nearby_links_def
      departures_by_stop_of_def sort_values_Timestamp_def colocated_stop_info(2,3)
      scenario_defs CONFIG_def)

lemma colocated_walk_builder:
  "append_walk_links_to_file CONFIG colocated_nodes (fst (load_stop_info colocated_json))
     (snd (load_stop_info colocated_json)) [] 1 400 3600 =
   Inr ([\<lparr>link_id = 1, from_node = 1, to_node = 2, duration = 0, mode = ''walk''\<rparr>], 2)"
proof -
  have "\<forall>a \<in> set colocated_nodes. Event a = ''ARRIVAL'' \<longrightarrow>
      StopId a \<in> dom (map_of (fst (load_stop_info colocated_json)))"
    unfolding colocated_stop_info(1) by (simp add: scenario_defs)
  moreover have "WALKING_SPEED CONFIG \<noteq> 0"
    by (simp add: CONFIG_def)
  ultimately show ?thesis
    by (simp add: append_walk_links_to_file_ok colocated_walk_links)
qed

lemma colocated_before_walk: "file_before_walk CONFIG colocated_nodes = ([], 1)"
proof -
  have "bus_links colocated_nodes = []"
    by (simp add: bus_links_def bus_trip_links_def bus_dep_links_def groupby_def
        sort_values_Timestamp_def scenario_defs)
  moreover have "wait_links colocated_nodes = []"
    by (simp add: wait_links_def wait_group_links_def groupby_def sort_values_Timestamp_def
        scenario_defs)
  moreover have "transfer_links CONFIG 1800 colocated_nodes = []"
    by (simp add: transfer_links_def transfer_group_links_def transfer_arrival_links_def
        groupby_def sort_values_Timestamp_def scenario_defs)
  ultimately show ?thesis
    by (simp add: file_before_walk_eq CONFIG_def)
qed

lemma colocated_run:
  "create_link_table_memory_optimized colocated_nodes colocated_json None =
     Inr ([\<lparr>link_id = 1, from_node = 1, to_node = 2, duration = 0, mode = ''walk''\<rparr>], 1)"
proof -
  have c: "effective_config None = CONFIG"
    by (simp add: effective_config_def)
  have r: "WALKING_RADIUS CONFIG = 400" "MAX_WALK_WAIT_TIME CONFIG = 3600"
    by (simp_all add: CONFIG_def)
  show ?thesis
    unfolding create_link_table_eq c colocated_before_walk r fst_conv snd_conv
      colocated_walk_builder
    by simp
qed

lemma transfer_pair_stop_info:
  "fst (load_stop_info transfer_pair_json) =
     [(5, \<lparr>Lat = 10, Lng = 106, Name = ''S'', Routes = {Inl 4, Inl 3}\<rparr>)]"
  by (simp add: json_defs)

lemma transfer_pair_walk_links:
  "walk_links cfg (fst (load_stop_info transfer_pair_json)) routes radius mw transfer_pair_nodes = []"
  unfolding transfer_pair_stop_info
  by (simp add: walk_links_def walk_arrival_links_def nearby_of_def scenario_defs)

lemma transfer_pair_before_walk:
  "file_before_walk cfg transfer_pair_nodes =
     (number_links ''transfer'' 1 (transfer_links cfg (MAX_TRANSFER_TIME cfg) transfer_pair_nodes),
      1 + int (length (transfer_links cfg (MAX_TRANSFER_TIME cfg) transfer_pair_nodes)))"
proof -
  have "bus_links transfer_pair_nodes = []"
    by (simp add: bus_links_def bus_trip_links_def bus_dep_links_def groupby_def
        sort_values_Timestamp_def scenario_defs)
  moreover have "wait_links transfer_pair_nodes = []"
    by (simp add: wait_links_def wait_group_links_def groupby_def sort_values_Timestamp_def
        scenario_defs)
  ultimately show ?thesis
    by (simp add: file_before_walk_eq)
qed

lemma transfer_pair_transfer_links:
  "transfer_links cfg mx transfer_pair_nodes =
     (if 120 \<le> mx \<and> MIN_TRANSFER_TIME cfg \<le> 120 then [(5, 6, 120)] else [])"
  by (simp add: transfer_links_def transfer_group_links_def transfer_arrival_links_def
      groupby_def sort_values_Timestamp_def scenario_defs)

lemma transfer_pair_run:
  assumes "WALKING_SPEED (effective_config config) \<noteq> 0"
  shows "create_link_table_memory_optimized transfer_pair_nodes transfer_pair_json config =
     (if 120 \<le> MAX_TRANSFER_TIME (effective_config config) \<and>
         MIN_TRANSFER_TIME (effective_config config) \<le> 120
      then Inr ([\<lparr>link_id = 1, from_node = 5, to_node = 6, duration = 120, mode = ''transfer''\<rparr>], 1)
      else Inr ([], 0))"
proof -
  have "\<forall>a \<in> set transfer_pair_nodes. Event a = ''ARRIVAL'' \<longrightarrow>
      StopId a \<in> dom (map_of (fst (load_stop_info transfer_pair_json)))"
    unfolding transfer_pair_stop_info by (simp add: scenario_defs)
  from append_walk_links_to_file_ok [OF this assms] show ?thesis
    unfolding create_link_table_eq
    by (simp add: transfer_pair_walk_links transfer_pair_before_walk transfer_pair_transfer_links)
qed

lemma json_without_B_stop_info:
  "fst (load_stop_info json_without_B) =
     [(1, \<lparr>Lat = 10, Lng = 106, Name = ''A'', Routes = {Inl 1}\<rparr>),
      (3, \<lparr>Lat = 10, Lng = 10602 / 100, Name = ''C'', Routes = {Inl 1}\<rparr>),
      (5, \<lparr>Lat = 10, Lng = 106, Name = ''S'', Routes = {Inl 4, Inl 3}\<rparr>)]"
  by (simp add: json_defs)

lemma two_line_before_walk:
  "file_before_walk CONFIG two_line_nodes =
     ([\<lparr>link_id = 1, from_node = 1, to_node = 2, duration = 270, mode = ''bus''\<rparr>,
       \<lparr>link_id = 2, from_node = 3, to_node = 4, duration = 270, mode = ''bus''\<rparr>,
       \<lparr>link_id = 3, from_node = 2, to_node = 3, duration = 30, mode = ''wait''\<rparr>,
       \<lparr>link_id = 4, from_node = 5, to_node = 6, duration = 120, mode = ''transfer''\<rparr>], 5)"
proof -
  have "bus_links two_line_nodes = [(1, 2, 270), (3, 4, 270)]"
    by (simp add: bus_links_def bus_trip_links_def bus_dep_links_def groupby_def
        sort_values_Timestamp_def scenario_defs)
  moreover have "wait_links two_line_nodes = [(2, 3, 30)]"
    by (simp add: wait_links_def wait_group_links_def groupby_def sort_values_Timestamp_def
        scenario_defs)
  moreover have "transfer_links CONFIG 1800 two_line_nodes = [(5, 6, 120)]"
    by (simp add: transfer_links_def transfer_group_links_def transfer_arrival_links_def
        groupby_def sort_values_Timestamp_def scenario_defs CONFIG_def)
  ultimately show ?thesis
    by (simp add: file_before_walk_eq CONFIG_def)
qed

lemma two_line_run_without_B:
  "create_link_table_memory_optimized two_line_nodes json_without_B None =
     Inl (KeyError 2,
       [\<lparr>link_id = 1, from_node = 1, to_node = 2, duration = 270, mode = ''bus''\<rparr>,
        \<lparr>link_id = 2, from_node = 3, to_node = 4, duration = 270, mode = ''bus''\<rparr>,
        \<lparr>link_id = 3, from_node = 2, to_node = 3, duration = 30, mode = ''wait''\<rparr>,
        \<lparr>link_id = 4, from_node = 5, to_node = 6, duration = 120, mode = ''transfer''\<rparr>])"
proof -
  have c: "effective_config None = CONFIG"
    by (simp add: effective_config_def)
  have a: "filter (\<lambda>r. Event r = ''ARRIVAL'') two_line_nodes =
      [make_node 2 1 ''01'' 1 1 stop_B 25470 ''ARRIVAL'',
       make_node 4 1 ''01'' 1 1 stop_C 25770 ''ARRIVAL'',
       make_node 5 3 ''03'' 3 7 stop_S 28000 ''ARRIVAL'']"
    by (simp add: two_line_nodes_def single_trip_nodes_def transfer_pair_nodes_def make_node_def)
  have k: "find_stops_within_radius (StopId (make_node 2 1 ''01'' 1 1 stop_B 25470 ''ARRIVAL''))
      (fst (load_stop_info json_without_B)) r = Inl (KeyError 2)" for r
    unfolding json_without_B_stop_info
    by (simp add: find_stops_within_radius_eq make_node_def stop_B_def)
  show ?thesis
    unfolding create_link_table_eq c two_line_before_walk append_walk_links_to_file_eq a
    by (simp add: k)
qed

text \<open>
  Timestamps \<open>2^31\<close> s or more apart: the 32-bit difference wraps. The ride link gets a
  negative duration, and the window tests of the transfer and walk builders let a
  departure through that is far beyond the window.
\<close>

lemma bus_duration_wraps:
  "create_bus_links_to_file far_apart_trip_nodes 1 =
     ([\<lparr>link_id = 1, from_node = 1, to_node = 2, duration = - 2147483296, mode = ''bus''\<rparr>], 2)"
proof -
  have "bus_links far_apart_trip_nodes = [(1, 2, - 2147483296)]"
    by (simp add: bus_links_def bus_trip_links_def bus_dep_links_def groupby_def
        sort_values_Timestamp_def scenario_defs)
  then show ?thesis
    by (simp add: create_bus_links_to_file_eq)
qed

lemma transfer_window_wraps:
  "append_transfer_links_to_file CONFIG far_apart_transfer_nodes [] 1 1800 =
     ([\<lparr>link_id = 1, from_node = 5, to_node = 6, duration = 2147484000, mode = ''transfer''\<rparr>], 2)"
proof -
  have "transfer_links CONFIG 1800 far_apart_transfer_nodes = [(5, 6, 2147484000)]"
    by (simp add: transfer_links_def transfer_group_links_def transfer_arrival_links_def
        groupby_def sort_values_Timestamp_def scenario_defs CONFIG_def)
  then show ?thesis
    by (simp add: append_transfer_links_to_file_eq)
qed

lemma walk_window_wraps:
  "append_walk_links_to_file CONFIG far_apart_walk_nodes (fst (load_stop_info colocated_json))
     (snd (load_stop_info colocated_json)) [] 1 400 3600 =
   Inr ([\<lparr>link_id = 1, from_node = 1, to_node = 2, duration = 2147484000, mode = ''walk''\<rparr>], 2)"
proof -
  have w: "walk_links CONFIG (fst (load_stop_info colocated_json))
      (snd (load_stop_info colocated_json)) 400 3600 far_apart_walk_nodes = [(1, 2, 2147484000)]"
    unfolding colocated_stop_info(1)
    by (simp add: walk_links_def walk_arrival_links_def nearby_of_def walk_nearby_links_def
        departures_by_stop_of_def sort_values_Timestamp_def colocated_stop_info(2,3)
        scenario_defs CONFIG_def)
  have "\<forall>a \<in> set far_apart_walk_nodes. Event a = ''ARRIVAL'' \<longrightarrow>
      StopId a \<in> dom (map_of (fst (load_stop_info colocated_json)))"
    unfolding colocated_stop_info(1) by (simp add: scenario_defs)
  moreover have "WALKING_SPEED CONFIG \<noteq> 0"
    by (simp add: CONFIG_def)
  ultimately show ?thesis
    by (simp add: append_walk_links_to_file_ok w)
qed

section \<open>The claims\<close>



text \<open>
  C2, as amended. On a node table whose timestamps are seconds since midnight that fit
  the 32-bit column (\<open>timestamps_in_range\<close>), the transfer-link builder appends, after
  the rows already in the file, links of mode \<open>transfer\<close>, and these are exactly the
  links from an ARRIVAL \<open>a\<close> to a DEPARTURE \<open>d\<close> at the same stop, of another route, with
  \<open>t\<^sub>a < t\<^sub>d\<close> and \<open>t\<^sub>a + MIN_TRANSFER_TIME \<le> t\<^sub>d \<le> t\<^sub>a + max_transfer_time\<close>, of duration
  \<open>t\<^sub>d - t\<^sub>a\<close>. The interval is closed at \<open>t\<^sub>a + MIN_TRANSFER_TIME\<close>: a departure at exactly
  that time is linked. (Without the bound on the timestamps the 32-bit difference of the
  window test can wrap: lemma \<open>transfer_window_wraps\<close>.)
\<close>

theorem C2_transfer_links:
  assumes "timestamps_in_range node_df"
  shows "\<exists>new. fst (append_transfer_links_to_file cfg node_df output_file start_link_id
                max_transfer_time) = output_file @ new \<and>
         mode ` set new \<subseteq> {''transfer''} \<and>
         payload ` set new =
           {(NodeId a, NodeId d, Timestamp d - Timestamp a) | a d.
              a \<in> set node_df \<and> d \<in> set node_df \<and>
              Event a = ''ARRIVAL'' \<and> Event d = ''DEPARTURE'' \<and>
              StopId d = StopId a \<and> RouteId d \<noteq> RouteId a \<and>
              Timestamp a < Timestamp d \<and>
              Timestamp a + MIN_TRANSFER_TIME cfg \<le> Timestamp d \<and>
              Timestamp d \<le> Timestamp a + max_transfer_time}"
proof -
  let ?new = "number_links ''transfer'' start_link_id (transfer_links cfg max_transfer_time node_df)"
  have fl: "fst (append_transfer_links_to_file cfg node_df output_file start_link_id
                max_transfer_time) = output_file @ ?new"
    by (simp add: append_transfer_links_to_file_eq)
  have modes: "mode ` set ?new \<subseteq> {''transfer''}"
    using mode_number_links by fastforce
  have "payload ` set ?new = set (map payload ?new)"
    by (simp only: set_map)
  also have "\<dots> = set (transfer_links cfg max_transfer_time node_df)"
    by (simp only: payload_number_links)
  finally show ?thesis
    unfolding set_transfer_links_in_range [OF assms] using fl modes by blast
qed

theorem C2_transfer_links_witness:
  "timestamps_in_range transfer_pair_nodes \<and>
   (\<exists>new. fst (append_transfer_links_to_file CONFIG transfer_pair_nodes [] 1 1800) = [] @ new \<and>
      mode ` set new \<subseteq> {''transfer''} \<and>
      payload ` set new =
        {(NodeId a, NodeId d, Timestamp d - Timestamp a) | a d.
           a \<in> set transfer_pair_nodes \<and> d \<in> set transfer_pair_nodes \<and>
           Event a = ''ARRIVAL'' \<and> Event d = ''DEPARTURE'' \<and>
           StopId d = StopId a \<and> RouteId d \<noteq> RouteId a \<and>
           Timestamp a < Timestamp d \<and>
           Timestamp a + MIN_TRANSFER_TIME CONFIG \<le> Timestamp d \<and>
           Timestamp d \<le> Timestamp a + 1800}) \<and>
   fst (append_transfer_links_to_file CONFIG transfer_pair_nodes [] 1 1800) =
     [\<lparr>link_id = 1, from_node = 5, to_node = 6, duration = 120, mode = ''transfer''\<rparr>]"
proof -
  have r: "timestamps_in_range transfer_pair_nodes"
    by (simp add: timestamps_in_range_def scenario_defs)
  have e: "fst (append_transfer_links_to_file CONFIG transfer_pair_nodes [] 1 1800) =
     [\<lparr>link_id = 1, from_node = 5, to_node = 6, duration = 120, mode = ''transfer''\<rparr>]"
    by (simp add: append_transfer_links_to_file_eq transfer_pair_transfer_links CONFIG_def)
  from C2_transfer_links [OF r, of CONFIG "[]" 1 1800] r e show ?thesis
    by (intro conjI)
qed

text \<open>
  C2 as stated fails: with the default configuration, the arrival of route 3 at 28000 and
  the departure of route 4 from the same stop at 28120, which is exactly
  \<open>MIN_TRANSFER_TIME\<close> later, give a transfer link of duration 120.
\<close>

theorem C2_departure_at_min_transfer_time_linked:
  "Timestamp (transfer_pair_nodes ! 1) =
     Timestamp (transfer_pair_nodes ! 0) + MIN_TRANSFER_TIME CONFIG \<and>
   append_transfer_links_to_file CONFIG transfer_pair_nodes [] 1 (MAX_TRANSFER_TIME CONFIG) =
     ([\<lparr>link_id = 1, from_node = 5, to_node = 6, duration = 120, mode = ''transfer''\<rparr>], 2)"
proof -
  have "transfer_links CONFIG 1800 transfer_pair_nodes = [(5, 6, 120)]"
    by (simp add: transfer_links_def transfer_group_links_def transfer_arrival_links_def
        groupby_def sort_values_Timestamp_def scenario_defs CONFIG_def)
  then show ?thesis
    by (simp add: append_transfer_links_to_file_eq CONFIG_def scenario_defs)
qed

text \<open>
  C3, as amended. In the single-trip scenario the wait-link builder appends exactly one
  wait link: from the arrival at B (node 2, 25470) to the departure of the same trip
  from B (node 3, 25500), with the dwell of 30 s as its duration. The arrival at B has a
  later departure in its group (stop B, route 1), so the claim that no wait link is
  emitted does not hold; the arrival at C has none.
\<close>

theorem C3_single_trip_wait_links:
  "append_wait_links_to_file single_trip_nodes output_file start_link_id =
     (output_file @
        [\<lparr>link_id = start_link_id, from_node = 2, to_node = 3, duration = 30, mode = ''wait''\<rparr>],
      start_link_id + 1)"
proof -
  have "wait_links single_trip_nodes = [(2, 3, 30)]"
    by (simp add: wait_links_def wait_group_links_def groupby_def sort_values_Timestamp_def
        scenario_defs)
  then show ?thesis
    by (simp add: append_wait_links_to_file_eq)
qed

text \<open>
  C3 as stated fails: run after the ride-link builder on the single-trip scenario, the
  wait-link builder adds a row to the file.
\<close>

theorem C3_single_trip_wait_link_emitted:
  "fst (append_wait_links_to_file single_trip_nodes
          (fst (create_bus_links_to_file single_trip_nodes 1))
          (snd (create_bus_links_to_file single_trip_nodes 1))) =
     [\<lparr>link_id = 1, from_node = 1, to_node = 2, duration = 270, mode = ''bus''\<rparr>,
      \<lparr>link_id = 2, from_node = 3, to_node = 4, duration = 270, mode = ''bus''\<rparr>,
      \<lparr>link_id = 3, from_node = 2, to_node = 3, duration = 30, mode = ''wait''\<rparr>]"
proof -
  have w: "wait_links single_trip_nodes = [(2, 3, 30)]"
    by (simp add: wait_links_def wait_group_links_def groupby_def sort_values_Timestamp_def
        scenario_defs)
  have b: "bus_links single_trip_nodes = [(1, 2, 270), (3, 4, 270)]"
    by (simp add: bus_links_def bus_trip_links_def bus_dep_links_def groupby_def
        sort_values_Timestamp_def scenario_defs)
  show ?thesis
    by (simp add: append_wait_links_to_file_eq create_bus_links_to_file_eq w b)
qed

text \<open>
  C4, as amended. On a node table whose timestamps are seconds since midnight that fit
  the 32-bit column (\<open>timestamps_in_range\<close>), every ride link (mode \<open>bus\<close>) goes from a
  DEPARTURE to an ARRIVAL of the same (route, trip); its duration is the difference of
  the two timestamps, is positive and is below 1800; and the arrival is one with the
  least timestamp among the arrivals of the trip strictly later than the departure. The
  arrival is chosen by time, not by position: an arrival that shares its timestamp with
  the preceding departure is passed over. (Without the bound on the timestamps the
  32-bit difference can wrap to a negative duration: lemma \<open>bus_duration_wraps\<close>.)
\<close>

theorem C4_ride_links:
  assumes "l \<in> set (fst (create_bus_links_to_file node_df start_link_id))"
    and "timestamps_in_range node_df"
  shows "mode l = ''bus'' \<and>
         (\<exists>dep \<in> set node_df. \<exists>arr \<in> set node_df.
            from_node l = NodeId dep \<and> to_node l = NodeId arr \<and>
            Event dep = ''DEPARTURE'' \<and> Event arr = ''ARRIVAL'' \<and>
            RouteId arr = RouteId dep \<and> TripId arr = TripId dep \<and>
            duration l = Timestamp arr - Timestamp dep \<and> duration l < 1800 \<and>
            Timestamp dep < Timestamp arr \<and>
            (\<forall>a' \<in> set node_df.
               Event a' = ''ARRIVAL'' \<and> RouteId a' = RouteId dep \<and> TripId a' = TripId dep \<and>
               Timestamp dep < Timestamp a' \<longrightarrow> Timestamp arr \<le> Timestamp a'))"
proof -
  from assms(1) have l: "l \<in> set (number_links ''bus'' start_link_id (bus_links node_df))"
    by (simp add: create_bus_links_to_file_eq)
  then have m: "mode l = ''bus''"
    by (rule mode_number_links)
  from l have "payload l \<in> payload ` set (number_links ''bus'' start_link_id (bus_links node_df))"
    by (rule imageI)
  then have "payload l \<in> set (map payload (number_links ''bus'' start_link_id (bus_links node_df)))"
    by (simp only: set_map)
  then have "payload l \<in> set (bus_links node_df)"
    by (simp only: payload_number_links)
  then have "(from_node l, to_node l, duration l) \<in> set (bus_links node_df)"
    by (simp add: payload_def)
  from bus_links_sound_in_range [OF this assms(2)] m show ?thesis
    by blast
qed

theorem C4_ride_links_witness:
  "\<lparr>link_id = 1, from_node = 1, to_node = 4, duration = 570, mode = ''bus''\<rparr>
     \<in> set (fst (create_bus_links_to_file zero_segment_nodes 1)) \<and>
   timestamps_in_range zero_segment_nodes \<and>
   (\<exists>dep \<in> set zero_segment_nodes. \<exists>arr \<in> set zero_segment_nodes.
      1 = NodeId dep \<and> 4 = NodeId arr \<and>
      Event dep = ''DEPARTURE'' \<and> Event arr = ''ARRIVAL'' \<and>
      RouteId arr = RouteId dep \<and> TripId arr = TripId dep \<and>
      570 = Timestamp arr - Timestamp dep \<and> Timestamp dep < Timestamp arr \<and>
      (\<forall>a' \<in> set zero_segment_nodes.
         Event a' = ''ARRIVAL'' \<and> RouteId a' = RouteId dep \<and> TripId a' = TripId dep \<and>
         Timestamp dep < Timestamp a' \<longrightarrow> Timestamp arr \<le> Timestamp a'))"
proof -
  have b: "bus_links zero_segment_nodes = [(1, 4, 570), (3, 4, 540)]"
    by (simp add: bus_links_def bus_trip_links_def bus_dep_links_def groupby_def
        sort_values_Timestamp_def scenario_defs)
  have h: "\<lparr>link_id = 1, from_node = 1, to_node = 4, duration = 570, mode = ''bus''\<rparr>
     \<in> set (fst (create_bus_links_to_file zero_segment_nodes 1))"
    by (simp add: create_bus_links_to_file_eq b)
  have r: "timestamps_in_range zero_segment_nodes"
    by (simp add: timestamps_in_range_def scenario_defs)
  from C4_ride_links [OF h r] show ?thesis
    using h r by simp
qed

text \<open>
  C4 as stated fails on a trip with a zero-length segment. The trip leaves A at 25200
  (node 1), arrives at B at 25200 (node 2), leaves B at 25230 (node 3) and arrives at C at
  25770 (node 4). The ride link from node 1 goes to node 4, while the arrival that follows
  node 1 in the sequence of events of the trip is node 2; no ride link reaches node 2.
\<close>

theorem C4_zero_segment_skips_next_arrival:
  "fst (create_bus_links_to_file zero_segment_nodes 1) =
     [\<lparr>link_id = 1, from_node = 1, to_node = 4, duration = 570, mode = ''bus''\<rparr>,
      \<lparr>link_id = 2, from_node = 3, to_node = 4, duration = 540, mode = ''bus''\<rparr>] \<and>
   map NodeId (trip_event_sequence zero_segment_nodes 1 1) = [1, 2, 3, 4] \<and>
   map Timestamp (trip_event_sequence zero_segment_nodes 1 1) = [25200, 25200, 25230, 25770] \<and>
   map_option NodeId
     (next_arrival_in_sequence (trip_event_sequence zero_segment_nodes 1 1)
        (zero_segment_nodes ! 0)) = Some 2"
proof -
  have b: "bus_links zero_segment_nodes = [(1, 4, 570), (3, 4, 540)]"
    by (simp add: bus_links_def bus_trip_links_def bus_dep_links_def groupby_def
        sort_values_Timestamp_def scenario_defs)
  have s: "trip_event_sequence zero_segment_nodes 1 1 = zero_segment_nodes"
    by (simp add: trip_event_sequence_def scenario_defs)
  have n: "map_option NodeId (next_arrival_in_sequence zero_segment_nodes (zero_segment_nodes ! 0))
      = Some 2"
    by (simp add: next_arrival_in_sequence_def scenario_defs)
  show ?thesis
    unfolding s using n
    by (simp add: create_bus_links_to_file_eq b) (simp add: scenario_defs)
qed

text \<open>
  C5, as amended. For a trip of a variant that is no loop (with at least two stops, as
  \<open>process_route_variant\<close> requires of a variant) that passes validation, the events
  are, in order: a DEPARTURE at the first stop; for every interior stop an ARRIVAL and
  then a DEPARTURE at that stop; an ARRIVAL at the last stop; and nothing else. For the
  interior stop of index \<open>i\<close> the two events are the nodes \<open>2i - 1\<close> and \<open>2i\<close>, and, when
  the arrival is within \<open>2^52\<close> s of midnight, their timestamps differ by the dwell
  resolved for the bus type up to one second: the departure is the rounding of the float
  sum of the arrival time, not yet rounded, and the dwell.
\<close>

theorem C5_trip_event_stream:
  assumes "process_trip (waiting_time_of bus_type) stops False stop_distances total_distance
             route_id route_no variant_id tr global_node_id = Inr (True, nodes, next_id)"
    and "2 \<le> length stops"
  shows "map (\<lambda>r. (StopId r, Event r)) nodes =
           (stop_StopId (hd stops), ''DEPARTURE'') #
           concat (map (\<lambda>st. [(stop_StopId st, ''ARRIVAL''), (stop_StopId st, ''DEPARTURE'')])
                     (butlast (tl stops))) @
           [(stop_StopId (last stops), ''ARRIVAL'')] \<and>
         (\<forall>i. 1 \<le> i \<and> i + 1 < length stops \<longrightarrow>
            Event (nodes ! (2 * i - 1)) = ''ARRIVAL'' \<and>
            StopId (nodes ! (2 * i - 1)) = stop_StopId (stops ! i) \<and>
            Event (nodes ! (2 * i)) = ''DEPARTURE'' \<and>
            StopId (nodes ! (2 * i)) = stop_StopId (stops ! i) \<and>
            (\<bar>Timestamp (nodes ! (2 * i - 1))\<bar> \<le> 2 ^ 52 \<longrightarrow>
               \<bar>Timestamp (nodes ! (2 * i)) - Timestamp (nodes ! (2 * i - 1)) -
                  waiting_time_of bus_type\<bar> \<le> 1))"
proof -
  let ?w = "waiting_time_of bus_type"
  from process_trip_valid [OF assms(1)] obtain v start_seconds
    where "emit_stops ?w stop_distances v route_id route_no variant_id
        (trip_TripId tr) (length stops) 0 stops (real_of_int start_seconds) global_node_id =
        (nodes, next_id)"
    by blast
  then have nodes: "nodes = fst (emit_stops ?w stop_distances v route_id route_no variant_id
        (trip_TripId tr) (length stops) 0 stops (real_of_int start_seconds) global_node_id)"
    by simp
  from assms(2) have "stops \<noteq> []" and "tl stops \<noteq> []"
    by (cases stops; auto)+
  then obtain st rest where stops: "stops = st # rest" and rest: "rest \<noteq> []"
    by (cases stops) auto
  define ns where "ns = fst (emit_stops ?w stop_distances v route_id route_no variant_id
        (trip_TripId tr) (length stops) 1 rest (real_of_int start_seconds) (global_node_id + 1))"
  define d0 where "d0 = make_node global_node_id route_id route_no variant_id (trip_TripId tr) st
        (real_of_int start_seconds) ''DEPARTURE''"
  have n: "nodes = d0 # ns"
    unfolding nodes ns_def d0_def by (simp add: stops Let_def)
  have "0 \<le> ?w \<and> ?w \<le> 86400"
    by (simp add: waiting_time_of_eq)
  then have i: "interior_stream ?w rest ns"
    unfolding ns_def using rest by (intro emit_stops_interior) (simp_all add: stops)
  have m: "map (\<lambda>r. (StopId r, Event r)) nodes =
           (stop_StopId (hd stops), ''DEPARTURE'') #
           concat (map (\<lambda>st. [(stop_StopId st, ''ARRIVAL''), (stop_StopId st, ''DEPARTURE'')])
                     (butlast (tl stops))) @
           [(stop_StopId (last stops), ''ARRIVAL'')]"
    unfolding n using interior_stream_map [OF i] rest by (simp add: stops d0_def make_node_simps)
  have "Event (nodes ! (2 * i - 1)) = ''ARRIVAL'' \<and>
            StopId (nodes ! (2 * i - 1)) = stop_StopId (stops ! i) \<and>
            Event (nodes ! (2 * i)) = ''DEPARTURE'' \<and>
            StopId (nodes ! (2 * i)) = stop_StopId (stops ! i) \<and>
            (\<bar>Timestamp (nodes ! (2 * i - 1))\<bar> \<le> 2 ^ 52 \<longrightarrow>
               \<bar>Timestamp (nodes ! (2 * i)) - Timestamp (nodes ! (2 * i - 1)) - ?w\<bar> \<le> 1)"
    if "1 \<le> i \<and> i + 1 < length stops" for i
  proof -
    from that obtain k where k: "i = Suc k" and kl: "k + 1 < length rest"
      by (cases i) (auto simp: stops)
    have e: "2 * i - 1 = Suc (2 * k)" "2 * i = Suc (2 * k + 1)"
      by (simp_all add: k)
    from interior_stream_nth [OF i kl] show ?thesis
      unfolding n e k stops by simp
  qed
  with m show ?thesis
    by blast
qed

theorem C5_trip_event_stream_witness:
  "process_trip (waiting_time_of (bus_type_of None)) [stop_A, stop_B, stop_C] False [1100, 1100]
     2200 1 ''01'' 1 single_trip 1 = Inr (True, single_trip_nodes, 5) \<and>
   map (\<lambda>r. (StopId r, Event r)) single_trip_nodes =
     [(1, ''DEPARTURE''), (2, ''ARRIVAL''), (2, ''DEPARTURE''), (3, ''ARRIVAL'')] \<and>
   \<bar>Timestamp (single_trip_nodes ! 1)\<bar> \<le> 2 ^ 52 \<and>
   \<bar>Timestamp (single_trip_nodes ! 2) - Timestamp (single_trip_nodes ! 1) -
      waiting_time_of (bus_type_of None)\<bar> \<le> 1 \<and>
   waiting_time_of (bus_type_of None) = 30"
proof -
  have h: "process_trip (waiting_time_of (bus_type_of None)) [stop_A, stop_B, stop_C] False
     [1100, 1100] 2200 1 ''01'' 1 single_trip 1 = Inr (True, single_trip_nodes, 5)"
    using single_trip_nodes_generated by (simp add: detect_loop_route_def stop_A_def stop_B_def)
  have l: "2 \<le> length [stop_A, stop_B, stop_C]"
    by simp
  note c = C5_trip_event_stream [OF h l]
  from c [THEN conjunct1] have m: "map (\<lambda>r. (StopId r, Event r)) single_trip_nodes =
     [(1, ''DEPARTURE''), (2, ''ARRIVAL''), (2, ''DEPARTURE''), (3, ''ARRIVAL'')]"
    by (simp add: stop_A_def stop_B_def stop_C_def)
  have b: "\<bar>Timestamp (single_trip_nodes ! 1)\<bar> \<le> 2 ^ 52"
    by (simp add: scenario_defs)
  from c [THEN conjunct2, rule_format, of 1] b
  have d: "\<bar>Timestamp (single_trip_nodes ! 2) - Timestamp (single_trip_nodes ! 1) -
      waiting_time_of (bus_type_of None)\<bar> \<le> 1"
    by simp
  show ?thesis
    using h m b d by (simp add: waiting_time_of_eq)
qed

text \<open>
  C5 as stated fails: on the trip from 00:00 to 00:08 over segments of 4.5 m and 535.5 m,
  which passes validation at 540 m in 420 s, the bus arrives at the interior stop B at
  timestamp 3 and leaves it at timestamp 34, which is 31 s later, while the dwell is 30 s.
\<close>

theorem C5_dwell_of_31_seconds:
  "process_trip (waiting_time_of (bus_type_of None)) [stop_A, stop_B, stop_C] False
     [9 / 2, 1071 / 2] 540 1 ''01'' 1 midnight_trip 1 = Inr (True, midnight_trip_nodes, 5) \<and>
   Event (midnight_trip_nodes ! 1) = ''ARRIVAL'' \<and> StopId (midnight_trip_nodes ! 1) = 2 \<and>
   Event (midnight_trip_nodes ! 2) = ''DEPARTURE'' \<and> StopId (midnight_trip_nodes ! 2) = 2 \<and>
   Timestamp (midnight_trip_nodes ! 1) = 3 \<and> Timestamp (midnight_trip_nodes ! 2) = 34 \<and>
   Timestamp (midnight_trip_nodes ! 2) - Timestamp (midnight_trip_nodes ! 1) = 31 \<and>
   waiting_time_of (bus_type_of None) = 30"
  using midnight_trip_nodes_generated by (simp add: scenario_defs waiting_time_of_eq)

text \<open>
  C6, as amended. Every link in the output file, also when the run stops at an exception,
  has one of the four modes. Every wait link and every transfer link has a strictly
  positive duration, and so has every bus link when the timestamps of the node table
  are seconds since midnight that fit the 32-bit column (\<open>timestamps_in_range\<close>;
  otherwise the 32-bit difference can wrap to a negative duration, lemma
  \<open>bus_duration_wraps\<close>). A walk link has a duration that is not negative when
  \<open>WALKING_SPEED\<close> is positive; it can be 0.
\<close>

theorem C6_link_durations:
  assumes "l \<in> set (output_file_of (create_link_table_memory_optimized node_df bus_json config))"
  shows "(mode l = ''bus'' \<or> mode l = ''wait'' \<or> mode l = ''transfer'' \<or> mode l = ''walk'') \<and>
         (mode l = ''wait'' \<or> mode l = ''transfer'' \<longrightarrow> 0 < duration l) \<and>
         (mode l = ''bus'' \<and> timestamps_in_range node_df \<longrightarrow> 0 < duration l) \<and>
         (mode l = ''walk'' \<and> 0 < WALKING_SPEED (effective_config config) \<longrightarrow> 0 \<le> duration l)"
proof -
  from create_link_table_rows [OF assms] show ?thesis
  proof
    assume "l \<in> set (fst (file_before_walk (effective_config config) node_df))"
    from file_before_walk_rows [OF this] show ?thesis
      by auto
  next
    assume "\<exists>i ps. l \<in> set (number_links ''walk'' i ps) \<and>
            set ps \<subseteq> set (walk_links (effective_config config) (fst (load_stop_info bus_json))
                             (snd (load_stop_info bus_json))
                             (WALKING_RADIUS (effective_config config))
                             (MAX_WALK_WAIT_TIME (effective_config config)) node_df)"
    then obtain i ps where l: "l \<in> set (number_links ''walk'' i ps)"
      and ps: "set ps \<subseteq> set (walk_links (effective_config config) (fst (load_stop_info bus_json))
                             (snd (load_stop_info bus_json))
                             (WALKING_RADIUS (effective_config config))
                             (MAX_WALK_WAIT_TIME (effective_config config)) node_df)"
      by blast
    from number_links_member [OF l] ps
    have m: "mode l = ''walk''" and w: "(from_node l, to_node l, duration l) \<in>
        set (walk_links (effective_config config) (fst (load_stop_info bus_json))
                             (snd (load_stop_info bus_json))
                             (WALKING_RADIUS (effective_config config))
                             (MAX_WALK_WAIT_TIME (effective_config config)) node_df)"
      by (auto simp: payload_def)
    have "0 \<le> duration l" if "0 < WALKING_SPEED (effective_config config)"
      using walk_links_duration [OF w that] .
    with m show ?thesis
      by simp
  qed
qed

theorem C6_link_durations_witness:
  "\<lparr>link_id = 1, from_node = 1, to_node = 2, duration = 0, mode = ''walk''\<rparr>
     \<in> set (output_file_of (create_link_table_memory_optimized colocated_nodes colocated_json None)) \<and>
   0 < WALKING_SPEED (effective_config None) \<and>
   (0::int) \<le> duration \<lparr>link_id = 1, from_node = 1, to_node = 2, duration = 0, mode = ''walk''\<rparr> \<and>
   \<lparr>link_id = 1, from_node = 1, to_node = 2, duration = 270, mode = ''bus''\<rparr>
     \<in> set (output_file_of (create_link_table_memory_optimized two_line_nodes json_without_B None)) \<and>
   timestamps_in_range two_line_nodes \<and>
   (0::int) < duration \<lparr>link_id = 1, from_node = 1, to_node = 2, duration = 270, mode = ''bus''\<rparr>"
proof -
  have s: "0 < WALKING_SPEED (effective_config None)"
    by (simp add: effective_config_def CONFIG_def)
  have m: "\<lparr>link_id = 1, from_node = 1, to_node = 2, duration = 0, mode = ''walk''\<rparr>
     \<in> set (output_file_of (create_link_table_memory_optimized colocated_nodes colocated_json None))"
    by (simp add: colocated_run output_file_of_def)
  have b: "\<lparr>link_id = 1, from_node = 1, to_node = 2, duration = 270, mode = ''bus''\<rparr>
     \<in> set (output_file_of (create_link_table_memory_optimized two_line_nodes json_without_B None))"
    by (simp add: two_line_run_without_B output_file_of_def)
  have r: "timestamps_in_range two_line_nodes"
    by (simp add: timestamps_in_range_def scenario_defs)
  from C6_link_durations [OF m] C6_link_durations [OF b] s m b r show ?thesis
    by simp
qed

text \<open>
  C6 as stated fails: stops A (id 1) and S (id 5) have the same coordinates, so their
  haversine distance is 0, and no route in common; a bus arrives at A at 1000 and a bus
  leaves S at 1000. The run of the link generator with the default configuration emits
  one link, a walk link of duration 0.
\<close>

theorem C6_colocated_walk_link_has_duration_zero:
  "stop_StopId stop_A \<noteq> stop_StopId stop_S \<and>
   haversine_distance (stop_Lat stop_A) (stop_Lng stop_A) (stop_Lat stop_S) (stop_Lng stop_S) = 0 \<and>
   snd (load_stop_info colocated_json) (stop_StopId stop_A) \<inter>
     snd (load_stop_info colocated_json) (stop_StopId stop_S) = {} \<and>
   Timestamp (colocated_nodes ! 1) = Timestamp (colocated_nodes ! 0) \<and>
   create_link_table_memory_optimized colocated_nodes colocated_json None =
     Inr ([\<lparr>link_id = 1, from_node = 1, to_node = 2, duration = 0, mode = ''walk''\<rparr>], 1)"
proof -
  have "snd (load_stop_info colocated_json) (stop_StopId stop_A) \<inter>
     snd (load_stop_info colocated_json) (stop_StopId stop_S) = {}"
    using colocated_stop_info(2,3) by (simp add: stop_A_def stop_S_def)
  then show ?thesis
    using colocated_run by (simp add: stop_A_def stop_S_def colocated_nodes_def make_node_def)
qed

text \<open>
  C7. For a trip whose times parse and whose travelling time is positive, with \<open>v\<close> the
  average speed the program computes, the float quotient of \<open>total_distance\<close> and
  \<open>traveling_time\<close>: if \<open>v < MIN_AVG_SPEED\<close> or \<open>v > 22.2\<close> (the float literal) the trip is
  skipped, with no node and the node counter unchanged; if \<open>MIN_AVG_SPEED \<le> v \<le> 22.2\<close>,
  both bounds included, the trip is valid and emits nodes, and on a variant that is no
  loop they are the nodes computed with the speed \<open>v\<close> itself. The witness has a trip of
  speed 30 dropped and trips of speed exactly 1 and exactly 22.2 kept.
\<close>

theorem C7_speed_filter:
  assumes "parse_time_to_seconds (trip_StartTime tr) False = Some start_seconds"
    and "parse_time_to_seconds (trip_EndTime tr) False = Some end_seconds"
    and "traveling_time = overnight_end_seconds tr start_seconds end_seconds - start_seconds -
           (int (length stops) - 1) * waiting_time"
    and "0 < traveling_time"
    and "v = double (total_distance / real_of_int traveling_time)"
  shows "(v < MIN_AVG_SPEED \<or> v > double (222 / 10) \<longrightarrow>
            process_trip waiting_time stops is_loop_route stop_distances total_distance route_id
              route_no variant_id tr global_node_id = Inr (False, [], global_node_id)) \<and>
         (MIN_AVG_SPEED \<le> v \<and> v \<le> double (222 / 10) \<and> 2 \<le> length stops \<longrightarrow>
            (\<exists>nodes next_id.
               process_trip waiting_time stops is_loop_route stop_distances total_distance
                 route_id route_no variant_id tr global_node_id = Inr (True, nodes, next_id) \<and>
               nodes \<noteq> [] \<and>
               (\<not> is_loop_route \<longrightarrow>
                  (nodes, next_id) =
                    emit_stops waiting_time stop_distances v route_id route_no variant_id
                      (trip_TripId tr) (length stops) 0 stops (real_of_int start_seconds)
                      global_node_id)))"
proof (intro conjI impI)
  note p = process_trip_parsed [OF assms(1,2)]
  have tt: "\<not> overnight_end_seconds tr start_seconds end_seconds - start_seconds -
           (int (length stops) - 1) * waiting_time \<le> 0"
    using assms(3,4) by simp
  {
    assume "v < MIN_AVG_SPEED \<or> v > double (222 / 10)"
    then show "process_trip waiting_time stops is_loop_route stop_distances total_distance route_id
              route_no variant_id tr global_node_id = Inr (False, [], global_node_id)"
      unfolding p expand_trip_def Let_def assms(3) [symmetric] assms(5) [symmetric]
      using assms(4) by auto
  next
    assume k: "MIN_AVG_SPEED \<le> v \<and> v \<le> double (222 / 10) \<and> 2 \<le> length stops"
    then obtain s0 s1 rest where stops: "stops = s0 # s1 # rest"
      by (cases stops; cases "tl stops"; auto)
    have e: "expand_trip waiting_time stops is_loop_route stop_distances total_distance route_id
        route_no variant_id (trip_TripId tr) global_node_id start_seconds
        (overnight_end_seconds tr start_seconds end_seconds) =
      (if is_loop_route then
         Inr (True,
              [make_node global_node_id route_id route_no variant_id (trip_TripId tr) s0
                 (real_of_int start_seconds) ''DEPARTURE'',
               make_node (global_node_id + 1) route_id route_no variant_id (trip_TripId tr) s1
                 (real_of_int (overnight_end_seconds tr start_seconds end_seconds)) ''ARRIVAL''],
              global_node_id + 2)
       else Inr (True,
              fst (emit_stops waiting_time stop_distances v route_id route_no variant_id
                     (trip_TripId tr) (length stops) 0 stops (real_of_int start_seconds)
                     global_node_id),
              snd (emit_stops waiting_time stop_distances v route_id route_no variant_id
                     (trip_TripId tr) (length stops) 0 stops (real_of_int start_seconds)
                     global_node_id)))"
      unfolding expand_trip_def Let_def assms(3) [symmetric] assms(5) [symmetric]
      using assms(4) k by (simp add: stops)
    have ne: "fst (emit_stops waiting_time stop_distances v route_id route_no variant_id
                     (trip_TripId tr) (length stops) 0 stops (real_of_int start_seconds)
                     global_node_id) \<noteq> []"
      by (simp add: stops Let_def)
    show "\<exists>nodes next_id.
               process_trip waiting_time stops is_loop_route stop_distances total_distance
                 route_id route_no variant_id tr global_node_id = Inr (True, nodes, next_id) \<and>
               nodes \<noteq> [] \<and>
               (\<not> is_loop_route \<longrightarrow>
                  (nodes, next_id) =
                    emit_stops waiting_time stop_distances v route_id route_no variant_id
                      (trip_TripId tr) (length stops) 0 stops (real_of_int start_seconds)
                      global_node_id)"
    proof (cases is_loop_route)
      case True
      then show ?thesis
        unfolding p e by simp
    next
      case False
      obtain ns nid where em: "emit_stops waiting_time stop_distances v route_id route_no
          variant_id (trip_TripId tr) (length stops) 0 stops (real_of_int start_seconds)
          global_node_id = (ns, nid)"
        by (rule prod.exhaust)
      with ne have "ns \<noteq> []"
        by simp
      with False show ?thesis
        unfolding p e em by simp
    qed
  }
qed

theorem C7_speed_filter_witness:
  "process_trip 30 [stop_A, stop_B, stop_C] False [8100, 8100] 16200 1 ''01'' 1 single_trip 1 =
     Inr (False, [], 1) \<and>
   (\<exists>nodes next_id.
      process_trip 30 [stop_A, stop_B, stop_C] False [270, 270] 540 1 ''01'' 1 single_trip 1 =
        Inr (True, nodes, next_id) \<and> nodes \<noteq> []) \<and>
   (\<exists>nodes next_id.
      process_trip 30 [stop_A, stop_B, stop_C] False [5994, 5994] 11988 1 ''01'' 1 single_trip 1 =
        Inr (True, nodes, next_id) \<and> nodes \<noteq> []) \<and>
   (double (16200 / real_of_int 540) = 30 \<and> 30 > double (222 / 10)) \<and>
   (double (540 / real_of_int 540) = MIN_AVG_SPEED) \<and>
   (double (11988 / real_of_int 540) = double (222 / 10))"
proof -
  have s: "parse_time_to_seconds (trip_StartTime single_trip) False = Some 25200"
    and e: "parse_time_to_seconds (trip_EndTime single_trip) False = Some 25800"
    by (simp_all add: single_trip_def parse_0700 parse_0710)
  have t: "(540::int) = overnight_end_seconds single_trip 25200 25800 - 25200 -
      (int (length [stop_A, stop_B, stop_C]) - 1) * 30"
    by (simp add: overnight_end_seconds_eq [OF e])
  have p: "(0::int) < 540"
    by simp
  note c = C7_speed_filter [OF s e t p]
  have v1: "(30::real) = double (16200 / real_of_int 540)"
    and v2: "(1::real) = double (540 / real_of_int 540)"
    and v3: "double (222 / 10) = double (11988 / real_of_int 540)"
    by (simp_all add: double_numeral)
  have g: "(30::real) > double (222 / 10)" and o: "(1::real) \<le> double (222 / 10)"
    by (simp_all add: double_22_2)
  from c [OF v1, of False "[8100, 8100]" 1 "''01''" 1 1] g
  have a: "process_trip 30 [stop_A, stop_B, stop_C] False [8100, 8100] 16200 1 ''01'' 1
      single_trip 1 = Inr (False, [], 1)"
    by simp
  have k2: "MIN_AVG_SPEED \<le> (1::real) \<and> (1::real) \<le> double (222 / 10) \<and>
      2 \<le> length [stop_A, stop_B, stop_C]"
    using o by (simp add: MIN_AVG_SPEED_def)
  from c [OF v2, of False "[270, 270]" 1 "''01''" 1 1, THEN conjunct2, THEN mp, OF k2]
  have b: "\<exists>nodes next_id.
      process_trip 30 [stop_A, stop_B, stop_C] False [270, 270] 540 1 ''01'' 1 single_trip 1 =
        Inr (True, nodes, next_id) \<and> nodes \<noteq> []"
    by blast
  have k3: "MIN_AVG_SPEED \<le> double (222 / 10) \<and> double (222 / 10) \<le> double (222 / 10) \<and>
      2 \<le> length [stop_A, stop_B, stop_C]"
    using o by (simp add: MIN_AVG_SPEED_def)
  from c [OF v3, of False "[5994, 5994]" 1 "''01''" 1 1, THEN conjunct2, THEN mp, OF k3]
  have d: "\<exists>nodes next_id.
      process_trip 30 [stop_A, stop_B, stop_C] False [5994, 5994] 11988 1 ''01'' 1 single_trip 1 =
        Inr (True, nodes, next_id) \<and> nodes \<noteq> []"
    by blast
  show ?thesis
    using a b d g v1 [symmetric] v2 [symmetric] v3 [symmetric] by (simp add: MIN_AVG_SPEED_def)
qed

text \<open>
  C8. When both times of a trip parse and the end is not after the start, the end is
  replaced by the end plus 86400 before the travelling time is computed and validated:
  the trip is expanded between the start and that later end. The witness is the trip from
  22:30 to 01:30: a span of 10800 s, and on a loop variant an arrival with timestamp 91800,
  written \<open>01:30:00+1d\<close> in the column Time.
\<close>

theorem C8_overnight_reinterpretation:
  assumes "parse_time_to_seconds (trip_StartTime tr) False = Some start_seconds"
    and "parse_time_to_seconds (trip_EndTime tr) False = Some end_seconds"
    and "end_seconds \<le> start_seconds"
  shows "overnight_end_seconds tr start_seconds end_seconds = end_seconds + 86400 \<and>
         process_trip waiting_time stops is_loop_route stop_distances total_distance route_id
           route_no variant_id tr global_node_id =
         expand_trip waiting_time stops is_loop_route stop_distances total_distance route_id
           route_no variant_id (trip_TripId tr) global_node_id start_seconds
           (end_seconds + 86400)"
proof -
  have o: "overnight_end_seconds tr start_seconds end_seconds = end_seconds + 86400"
    using assms(3) by (simp add: overnight_end_seconds_eq [OF assms(2)])
  show ?thesis
    using process_trip_parsed [OF assms(1,2)] by (simp add: o)
qed

theorem C8_overnight_reinterpretation_witness:
  "parse_time_to_seconds (trip_StartTime overnight_trip) False = Some 81000 \<and>
   parse_time_to_seconds (trip_EndTime overnight_trip) False = Some 5400 \<and>
   overnight_end_seconds overnight_trip 81000 5400 - 81000 = 10800 \<and>
   process_trip 30 [stop_A, stop_S] (detect_loop_route [stop_A, stop_S]) [21540] 21540 1 ''01'' 1
     overnight_trip 1 =
     Inr (True,
          [make_node 1 1 ''01'' 1 9 stop_A 81000 ''DEPARTURE'',
           make_node 2 1 ''01'' 1 9 stop_S 91800 ''ARRIVAL''], 3) \<and>
   Timestamp (make_node 2 1 ''01'' 1 9 stop_S 91800 ''ARRIVAL'') = 91800 \<and>
   Time (make_node 2 1 ''01'' 1 9 stop_S 91800 ''ARRIVAL'') = ''01:30:00+1d''"
proof -
  have s: "parse_time_to_seconds (trip_StartTime overnight_trip) False = Some 81000"
    and e: "parse_time_to_seconds (trip_EndTime overnight_trip) False = Some 5400"
    by (simp_all add: overnight_trip_def time_defs)
  have l: "(5400::int) \<le> 81000"
    by simp
  note c = C8_overnight_reinterpretation [OF s e l]
  have t: "Time (make_node 2 1 ''01'' 1 9 stop_S 91800 ''ARRIVAL'') = ''01:30:00+1d''"
    by (simp add: make_node_def seconds_to_time_def format_02d_def show_int_def show_nat.simps)
  have d: "detect_loop_route [stop_A, stop_S]"
    by (simp add: detect_loop_route_def stop_A_def stop_S_def)
  have "process_trip 30 [stop_A, stop_S] True [21540] 21540 1 ''01'' 1 overnight_trip 1 =
     Inr (True,
          [make_node 1 1 ''01'' 1 9 stop_A 81000 ''DEPARTURE'',
           make_node 2 1 ''01'' 1 9 stop_S 91800 ''ARRIVAL''], 3)"
    unfolding c [THEN conjunct2]
    by (simp add: expand_trip_def MIN_AVG_SPEED_def overnight_trip_def double_numeral double_22_2)
  then show ?thesis
    using s e c [THEN conjunct1] t d by (simp add: make_node_simps)
qed

text \<open>
  C9. The link generator does not validate its configuration: \<open>validate_config\<close> of
  \<open>config.py\<close> is never called by it, and \<open>CONFIG.update(config)\<close> takes any values. Run
  on the transfer pair with \<open>MAX_TRANSFER_TIME = 60 < MIN_TRANSFER_TIME\<close>, with
  \<open>WALKING_RADIUS = 0\<close> or with \<open>WALKING_SPEED = -1\<close>, it returns normally with its link
  table instead of failing at startup.
\<close>

theorem C9_invalid_configuration_accepted:
  "MAX_TRANSFER_TIME (effective_config (Some config_max_below_min)) <
     MIN_TRANSFER_TIME (effective_config (Some config_max_below_min)) \<and>
   create_link_table_memory_optimized transfer_pair_nodes transfer_pair_json
     (Some config_max_below_min) = Inr ([], 0) \<and>
   WALKING_RADIUS (effective_config (Some config_radius_not_positive)) \<le> 0 \<and>
   create_link_table_memory_optimized transfer_pair_nodes transfer_pair_json
     (Some config_radius_not_positive) =
     Inr ([\<lparr>link_id = 1, from_node = 5, to_node = 6, duration = 120, mode = ''transfer''\<rparr>], 1) \<and>
   WALKING_SPEED (effective_config (Some config_speed_not_positive)) \<le> 0 \<and>
   create_link_table_memory_optimized transfer_pair_nodes transfer_pair_json
     (Some config_speed_not_positive) =
     Inr ([\<lparr>link_id = 1, from_node = 5, to_node = 6, duration = 120, mode = ''transfer''\<rparr>], 1)"
proof -
  have c1: "effective_config (Some config_max_below_min) = CONFIG\<lparr>MAX_TRANSFER_TIME := 60\<rparr>"
    and c2: "effective_config (Some config_radius_not_positive) = CONFIG\<lparr>WALKING_RADIUS := 0\<rparr>"
    and c3: "effective_config (Some config_speed_not_positive) = CONFIG\<lparr>WALKING_SPEED := - 1\<rparr>"
    by (simp_all add: effective_config_def CONFIG_update_def CONFIG_def config_max_below_min_def
        config_radius_not_positive_def config_speed_not_positive_def no_override_def)
  have "WALKING_SPEED (effective_config (Some config_max_below_min)) \<noteq> 0"
    "WALKING_SPEED (effective_config (Some config_radius_not_positive)) \<noteq> 0"
    "WALKING_SPEED (effective_config (Some config_speed_not_positive)) \<noteq> 0"
    unfolding c1 c2 c3 by (simp_all add: CONFIG_def)
  note runs = this [THEN transfer_pair_run]
  show ?thesis
    unfolding runs unfolding c1 c2 c3 by (simp add: CONFIG_def)
qed

text \<open>
  C10. The link generator returns normally only if every StopId of an ARRIVAL row of the
  node table is a stop of some variant in the bus JSON. If an ARRIVAL is at a stop the JSON
  does not have, the run ends in an exception, with the rows of the bus, wait and transfer
  builders (and the walk links already flushed) left in the output file; the exception is
  the \<open>KeyError\<close> of such a stop, unless a division by a zero \<open>WALKING_SPEED\<close> came first.
  Conversely, with every arrival at a known stop and a speed other than zero the run
  returns. The witness is the node table of the single trip and the transfer pair with a
  JSON that has lost stop B: \<open>KeyError 2\<close>, after four rows were written.
\<close>

theorem C10_walk_builder_needs_known_stops:
  "(\<forall>r. create_link_table_memory_optimized node_df bus_json config = Inr r \<longrightarrow>
       (\<forall>a \<in> set node_df. Event a = ''ARRIVAL'' \<longrightarrow> StopId a \<in> json_stop_ids bus_json)) \<and>
   ((\<exists>a \<in> set node_df. Event a = ''ARRIVAL'' \<and> StopId a \<notin> json_stop_ids bus_json) \<longrightarrow>
      (\<exists>e f extra.
          create_link_table_memory_optimized node_df bus_json config = Inl (e, f) \<and>
          f = fst (file_before_walk (effective_config config) node_df) @ extra \<and>
          ((e = ZeroDivisionError \<and> WALKING_SPEED (effective_config config) = 0) \<or>
           (\<exists>a \<in> set node_df. Event a = ''ARRIVAL'' \<and> StopId a \<notin> json_stop_ids bus_json \<and>
               e = KeyError (StopId a))))) \<and>
   ((\<forall>a \<in> set node_df. Event a = ''ARRIVAL'' \<longrightarrow> StopId a \<in> json_stop_ids bus_json) \<and>
    WALKING_SPEED (effective_config config) \<noteq> 0 \<longrightarrow>
      (\<exists>r. create_link_table_memory_optimized node_df bus_json config = Inr r))"
proof (intro conjI allI impI)
  let ?cfg = "effective_config config"
  let ?w = "append_walk_links_to_file ?cfg node_df (fst (load_stop_info bus_json))
      (snd (load_stop_info bus_json)) (fst (file_before_walk ?cfg node_df))
      (snd (file_before_walk ?cfg node_df)) (WALKING_RADIUS ?cfg) (MAX_WALK_WAIT_TIME ?cfg)"
  {
    fix r
    assume "create_link_table_memory_optimized node_df bus_json config = Inr r"
    then obtain f n where "?w = Inr (f, n)"
      unfolding create_link_table_eq by (auto split: sum.splits)
    from append_walk_links_to_file_Inr(3) [OF this]
    show "\<forall>a \<in> set node_df. Event a = ''ARRIVAL'' \<longrightarrow> StopId a \<in> json_stop_ids bus_json"
      unfolding dom_stop_info .
  next
    assume "\<exists>a \<in> set node_df. Event a = ''ARRIVAL'' \<and> StopId a \<notin> json_stop_ids bus_json"
    then obtain a where a: "a \<in> set node_df" "Event a = ''ARRIVAL''"
      "StopId a \<notin> dom (map_of (fst (load_stop_info bus_json)))"
      unfolding dom_stop_info by blast
    from append_walk_links_to_file_missing_stop [OF a] obtain e f where w: "?w = Inl (e, f)"
      by blast
    from append_walk_links_to_file_Inl [OF w] obtain extra
      where "f = fst (file_before_walk ?cfg node_df) @ extra"
        and "(e = ZeroDivisionError \<and> WALKING_SPEED ?cfg = 0) \<or>
          (\<exists>a \<in> set node_df. Event a = ''ARRIVAL'' \<and> e = KeyError (StopId a) \<and>
              StopId a \<notin> json_stop_ids bus_json)"
      unfolding dom_stop_info by blast
    moreover have "create_link_table_memory_optimized node_df bus_json config = Inl (e, f)"
      unfolding create_link_table_eq w by simp
    ultimately show "\<exists>e f extra.
          create_link_table_memory_optimized node_df bus_json config = Inl (e, f) \<and>
          f = fst (file_before_walk ?cfg node_df) @ extra \<and>
          ((e = ZeroDivisionError \<and> WALKING_SPEED ?cfg = 0) \<or>
           (\<exists>a \<in> set node_df. Event a = ''ARRIVAL'' \<and> StopId a \<notin> json_stop_ids bus_json \<and>
               e = KeyError (StopId a)))"
      by blast
  next
    assume h: "(\<forall>a \<in> set node_df. Event a = ''ARRIVAL'' \<longrightarrow> StopId a \<in> json_stop_ids bus_json) \<and>
      WALKING_SPEED ?cfg \<noteq> 0"
    then have "\<forall>a \<in> set node_df. Event a = ''ARRIVAL'' \<longrightarrow>
        StopId a \<in> dom (map_of (fst (load_stop_info bus_json)))"
      unfolding dom_stop_info by blast
    from append_walk_links_to_file_total [OF this] h obtain r where "?w = Inr r"
      by blast
    then show "\<exists>r. create_link_table_memory_optimized node_df bus_json config = Inr r"
      unfolding create_link_table_eq by (cases r) simp
  }
qed

theorem C10_walk_builder_needs_known_stops_witness:
  "(\<exists>a \<in> set two_line_nodes. Event a = ''ARRIVAL'' \<and> StopId a \<notin> json_stop_ids json_without_B) \<and>
   create_link_table_memory_optimized two_line_nodes json_without_B None =
     Inl (KeyError 2,
       [\<lparr>link_id = 1, from_node = 1, to_node = 2, duration = 270, mode = ''bus''\<rparr>,
        \<lparr>link_id = 2, from_node = 3, to_node = 4, duration = 270, mode = ''bus''\<rparr>,
        \<lparr>link_id = 3, from_node = 2, to_node = 3, duration = 30, mode = ''wait''\<rparr>,
        \<lparr>link_id = 4, from_node = 5, to_node = 6, duration = 120, mode = ''transfer''\<rparr>]) \<and>
   (\<exists>e f extra.
      create_link_table_memory_optimized two_line_nodes json_without_B None = Inl (e, f) \<and>
      f = fst (file_before_walk (effective_config None) two_line_nodes) @ extra \<and>
      ((e = ZeroDivisionError \<and> WALKING_SPEED (effective_config None) = 0) \<or>
       (\<exists>a \<in> set two_line_nodes. Event a = ''ARRIVAL'' \<and> StopId a \<notin> json_stop_ids json_without_B \<and>
           e = KeyError (StopId a))))"
proof -
  have "json_stop_ids json_without_B = {1, 3, 5}"
    unfolding load_stop_info_keys [symmetric] json_without_B_stop_info by auto
  then have h: "\<exists>a \<in> set two_line_nodes. Event a = ''ARRIVAL'' \<and> StopId a \<notin> json_stop_ids json_without_B"
    by (simp add: scenario_defs)
  from C10_walk_builder_needs_known_stops [of two_line_nodes json_without_B None] h
    two_line_run_without_B
  show ?thesis
    by blast
qed

end
